(* ===== verification/Prelude.thy ===== *)
theory Prelude
  imports Main "HOL-Library.Word"
begin

text \<open>
  Shared vocabulary of the development: Unicode text as lists of scalar values, its UTF-8 byte
  length, byte-offset slicing of \<open>&str\<close> with its panics, the ASCII characters the sources
  name, decimal and radix parsing of machine integers, and the theorem collections
  \<open>text_simps\<close> and \<open>span_intros\<close> that the components extend.
\<close>

unbundle bit_operations_syntax

named_theorems text_simps "byte lengths, slices and character classes"
named_theorems span_intros "introduction rules for read spans"

section \<open>Types\<close>

type_synonym uchar = nat
type_synonym ustr = "uchar list"
type_synonym u8 = "8 word"
type_synonym u16 = "16 word"
type_synonym u32 = "32 word"
type_synonym u64 = "64 word"
type_synonym i64 = "64 word"
type_synonym f64 = "64 word"

text \<open>
  A Rust \<open>char\<close> is a Unicode scalar value; a \<open>String\<close> or \<open>&str\<close> is the list of its
  scalars. A \<open>usize\<close> is a natural number: the sizes in question are bounded by the length
  of a string held in memory. A double is its bit pattern.
\<close>

definition is_scalar :: "uchar \<Rightarrow> bool" where
  "is_scalar c \<longleftrightarrow> c < 0xD800 \<or> (0xDFFF < c \<and> c \<le> 0x10FFFF)"

definition lit :: "string \<Rightarrow> ustr" where
  "lit cs = map of_char cs"

definition f64_is_finite :: "f64 \<Rightarrow> bool" where
  "f64_is_finite b \<longleftrightarrow> take_bit 11 (drop_bit 52 b) \<noteq> 0x7FF"

section \<open>Characters named in the sources\<close>

abbreviation (input) ch_nul :: uchar where "ch_nul \<equiv> 0"
abbreviation (input) ch_tab :: uchar where "ch_tab \<equiv> 9"
abbreviation (input) ch_newline :: uchar where "ch_newline \<equiv> 10"
abbreviation (input) ch_return :: uchar where "ch_return \<equiv> 13"
abbreviation (input) ch_space :: uchar where "ch_space \<equiv> 32"
abbreviation (input) ch_bang :: uchar where "ch_bang \<equiv> 33"
abbreviation (input) ch_dquote :: uchar where "ch_dquote \<equiv> 34"
abbreviation (input) ch_sharp :: uchar where "ch_sharp \<equiv> 35"
abbreviation (input) ch_dollar :: uchar where "ch_dollar \<equiv> 36"
abbreviation (input) ch_percent :: uchar where "ch_percent \<equiv> 37"
abbreviation (input) ch_apostrophe :: uchar where "ch_apostrophe \<equiv> 39"
abbreviation (input) ch_lparen :: uchar where "ch_lparen \<equiv> 40"
abbreviation (input) ch_rparen :: uchar where "ch_rparen \<equiv> 41"
abbreviation (input) ch_star :: uchar where "ch_star \<equiv> 42"
abbreviation (input) ch_plus :: uchar where "ch_plus \<equiv> 43"
abbreviation (input) ch_comma :: uchar where "ch_comma \<equiv> 44"
abbreviation (input) ch_minus :: uchar where "ch_minus \<equiv> 45"
abbreviation (input) ch_dot :: uchar where "ch_dot \<equiv> 46"
abbreviation (input) ch_slash :: uchar where "ch_slash \<equiv> 47"
abbreviation (input) ch_0 :: uchar where "ch_0 \<equiv> 48"
abbreviation (input) ch_1 :: uchar where "ch_1 \<equiv> 49"
abbreviation (input) ch_7 :: uchar where "ch_7 \<equiv> 55"
abbreviation (input) ch_colon :: uchar where "ch_colon \<equiv> 58"
abbreviation (input) ch_semicolon :: uchar where "ch_semicolon \<equiv> 59"
abbreviation (input) ch_less :: uchar where "ch_less \<equiv> 60"
abbreviation (input) ch_equal :: uchar where "ch_equal \<equiv> 61"
abbreviation (input) ch_greater :: uchar where "ch_greater \<equiv> 62"
abbreviation (input) ch_question :: uchar where "ch_question \<equiv> 63"
abbreviation (input) ch_at :: uchar where "ch_at \<equiv> 64"
abbreviation (input) ch_B :: uchar where "ch_B \<equiv> 66"
abbreviation (input) ch_E :: uchar where "ch_E \<equiv> 69"
abbreviation (input) ch_N :: uchar where "ch_N \<equiv> 78"
abbreviation (input) ch_O :: uchar where "ch_O \<equiv> 79"
abbreviation (input) ch_U :: uchar where "ch_U \<equiv> 85"
abbreviation (input) ch_X :: uchar where "ch_X \<equiv> 88"
abbreviation (input) ch_lbracket :: uchar where "ch_lbracket \<equiv> 91"
abbreviation (input) ch_backslash :: uchar where "ch_backslash \<equiv> 92"
abbreviation (input) ch_rbracket :: uchar where "ch_rbracket \<equiv> 93"
abbreviation (input) ch_caret :: uchar where "ch_caret \<equiv> 94"
abbreviation (input) ch_underscore :: uchar where "ch_underscore \<equiv> 95"
abbreviation (input) ch_backtick :: uchar where "ch_backtick \<equiv> 96"
abbreviation (input) ch_b :: uchar where "ch_b \<equiv> 98"
abbreviation (input) ch_c :: uchar where "ch_c \<equiv> 99"
abbreviation (input) ch_d :: uchar where "ch_d \<equiv> 100"
abbreviation (input) ch_e :: uchar where "ch_e \<equiv> 101"
abbreviation (input) ch_f :: uchar where "ch_f \<equiv> 102"
abbreviation (input) ch_i :: uchar where "ch_i \<equiv> 105"
abbreviation (input) ch_l :: uchar where "ch_l \<equiv> 108"
abbreviation (input) ch_n :: uchar where "ch_n \<equiv> 110"
abbreviation (input) ch_o :: uchar where "ch_o \<equiv> 111"
abbreviation (input) ch_p :: uchar where "ch_p \<equiv> 112"
abbreviation (input) ch_r :: uchar where "ch_r \<equiv> 114"
abbreviation (input) ch_s :: uchar where "ch_s \<equiv> 115"
abbreviation (input) ch_t :: uchar where "ch_t \<equiv> 116"
abbreviation (input) ch_u :: uchar where "ch_u \<equiv> 117"
abbreviation (input) ch_x :: uchar where "ch_x \<equiv> 120"
abbreviation (input) ch_lbrace :: uchar where "ch_lbrace \<equiv> 123"
abbreviation (input) ch_pipe :: uchar where "ch_pipe \<equiv> 124"
abbreviation (input) ch_rbrace :: uchar where "ch_rbrace \<equiv> 125"
abbreviation (input) ch_tilde :: uchar where "ch_tilde \<equiv> 126"

text \<open>The ASCII classes of the standard library's \<open>char\<close> methods.\<close>

definition is_ascii_digit :: "uchar \<Rightarrow> bool" where
  "is_ascii_digit c \<longleftrightarrow> 48 \<le> c \<and> c \<le> 57"

definition is_ascii_hexdigit :: "uchar \<Rightarrow> bool" where
  "is_ascii_hexdigit c \<longleftrightarrow>
     48 \<le> c \<and> c \<le> 57 \<or> 65 \<le> c \<and> c \<le> 70 \<or> 97 \<le> c \<and> c \<le> 102"

definition is_ascii_alphanumeric :: "uchar \<Rightarrow> bool" where
  "is_ascii_alphanumeric c \<longleftrightarrow>
     48 \<le> c \<and> c \<le> 57 \<or> 65 \<le> c \<and> c \<le> 90 \<or> 97 \<le> c \<and> c \<le> 122"

definition is_ascii_whitespace :: "uchar \<Rightarrow> bool" where
  "is_ascii_whitespace c \<longleftrightarrow> c = 32 \<or> c = 9 \<or> c = 10 \<or> c = 12 \<or> c = 13"

definition to_ascii_uppercase :: "uchar \<Rightarrow> uchar" where
  "to_ascii_uppercase c = (if 97 \<le> c \<and> c \<le> 122 then c - 32 else c)"

definition is_control :: "uchar \<Rightarrow> bool" where
  "is_control c \<longleftrightarrow> c < 32 \<or> 127 \<le> c \<and> c < 160"

definition to_digit :: "nat \<Rightarrow> uchar \<Rightarrow> nat option" where
  "to_digit radix c =
     (let d = (if 48 \<le> c \<and> c \<le> 57 then c - 48
               else if 97 \<le> c \<and> c \<le> 122 then c - 87
               else if 65 \<le> c \<and> c \<le> 90 then c - 55 else 36)
      in if d < radix then Some d else None)"

section \<open>UTF-8 lengths and byte slices\<close>

definition len_utf8 :: "uchar \<Rightarrow> nat" where
  "len_utf8 c = (if c < 0x80 then 1 else if c < 0x800 then 2 else if c < 0x10000 then 3 else 4)"

definition blen :: "ustr \<Rightarrow> nat" where
  "blen cs = sum_list (map len_utf8 cs)"

text \<open>
  \<open>byte_split n cs\<close> splits at byte offset \<open>n\<close>, and is \<open>None\<close> when \<open>n\<close> lies past the end
  or inside a character, where slicing a \<open>&str\<close> panics.
\<close>

fun byte_split :: "nat \<Rightarrow> ustr \<Rightarrow> (ustr \<times> ustr) option" where
  "byte_split n [] = (if n = 0 then Some ([], []) else None)"
| "byte_split n (c # cs) =
     (if n = 0 then Some ([], c # cs)
      else if len_utf8 c \<le> n then
        (case byte_split (n - len_utf8 c) cs of
           None \<Rightarrow> None
         | Some (a, b) \<Rightarrow> Some (c # a, b))
      else None)"

definition str_from :: "ustr \<Rightarrow> nat \<Rightarrow> ustr option" where
  "str_from cs a = map_option snd (byte_split a cs)"

definition str_slice :: "ustr \<Rightarrow> nat \<Rightarrow> nat \<Rightarrow> ustr option" where
  "str_slice cs a b =
     (if b < a then None
      else case byte_split a cs of
             None \<Rightarrow> None
           | Some (_, r) \<Rightarrow> map_option fst (byte_split (b - a) r))"

lemma len_utf8_pos [simp]: "0 < len_utf8 c"
  by (simp add: len_utf8_def)

lemma len_utf8_neq0 [simp]: "len_utf8 c \<noteq> 0" "len_utf8 c = 0 \<longleftrightarrow> False"
  by (simp_all add: len_utf8_def)

lemma len_utf8_ascii [simp]: "c < 128 \<Longrightarrow> len_utf8 c = 1"
  by (simp add: len_utf8_def)

lemma blen_Nil [simp]: "blen [] = 0"
  by (simp add: blen_def)

lemma blen_Cons [simp]: "blen (c # cs) = len_utf8 c + blen cs"
  by (simp add: blen_def)

lemma blen_append [simp]: "blen (xs @ ys) = blen xs + blen ys"
  by (simp add: blen_def)

lemma blen_eq_0 [simp]: "blen cs = 0 \<longleftrightarrow> cs = []" "0 = blen cs \<longleftrightarrow> cs = []"
  by (cases cs; simp)+

lemma blen_pos [simp]: "0 < blen cs \<longleftrightarrow> cs \<noteq> []"
  by (cases cs) simp_all

lemma length_le_blen: "length cs \<le> blen cs"
proof (induction cs)
  case (Cons c cs)
  moreover have "1 \<le> len_utf8 c" by (simp add: Suc_le_eq)
  ultimately show ?case by simp
qed simp

lemma byte_split_0 [simp]: "byte_split 0 cs = Some ([], cs)"
  by (cases cs) simp_all

lemma byte_split_append [simp]: "byte_split (blen a + n) (a @ b) =
    map_option (\<lambda>(x, y). (a @ x, y)) (byte_split n b)"
  by (induction a) (auto split: option.splits simp: option.map_ident)

lemma byte_split_blen [simp]: "byte_split (blen a) (a @ b) = Some (a, b)"
  using byte_split_append [of a 0 b] by simp

lemma byte_split_Some_iff: "byte_split n cs = Some (a, b) \<longleftrightarrow> cs = a @ b \<and> blen a = n"
proof (induction cs arbitrary: n a)
  case Nil
  then show ?case by auto
next
  case (Cons c cs)
  show ?case
    by (cases a) (auto simp: Cons.IH split: option.splits)
qed

lemma str_from_append [simp, text_simps]: "str_from (a @ b) (blen a) = Some b"
  by (simp add: str_from_def)

lemma str_slice_append [simp, text_simps]:
  "str_slice (a @ b @ c) (blen a) (blen a + blen b) = Some b"
  by (simp add: str_slice_def)

lemma str_slice_Some_iff:
  "str_slice cs i j = Some b \<longleftrightarrow> (\<exists>a c. cs = a @ b @ c \<and> blen a = i \<and> blen a + blen b = j)"
proof
  assume "str_slice cs i j = Some b"
  then obtain a r c where "i \<le> j" "byte_split i cs = Some (a, r)" "byte_split (j - i) r = Some (b, c)"
    by (auto simp: str_slice_def split: if_splits option.splits)
  then have "cs = a @ b @ c" "blen a = i" "blen b = j - i"
    by (auto simp: byte_split_Some_iff)
  with \<open>i \<le> j\<close> show "\<exists>a c. cs = a @ b @ c \<and> blen a = i \<and> blen a + blen b = j"
    by auto
qed auto

section \<open>Integers from text\<close>

fun digits_value :: "nat \<Rightarrow> nat \<Rightarrow> ustr \<Rightarrow> nat option" where
  "digits_value radix acc [] = Some acc"
| "digits_value radix acc (c # cs) =
     (case to_digit radix c of
        None \<Rightarrow> None
      | Some d \<Rightarrow> digits_value radix (acc * radix + d) cs)"

text \<open>\<open>i64::from_str_radix\<close>: an optional sign, then at least one digit, in range.\<close>

definition i64_from_str_radix :: "nat \<Rightarrow> ustr \<Rightarrow> i64 option" where
  "i64_from_str_radix radix cs =
     (let neg = (case cs of c # _ \<Rightarrow> c = ch_minus | [] \<Rightarrow> False);
          body = (case cs of c # r \<Rightarrow> if c = ch_minus \<or> c = ch_plus then r else cs | [] \<Rightarrow> [])
      in if body = [] then None
         else case digits_value radix 0 body of
                None \<Rightarrow> None
              | Some v \<Rightarrow>
                  (if neg then (if v \<le> 2 ^ 63 then Some (word_of_int (- int v)) else None)
                   else (if v < 2 ^ 63 then Some (word_of_int (int v)) else None)))"

section \<open>Printing numbers\<close>

fun show_nat :: "nat \<Rightarrow> ustr" where
  "show_nat n = (if n < 10 then [ch_0 + n] else show_nat (n div 10) @ [ch_0 + n mod 10])"

declare show_nat.simps [simp del]

definition show_int :: "int \<Rightarrow> ustr" where
  "show_int n = (if n < 0 then ch_minus # show_nat (nat (- n)) else show_nat (nat n))"

section \<open>Collecting optional results\<close>

lemma those_eq_Some_iff: "those xs = Some ys \<longleftrightarrow> xs = map Some ys"
  by (induction xs arbitrary: ys) (auto split: option.splits)

lemma those_map_nth: "those (map f xs) = Some ys \<Longrightarrow> length ys = length xs \<and> (\<forall>i<length xs. f (xs ! i) = Some (ys ! i))"
  unfolding those_eq_Some_iff by (metis length_map nth_map)

end
