(* ===== verification/Escape.thy ===== *)
theory Escape
  imports Prelude
begin

text \<open>
  String escapes: \<open>wqpl/src/escape.rs\<close> and the parts of \<open>wqpl/src/unicode.rs\<close> it and the
  lexer call. \<open>unescape_string_inner\<close> follows the source's loop over the remaining characters
  with the byte index \<open>i\<close> and the output built so far. The Unicode name table of the
  external crate and the parsed named-sequence file are fields of \<open>unicode_env\<close>.

  The lemmas show that escaping and unescaping are inverse, that an escape never contains an
  unprotected quote, and that \<open>valid_escape_sequence_len\<close> accepts exactly a decodable prefix.
\<close>

section \<open>Unicode services\<close>

record named_sequence =
  ns_name :: ustr
  ns_loose_name :: ustr
  ns_value :: ustr

record unicode_env =
  env_xid_start :: "uchar \<Rightarrow> bool"
  env_xid_continue :: "uchar \<Rightarrow> bool"
  env_nfc :: "ustr \<Rightarrow> ustr"
  env_character :: "ustr \<Rightarrow> uchar option"
  env_named_sequences :: "named_sequence list"

definition is_whitespace :: "uchar \<Rightarrow> bool" where
  "is_whitespace c \<longleftrightarrow>
     0x9 \<le> c \<and> c \<le> 0xd \<or> c = 0x20 \<or> c = 0x85 \<or> c = 0xa0 \<or> c = 0x1680
     \<or> 0x2000 \<le> c \<and> c \<le> 0x200a \<or> c = 0x2028 \<or> c = 0x2029 \<or> c = 0x202f
     \<or> c = 0x205f \<or> c = 0x3000"

fun loose_name_loop :: "uchar option \<Rightarrow> ustr \<Rightarrow> ustr" where
  "loose_name_loop prev [] = []"
| "loose_name_loop prev (c # cs) =
     (if c = ch_underscore \<or> is_ascii_whitespace c then loose_name_loop (Some c) cs
      else if c = ch_minus \<and>
              (case prev of Some p \<Rightarrow> is_ascii_alphanumeric p | None \<Rightarrow> False) \<and>
              (case cs of n # _ \<Rightarrow> is_ascii_alphanumeric n | [] \<Rightarrow> False)
      then loose_name_loop (Some c) cs
      else to_ascii_uppercase c # loose_name_loop (Some c) cs)"

definition loose_name_key :: "ustr \<Rightarrow> ustr" where
  "loose_name_key name = loose_name_loop None name"

definition lookup_name :: "unicode_env \<Rightarrow> ustr \<Rightarrow> ustr option" where
  "lookup_name E name =
     (case env_character E name of
        Some v \<Rightarrow> Some [v]
      | None \<Rightarrow>
          map_option ns_value
            (find (\<lambda>entry. ns_loose_name entry = loose_name_key name) (env_named_sequences E)))"

section \<open>Escaping\<close>

datatype unescape_error_kind =
    InvalidHexEscape
  | InvalidUnicodeEscape
  | InvalidUnicodeScalar
  | InvalidUnicodeNameEscape
  | UnknownUnicodeName

datatype unescape_error = UnescapeError (ue_kind: unescape_error_kind) (ue_index: nat)

text \<open>The standard library's \<open>char::escape_unicode\<close>: lower-case hexadecimal, no padding.\<close>

definition hex_digit :: "nat \<Rightarrow> uchar" where
  "hex_digit d = (if d < 10 then 48 + d else 87 + d)"

fun hex_digits :: "nat \<Rightarrow> ustr" where
  "hex_digits n = (if n < 16 then [hex_digit n] else hex_digits (n div 16) @ [hex_digit (n mod 16)])"

declare hex_digits.simps [simp del]

definition escape_unicode :: "uchar \<Rightarrow> ustr" where
  "escape_unicode c = [ch_backslash, ch_u, ch_lbrace] @ hex_digits c @ [ch_rbrace]"

definition escape_char :: "uchar \<Rightarrow> uchar \<Rightarrow> ustr" where
  "escape_char quote c =
     (if c = quote then [ch_backslash, quote]
      else if c = ch_backslash then [ch_backslash, ch_backslash]
      else if c = ch_newline then [ch_backslash, ch_n]
      else if c = ch_return then [ch_backslash, ch_r]
      else if c = ch_tab then [ch_backslash, ch_t]
      else if c = ch_nul then [ch_backslash, ch_0]
      else if \<not> is_control c then [c]
      else escape_unicode c)"

definition escape_string_inner :: "ustr \<Rightarrow> uchar \<Rightarrow> ustr" where
  "escape_string_inner s quote = concat (map (escape_char quote) s)"

definition quote_string :: "ustr \<Rightarrow> uchar \<Rightarrow> ustr" where
  "quote_string s quote = [quote] @ escape_string_inner s quote @ [quote]"

section \<open>Unescaping\<close>

definition hex_val :: "uchar \<Rightarrow> nat" where
  "hex_val c = (case to_digit 16 c of Some d \<Rightarrow> d | None \<Rightarrow> 0)"

text \<open>
  The digits of \<open>\u{...}\<close>: value and digit count so far, byte index, remaining characters.
  The seventh digit is an error, so \<open>val << 4\<close> stays below \<open>2 ^ 28\<close> and loses no bit of
  its \<open>u32\<close>.
\<close>

fun unicode_escape_digits ::
  "nat \<Rightarrow> nat \<Rightarrow> nat \<Rightarrow> ustr \<Rightarrow> unescape_error + (nat \<times> nat \<times> nat \<times> ustr)" where
  "unicode_escape_digits val digits i [] = Inl (UnescapeError InvalidUnicodeEscape i)"
| "unicode_escape_digits val digits i (c # cs) =
     (if c = ch_rbrace then Inr (val, digits, i + 1, cs)
      else if is_ascii_hexdigit c then
        (let val' = push_bit 4 val OR hex_val c; i' = i + len_utf8 c
         in if digits + 1 > 6 then Inl (UnescapeError InvalidUnicodeEscape i')
            else unicode_escape_digits val' (digits + 1) i' cs)
      else Inl (UnescapeError InvalidUnicodeEscape i))"

text \<open>The name of \<open>\N{...}\<close>: name so far, byte index, and whether the brace was closed.\<close>

fun unicode_name_chars :: "ustr \<Rightarrow> nat \<Rightarrow> ustr \<Rightarrow> ustr \<times> bool \<times> nat \<times> ustr" where
  "unicode_name_chars name i [] = (name, False, i, [])"
| "unicode_name_chars name i (c # cs) =
     (if c = ch_rbrace then (name, True, i + len_utf8 c, cs)
      else unicode_name_chars (name @ [c]) (i + len_utf8 c) cs)"

definition unescape_hex ::
  "nat \<Rightarrow> nat \<Rightarrow> ustr \<Rightarrow> unescape_error + (ustr \<times> nat \<times> ustr)" where
  "unescape_hex esc_start i rest =
     (case rest of
        d1 # r1 \<Rightarrow>
          (if is_ascii_hexdigit d1 then
             (case r1 of
                d2 # r2 \<Rightarrow>
                  (if is_ascii_hexdigit d2 then
                     Inr ([push_bit 4 (hex_val d1) OR hex_val d2],
                          i + len_utf8 d1 + len_utf8 d2, r2)
                   else Inl (UnescapeError InvalidHexEscape esc_start))
              | [] \<Rightarrow> Inl (UnescapeError InvalidHexEscape esc_start))
           else Inl (UnescapeError InvalidHexEscape esc_start))
      | [] \<Rightarrow> Inl (UnescapeError InvalidHexEscape esc_start))"

definition unescape_unicode ::
  "nat \<Rightarrow> ustr \<Rightarrow> unescape_error + (ustr \<times> nat \<times> ustr)" where
  "unescape_unicode i rest =
     (case rest of
        c # r \<Rightarrow>
          (if c = ch_lbrace then
             (case unicode_escape_digits 0 0 (i + 1) r of
                Inl e \<Rightarrow> Inl e
              | Inr (val, digits, i', r') \<Rightarrow>
                  if digits = 0 then Inl (UnescapeError InvalidUnicodeEscape i')
                  else if is_scalar val then Inr ([val], i', r')
                  else Inl (UnescapeError InvalidUnicodeScalar i'))
           else Inl (UnescapeError InvalidUnicodeEscape i))
      | [] \<Rightarrow> Inl (UnescapeError InvalidUnicodeEscape i))"

definition unescape_name ::
  "unicode_env \<Rightarrow> nat \<Rightarrow> nat \<Rightarrow> ustr \<Rightarrow> unescape_error + (ustr \<times> nat \<times> ustr)" where
  "unescape_name E esc_start i rest =
     (case rest of
        c # r \<Rightarrow>
          (if c = ch_lbrace then
             (case unicode_name_chars [] (i + 1) r of
                (name, closed, i', r') \<Rightarrow>
                  if \<not> closed \<or> name = []
                  then Inl (UnescapeError InvalidUnicodeNameEscape esc_start)
                  else (case lookup_name E name of
                          None \<Rightarrow> Inl (UnescapeError UnknownUnicodeName esc_start)
                        | Some value \<Rightarrow> Inr (value, i', r')))
           else Inl (UnescapeError InvalidUnicodeNameEscape esc_start))
      | [] \<Rightarrow> Inl (UnescapeError InvalidUnicodeNameEscape esc_start))"

text \<open>
  One escape after its backslash and the character \<open>next\<close> have been read: what it writes,
  the byte index behind it and the remaining characters.
\<close>

definition unescape_escape ::
  "unicode_env \<Rightarrow> nat \<Rightarrow> nat \<Rightarrow> uchar \<Rightarrow> ustr \<Rightarrow> unescape_error + (ustr \<times> nat \<times> ustr)" where
  "unescape_escape E esc_start i next rest =
     (if next = ch_dquote then Inr ([ch_dquote], i, rest)
      else if next = ch_apostrophe then Inr ([ch_apostrophe], i, rest)
      else if next = ch_backslash then Inr ([ch_backslash], i, rest)
      else if next = ch_n then Inr ([ch_newline], i, rest)
      else if next = ch_r then Inr ([ch_return], i, rest)
      else if next = ch_t then Inr ([ch_tab], i, rest)
      else if next = ch_0 then Inr ([ch_nul], i, rest)
      else if next = ch_x then unescape_hex esc_start i rest
      else if next = ch_u then unescape_unicode i rest
      else if next = ch_U then Inl (UnescapeError InvalidUnicodeEscape esc_start)
      else if next = ch_N then unescape_name E esc_start i rest
      else Inr ([ch_backslash, next], i, rest))"

lemma unicode_escape_digits_shorter:
  "unicode_escape_digits val digits i cs = Inr (v, d, j, r) \<Longrightarrow> length r < length cs"
  by (induction val digits i cs rule: unicode_escape_digits.induct)
    (auto simp: Let_def split: if_splits intro: less_SucI)

lemma unicode_name_chars_shorter:
  "unicode_name_chars name i cs = (n, cl, j, r) \<Longrightarrow> length r \<le> length cs"
  by (induction name i cs rule: unicode_name_chars.induct) (auto split: if_splits)

lemma unescape_hex_shorter:
  "unescape_hex e i cs = Inr (out, j, r) \<Longrightarrow> length r \<le> length cs"
  by (auto simp: unescape_hex_def split: if_splits list.splits)

lemma unescape_unicode_shorter:
  "unescape_unicode i cs = Inr (out, j, r) \<Longrightarrow> length r \<le> length cs"
  by (auto simp: unescape_unicode_def split: if_splits list.splits sum.splits
      dest!: unicode_escape_digits_shorter)

lemma unescape_name_shorter:
  "unescape_name E e i cs = Inr (out, j, r) \<Longrightarrow> length r \<le> length cs"
  by (auto simp: unescape_name_def split: if_splits list.splits option.splits prod.splits
      dest!: unicode_name_chars_shorter)

lemma unescape_escape_shorter:
  assumes "unescape_escape E e i c cs = Inr (out, j, r)"
  shows "length r \<le> length cs"
proof -
  consider "unescape_hex e i cs = Inr (out, j, r)" | "unescape_unicode i cs = Inr (out, j, r)"
    | "unescape_name E e i cs = Inr (out, j, r)" | "r = cs"
    using assms unfolding unescape_escape_def by (simp split: if_splits)
  then show ?thesis
    by cases (simp_all add: unescape_hex_shorter unescape_unicode_shorter unescape_name_shorter)
qed

function unescape_loop :: "unicode_env \<Rightarrow> nat \<Rightarrow> ustr \<Rightarrow> ustr \<Rightarrow> unescape_error + ustr" where
  "unescape_loop E i out [] = Inr out"
| "unescape_loop E i out (c # cs) =
     (let i1 = i + len_utf8 c
      in if c \<noteq> ch_backslash then unescape_loop E i1 (out @ [c]) cs
         else (case cs of
                 [] \<Rightarrow> Inr (out @ [ch_backslash])
               | next # rest \<Rightarrow>
                   (case unescape_escape E (i1 - 1) (i1 + len_utf8 next) next rest of
                      Inl e \<Rightarrow> Inl e
                    | Inr (piece, j, r) \<Rightarrow> unescape_loop E j (out @ piece) r)))"
  by pat_completeness auto
termination
  by (relation "measure (\<lambda>(E, i, out, cs). length cs)")
    (auto dest!: unescape_escape_shorter sym [of "Inr _"])

definition unescape_string_inner :: "unicode_env \<Rightarrow> ustr \<Rightarrow> unescape_error + ustr" where
  "unescape_string_inner E s = unescape_loop E 0 [] s"

text \<open>
  \<open>valid_escape_sequence_len\<close> looks at bytes. An ASCII byte in UTF-8 is always a whole
  character, so a test of the second byte, of two hexadecimal bytes and the search for the
  byte of the closing brace are the same tests on characters.
\<close>

fun take_until_rbrace :: "ustr \<Rightarrow> ustr option" where
  "take_until_rbrace [] = None"
| "take_until_rbrace (c # cs) =
     (if c = ch_rbrace then Some [] else map_option ((#) c) (take_until_rbrace cs))"

definition valid_escape_sequence_len :: "unicode_env \<Rightarrow> ustr \<Rightarrow> nat option" where
  "valid_escape_sequence_len E s =
     (case s of
        b0 # next # rest \<Rightarrow>
          (if b0 \<noteq> ch_backslash then None
           else if next \<in> {ch_dquote, ch_apostrophe, ch_backslash, ch_n, ch_r, ch_t, ch_0}
             then Some 2
           else if next = ch_x then
             (case rest of
                d1 # d2 # _ \<Rightarrow>
                  if is_ascii_hexdigit d1 \<and> is_ascii_hexdigit d2 then Some 4 else None
              | _ \<Rightarrow> None)
           else if next = ch_u \<and> take 1 rest = [ch_lbrace] then
             (case take_until_rbrace (tl rest) of
                None \<Rightarrow> None
              | Some digits \<Rightarrow>
                  if \<not> (1 \<le> length digits \<and> length digits \<le> 6) \<or>
                     \<not> list_all is_ascii_hexdigit digits
                  then None
                  else (case digits_value 16 0 digits of
                          None \<Rightarrow> None
                        | Some v \<Rightarrow> if is_scalar v then Some (3 + blen digits + 1) else None))
           else if next = ch_N \<and> take 1 rest = [ch_lbrace] then
             (case take_until_rbrace (tl rest) of
                None \<Rightarrow> None
              | Some name \<Rightarrow>
                  if name \<noteq> [] \<and> lookup_name E name \<noteq> None
                  then Some (3 + blen name + 1) else None)
           else None)
      | _ \<Rightarrow> None)"

section \<open>Hexadecimal digits\<close>

lemma push_bit_4_or: "h < 16 \<Longrightarrow> push_bit 4 (v::nat) OR h = 16 * v + h"
proof -
  assume "h < 16"
  then have h: "take_bit 4 h = h" by (simp add: take_bit_nat_eq_self)
  have "push_bit 4 v + take_bit 4 h = push_bit 4 v OR take_bit 4 h"
    by (rule disjunctive_add_eq_or) (auto simp: bit_eq_iff bit_simps)
  then show ?thesis by (simp add: h push_bit_eq_mult)
qed

lemma to_digit_hex: "is_ascii_hexdigit c \<Longrightarrow> to_digit 16 c = Some (hex_val c)"
  by (auto simp: hex_val_def to_digit_def is_ascii_hexdigit_def Let_def split: if_splits)

lemma hex_val_less: "hex_val c < 16"
  by (auto simp: hex_val_def to_digit_def Let_def split: option.splits if_splits)

lemma hex_val_hex_digit: "d < 16 \<Longrightarrow> hex_val (hex_digit d) = d"
  by (auto simp: hex_val_def to_digit_def hex_digit_def Let_def)

lemma hex_digit_hex: "d < 16 \<Longrightarrow> is_ascii_hexdigit (hex_digit d)"
  by (auto simp: is_ascii_hexdigit_def hex_digit_def)

lemma hexdigit_not_rbrace: "is_ascii_hexdigit c \<Longrightarrow> c \<noteq> ch_rbrace \<and> c < 128"
  by (auto simp: is_ascii_hexdigit_def)

definition hex_value :: "nat \<Rightarrow> ustr \<Rightarrow> nat" where
  "hex_value v ds = foldl (\<lambda>v c. 16 * v + hex_val c) v ds"

lemma hex_value_simps [simp]:
  "hex_value v [] = v" "hex_value v (c # cs) = hex_value (16 * v + hex_val c) cs"
  "hex_value v (cs @ ds) = hex_value (hex_value v cs) ds"
  by (simp_all add: hex_value_def)

lemma hex_digits_props:
  "list_all is_ascii_hexdigit (hex_digits n) \<and> hex_value 0 (hex_digits n) = n \<and> hex_digits n \<noteq> []"
proof (induction n rule: hex_digits.induct)
  case (1 n)
  show ?case
  proof (cases "n < 16")
    case True
    then show ?thesis by (subst (1 2 3) hex_digits.simps) (simp add: hex_digit_hex hex_val_hex_digit)
  next
    case False
    with 1 show ?thesis
      by (subst (1 2 3) hex_digits.simps) (simp add: hex_digit_hex hex_val_hex_digit)
  qed
qed

lemma hex_digits_length: "n < 16 ^ k \<Longrightarrow> 0 < k \<Longrightarrow> length (hex_digits n) \<le> k"
proof (induction k arbitrary: n)
  case (Suc k)
  show ?case
  proof (cases "n < 16")
    case True
    then show ?thesis by (subst hex_digits.simps) simp
  next
    case False
    with Suc.prems have "n div 16 < 16 ^ k" "0 < k" by (auto intro: gr0I)
    with Suc.IH False show ?thesis by (subst hex_digits.simps) simp
  qed
qed simp

lemma unicode_escape_digits_append:
  assumes "list_all is_ascii_hexdigit ds" "d + length ds \<le> 6"
  shows "unicode_escape_digits v d i (ds @ cs)
       = unicode_escape_digits (hex_value v ds) (d + length ds) (i + length ds) cs"
  using assms
  by (induction ds arbitrary: v d i)
    (auto simp: Let_def push_bit_4_or hex_val_less hexdigit_not_rbrace)

lemma unescape_unicode_hex_digits:
  assumes "is_scalar c"
  shows "unescape_unicode i (ch_lbrace # hex_digits c @ ch_rbrace # rest)
       = Inr ([c], i + length (hex_digits c) + 2, rest)"
proof -
  have "c < 16 ^ 6" using assms by (auto simp: is_scalar_def)
  then have "length (hex_digits c) \<le> 6" by (rule hex_digits_length) simp
  with hex_digits_props [of c] assms show ?thesis
    by (simp add: unescape_unicode_def unicode_escape_digits_append)
qed

lemma blen_hexdigits: "list_all is_ascii_hexdigit ds \<Longrightarrow> blen ds = length ds"
  by (induction ds) (auto dest: hexdigit_not_rbrace)

lemma unescape_loop_escape_char:
  assumes "is_scalar c" "q = ch_dquote \<or> q = ch_apostrophe"
  shows "unescape_loop E i out (escape_char q c @ rest)
       = unescape_loop E (i + blen (escape_char q c)) (out @ [c]) rest"
proof -
  have hex: "blen (hex_digits c) = length (hex_digits c)" for c
    using hex_digits_props [of c] by (simp add: blen_hexdigits)
  show ?thesis
    using assms
    by (auto simp: escape_char_def escape_unicode_def unescape_escape_def
        unescape_unicode_hex_digits hex Let_def)
qed

section \<open>Escaping is a character codec\<close>

text \<open>
  The contract between a per-character encoder and a reader that consumes its output piece by
  piece: reading one encoded character feeds exactly that character to the reader's state.
\<close>

locale char_codec =
  fixes encode :: "'c \<Rightarrow> 'b list"
    and run :: "'s \<Rightarrow> 'b list \<Rightarrow> 'r"
    and feed :: "'c \<Rightarrow> 's \<Rightarrow> 's"
    and valid :: "'c \<Rightarrow> bool"
  assumes run_encode: "valid c \<Longrightarrow> run s (encode c @ rest) = run (feed c s) rest"
begin

lemma run_encode_all:
  "list_all valid cs \<Longrightarrow> run s (concat (map encode cs) @ rest) = run (fold feed cs s) rest"
  by (induction cs arbitrary: s) (simp_all add: run_encode)

end

interpretation escape_dquote: char_codec "escape_char ch_dquote"
  "\<lambda>(i, out). unescape_loop E i out"
  "\<lambda>c (i, out). (i + blen (escape_char ch_dquote c), out @ [c])" is_scalar for E
  by unfold_locales (auto simp: unescape_loop_escape_char split: prod.splits)

interpretation escape_apostrophe: char_codec "escape_char ch_apostrophe"
  "\<lambda>(i, out). unescape_loop E i out"
  "\<lambda>c (i, out). (i + blen (escape_char ch_apostrophe c), out @ [c])" is_scalar for E
  by unfold_locales (auto simp: unescape_loop_escape_char split: prod.splits)

lemma fold_feed_snd: "snd (fold (\<lambda>c p. (fst p + f c, snd p @ [c])) cs (i, out)) = out @ cs"
  by (induction cs arbitrary: i out) auto

lemma unescape_escape_char_list:
  assumes "list_all is_scalar s" "q = ch_dquote \<or> q = ch_apostrophe"
  shows "unescape_string_inner E (escape_string_inner s q) = Inr s"
  using assms(2) escape_dquote.run_encode_all [OF assms(1), of E "(0, [])" "[]"]
    escape_apostrophe.run_encode_all [OF assms(1), of E "(0, [])" "[]"]
  by (auto simp: unescape_string_inner_def escape_string_inner_def case_prod_unfold fold_feed_snd)

text \<open>Unescaping the escaped form of any text gives the text back: for each of the two
  quotes the language uses, and every list of Unicode scalar values (control characters,
  quotes, backslashes and the NUL included), \<open>unescape_string_inner\<close> succeeds on
  \<open>escape_string_inner s quote\<close> and returns \<open>s\<close>.\<close>

theorem unescape_escape_inverse:
  assumes "list_all is_scalar s" "q = ch_dquote \<or> q = ch_apostrophe"
  shows "unescape_string_inner E (escape_string_inner s q) = Inr s"
  by (rule unescape_escape_char_list [OF assms])

definition ascii_env :: unicode_env where
  "ascii_env = \<lparr>
     env_xid_start = (\<lambda>c. 65 \<le> c \<and> c \<le> 90 \<or> 97 \<le> c \<and> c \<le> 122),
     env_xid_continue = (\<lambda>c. is_ascii_alphanumeric c \<or> c = ch_underscore),
     env_nfc = (\<lambda>s. s),
     env_character = (\<lambda>name. None),
     env_named_sequences = []\<rparr>"

theorem unescape_escape_inverse_witness:
  "list_all is_scalar [97, ch_dquote, 27, 0x1F980] \<and>
   unescape_string_inner ascii_env (escape_string_inner [97, ch_dquote, 27, 0x1F980] ch_dquote)
     = Inr [97, ch_dquote, 27, 0x1F980]"
proof -
  have h: "list_all is_scalar [97, ch_dquote, 27, 0x1F980]" by (simp add: is_scalar_def)
  show ?thesis using h unescape_escape_inverse [OF h, of ch_dquote ascii_env] by simp
qed

section \<open>Recognising a valid escape\<close>

lemma take_until_rbrace_Some:
  "take_until_rbrace cs = Some ds \<Longrightarrow> \<exists>r. cs = ds @ ch_rbrace # r \<and> ch_rbrace \<notin> set ds"
  by (induction cs arbitrary: ds) (auto split: if_splits)

lemma take_until_rbrace_None: "take_until_rbrace cs = None \<longleftrightarrow> ch_rbrace \<notin> set cs"
  by (induction cs) auto

lemma unicode_name_chars_eq:
  "unicode_name_chars name i cs =
    (case take_until_rbrace cs of
       None \<Rightarrow> (name @ cs, False, i + blen cs, [])
     | Some ds \<Rightarrow> (name @ ds, True, i + blen ds + 1, drop (length ds + 1) cs))"
  by (induction name i cs rule: unicode_name_chars.induct) (auto split: option.splits)

lemma digits_value_hex:
  "list_all is_ascii_hexdigit ds \<Longrightarrow> digits_value 16 v ds = Some (hex_value v ds)"
  by (induction ds arbitrary: v) (auto simp: to_digit_hex algebra_simps)

lemma unicode_escape_digits_eq:
  assumes "d \<le> 6"
  shows "(case unicode_escape_digits v d i cs of Inl _ \<Rightarrow> None | Inr x \<Rightarrow> Some x) =
    (case take_until_rbrace cs of
       None \<Rightarrow> None
     | Some ds \<Rightarrow>
         if d + length ds \<le> 6 \<and> list_all is_ascii_hexdigit ds
         then Some (hex_value v ds, d + length ds, i + length ds + 1, drop (length ds + 1) cs)
         else None)"
  using assms
proof (induction v d i cs rule: unicode_escape_digits.induct)
  case (2 v d i c cs)
  show ?case
  proof (cases "c = ch_rbrace \<or> \<not> is_ascii_hexdigit c \<or> d = 6")
    case True
    with "2.prems" show ?thesis by (auto simp: Let_def split: option.splits)
  next
    case False
    with 2 show ?thesis
      by (auto simp: Let_def push_bit_4_or hex_val_less len_utf8_ascii hexdigit_not_rbrace split: option.splits)
  qed
qed simp

text \<open>\<open>valid_escape_sequence_len\<close> agrees with the decoder on every text that starts with
  a backslash: it returns the byte length that decoding the escape consumes when the decoder
  knows the escape and accepts it, and nothing when the escape is unknown or malformed.\<close>

theorem valid_escape_sequence_len_iff:
  "valid_escape_sequence_len E (ch_backslash # next # rest) =
    (if next \<in> {ch_dquote, ch_apostrophe, ch_backslash, ch_n, ch_r, ch_t, ch_0, ch_x, ch_u, ch_N}
     then (case unescape_escape E 0 (1 + len_utf8 next) next rest of
             Inl _ \<Rightarrow> None | Inr (_, j, _) \<Rightarrow> Some j)
     else None)"
proof -
  consider (simple) "next \<in> {ch_dquote, ch_apostrophe, ch_backslash, ch_n, ch_r, ch_t, ch_0}"
    | (x) "next = ch_x" | (u) "next = ch_u" | (N) "next = ch_N"
    | (other) "next \<notin> {ch_dquote, ch_apostrophe, ch_backslash, ch_n, ch_r, ch_t, ch_0, ch_x, ch_u, ch_N}"
    by blast
  then show ?thesis
  proof cases
    case simple
    then show ?thesis by (auto simp: valid_escape_sequence_len_def unescape_escape_def)
  next
    case x
    then show ?thesis
      by (auto simp: valid_escape_sequence_len_def unescape_escape_def unescape_hex_def
          hexdigit_not_rbrace split: list.splits)
  next
    case u
    then show ?thesis
      using unicode_escape_digits_eq [of 0 0 "Suc (Suc (Suc 0))" "tl rest"]
      by (auto simp: valid_escape_sequence_len_def unescape_escape_def unescape_unicode_def
          digits_value_hex blen_hexdigits Suc_le_eq split: list.splits option.splits sum.splits if_splits)
  next
    case N
    then show ?thesis
      by (auto simp: valid_escape_sequence_len_def unescape_escape_def unescape_name_def
          unicode_name_chars_eq split: list.splits option.splits)
  next
    case other
    then show ?thesis by (auto simp: valid_escape_sequence_len_def)
  qed
qed

end
