(* ===== verification/WqError.thy ===== *)
theory WqError
  imports Prelude
begin

text \<open>
  The error value of \<open>wqpl/src/wqerror.rs\<close>: its category and the fields that the modelled
  components fill in. The structured data, the crash snapshot and the host-failure flag keep
  their initial values in these components and are left out.
\<close>

datatype wq_error_type =
    W_Vm | W_Eof | W_Syntax | W_NotBound | W_Index | W_Call | W_Arity
  | W_Domain | W_Length | W_ZeroDiv
  | W_Io | W_Encode | W_Exec | W_Assert | W_Raise | W_Recursion

record source_ctx =
  sc_text :: ustr
  sc_path :: ustr

record wq_error =
  err_type :: wq_error_type
  err_src :: "ustr option"
  err_msg :: "ustr option"
  err_notes :: "ustr list"
  err_span :: "(nat \<times> nat) option"
  err_source_ctx :: "source_ctx option"

definition new_error :: "wq_error_type \<Rightarrow> wq_error" where
  "new_error t = \<lparr>err_type = t, err_src = None, err_msg = None, err_notes = [],
     err_span = None, err_source_ctx = None\<rparr>"

definition with_src :: "ustr \<Rightarrow> wq_error \<Rightarrow> wq_error" where
  "with_src d e = e\<lparr>err_src := Some d\<rparr>"

definition with_msg :: "ustr \<Rightarrow> wq_error \<Rightarrow> wq_error" where
  "with_msg d e = e\<lparr>err_msg := Some d\<rparr>"

definition with_span :: "(nat \<times> nat) option \<Rightarrow> wq_error \<Rightarrow> wq_error" where
  "with_span sp e = e\<lparr>err_span := sp\<rparr>"

definition with_source_ctx :: "ustr \<Rightarrow> ustr \<Rightarrow> wq_error \<Rightarrow> wq_error" where
  "with_source_ctx text path e = e\<lparr>err_source_ctx := Some \<lparr>sc_text = text, sc_path = path\<rparr>\<rparr>"

definition attach_note :: "ustr \<Rightarrow> wq_error \<Rightarrow> wq_error" where
  "attach_note d e = e\<lparr>err_notes := err_notes e @ [d]\<rparr>"

lemmas error_builder_defs =
  new_error_def with_src_def with_msg_def with_span_def with_source_ctx_def attach_note_def

end
