(* ===== verification/Token.thy ===== *)
theory Token
  imports Escape WqError
begin

text \<open>
  Tokens: \<open>wqpl/src/token.rs\<close> and \<open>wqpl/src/identifier.rs\<close>. \<open>token_type\<close> has one
  value per variant of \<open>TokenType\<close>; its payload-free operators, \<open>@\<close>-forms and brackets are
  grouped in six enumerations and every variant is named \<open>T_<Variant>\<close>.

  \<open>well_placed\<close> states what the five position fields of a token mean; \<open>rebase_token\<close> is
  shown to carry that meaning from a fragment to the file that contains it.
\<close>

section \<open>Keywords and token types\<close>

datatype keyword = Kw_WLoop | Kw_NLoop | Kw_Block | Kw_And | Kw_Or

definition keyword_from_identifier :: "ustr \<Rightarrow> keyword option" where
  "keyword_from_identifier s =
     (if s = lit ''W'' then Some Kw_WLoop
      else if s = lit ''N'' then Some Kw_NLoop
      else if s = lit ''B'' then Some Kw_Block
      else if s = lit ''A'' \<or> s = lit ''and'' then Some Kw_And
      else if s = lit ''O'' \<or> s = lit ''or'' then Some Kw_Or
      else None)"

datatype fmt_part =
    FmtText (fmt_content: ustr) (fmt_start: nat) (fmt_end: nat)
  | FmtExpr (fmt_source: ustr) (fmt_start: nat) (fmt_end: nat)

datatype arith_token =
     A_Plus | A_Minus | A_Multiply | A_Power | A_PowerDot | A_Divide | A_DivideDot | A_Modulo
    | A_Matmul | A_FloorDiv

datatype aug_token =
     G_PlusColon | G_MinusColon | G_MultiplyColon | G_DivideColon | G_DivideDotColon
    | G_ModuloColon | G_PowerColon | G_PowerDotColon | G_CommaColon | G_FloorDivColon

datatype compare_token =
     C_Equal | C_EqualDot | C_NotEqual | C_NotEqualDot | C_LessThan | C_LessThanOrEqual
    | C_GreaterThan | C_GreaterThanOrEqual

datatype sigil_token =
     S_Sharp | S_Pipe | S_PipeDot | S_PipePipe | S_PipePipeDot | S_Range | S_RangeInclusive
    | S_Dollar | S_DollarDot | S_DollarDollar

datatype at_token =
     W_AtBreak | W_AtContinue | W_AtReturn | W_AtDebug | W_AtPause | W_AtSymbolic | W_AtTry
    | W_AtImport

datatype bracket_token =
     B_LeftParen | B_RightParen | B_LeftBracket | B_RightBracket | B_LeftBrace | B_RightBrace
    | B_Semicolon | B_Comma

datatype token_type =
    T_Identifier ustr | T_Keyword keyword
  | T_Integer i64 | T_BigInteger int | T_Float f64 | T_Imaginary f64
  | T_Character uchar | T_String ustr | T_Tag ustr | T_Backtick
  | T_Inf | T_True | T_False
  | T_Arith arith_token | T_Aug aug_token | T_Colon | T_Compare compare_token
  | T_Sigil sigil_token | T_At at_token | T_AtDepth i64 | T_Bracket bracket_token
  | T_Ellipsis | T_Apostrophe | T_Comment ustr | T_Newline | T_Eof | T_Bang | T_Error
  | T_FormatString "fmt_part list" nat nat

abbreviation T_Plus :: token_type where "T_Plus \<equiv> T_Arith A_Plus"
abbreviation T_Minus :: token_type where "T_Minus \<equiv> T_Arith A_Minus"
abbreviation T_Multiply :: token_type where "T_Multiply \<equiv> T_Arith A_Multiply"
abbreviation T_Power :: token_type where "T_Power \<equiv> T_Arith A_Power"
abbreviation T_PowerDot :: token_type where "T_PowerDot \<equiv> T_Arith A_PowerDot"
abbreviation T_Divide :: token_type where "T_Divide \<equiv> T_Arith A_Divide"
abbreviation T_DivideDot :: token_type where "T_DivideDot \<equiv> T_Arith A_DivideDot"
abbreviation T_Modulo :: token_type where "T_Modulo \<equiv> T_Arith A_Modulo"
abbreviation T_Matmul :: token_type where "T_Matmul \<equiv> T_Arith A_Matmul"
abbreviation T_FloorDiv :: token_type where "T_FloorDiv \<equiv> T_Arith A_FloorDiv"
abbreviation T_PlusColon :: token_type where "T_PlusColon \<equiv> T_Aug G_PlusColon"
abbreviation T_MinusColon :: token_type where "T_MinusColon \<equiv> T_Aug G_MinusColon"
abbreviation T_MultiplyColon :: token_type where "T_MultiplyColon \<equiv> T_Aug G_MultiplyColon"
abbreviation T_DivideColon :: token_type where "T_DivideColon \<equiv> T_Aug G_DivideColon"
abbreviation T_DivideDotColon :: token_type where "T_DivideDotColon \<equiv> T_Aug G_DivideDotColon"
abbreviation T_ModuloColon :: token_type where "T_ModuloColon \<equiv> T_Aug G_ModuloColon"
abbreviation T_PowerColon :: token_type where "T_PowerColon \<equiv> T_Aug G_PowerColon"
abbreviation T_PowerDotColon :: token_type where "T_PowerDotColon \<equiv> T_Aug G_PowerDotColon"
abbreviation T_CommaColon :: token_type where "T_CommaColon \<equiv> T_Aug G_CommaColon"
abbreviation T_FloorDivColon :: token_type where "T_FloorDivColon \<equiv> T_Aug G_FloorDivColon"
abbreviation T_Equal :: token_type where "T_Equal \<equiv> T_Compare C_Equal"
abbreviation T_EqualDot :: token_type where "T_EqualDot \<equiv> T_Compare C_EqualDot"
abbreviation T_NotEqual :: token_type where "T_NotEqual \<equiv> T_Compare C_NotEqual"
abbreviation T_NotEqualDot :: token_type where "T_NotEqualDot \<equiv> T_Compare C_NotEqualDot"
abbreviation T_LessThan :: token_type where "T_LessThan \<equiv> T_Compare C_LessThan"
abbreviation T_LessThanOrEqual :: token_type where "T_LessThanOrEqual \<equiv> T_Compare C_LessThanOrEqual"
abbreviation T_GreaterThan :: token_type where "T_GreaterThan \<equiv> T_Compare C_GreaterThan"
abbreviation T_GreaterThanOrEqual :: token_type where "T_GreaterThanOrEqual \<equiv> T_Compare C_GreaterThanOrEqual"
abbreviation T_Sharp :: token_type where "T_Sharp \<equiv> T_Sigil S_Sharp"
abbreviation T_Pipe :: token_type where "T_Pipe \<equiv> T_Sigil S_Pipe"
abbreviation T_PipeDot :: token_type where "T_PipeDot \<equiv> T_Sigil S_PipeDot"
abbreviation T_PipePipe :: token_type where "T_PipePipe \<equiv> T_Sigil S_PipePipe"
abbreviation T_PipePipeDot :: token_type where "T_PipePipeDot \<equiv> T_Sigil S_PipePipeDot"
abbreviation T_Range :: token_type where "T_Range \<equiv> T_Sigil S_Range"
abbreviation T_RangeInclusive :: token_type where "T_RangeInclusive \<equiv> T_Sigil S_RangeInclusive"
abbreviation T_Dollar :: token_type where "T_Dollar \<equiv> T_Sigil S_Dollar"
abbreviation T_DollarDot :: token_type where "T_DollarDot \<equiv> T_Sigil S_DollarDot"
abbreviation T_DollarDollar :: token_type where "T_DollarDollar \<equiv> T_Sigil S_DollarDollar"
abbreviation T_AtBreak :: token_type where "T_AtBreak \<equiv> T_At W_AtBreak"
abbreviation T_AtContinue :: token_type where "T_AtContinue \<equiv> T_At W_AtContinue"
abbreviation T_AtReturn :: token_type where "T_AtReturn \<equiv> T_At W_AtReturn"
abbreviation T_AtDebug :: token_type where "T_AtDebug \<equiv> T_At W_AtDebug"
abbreviation T_AtPause :: token_type where "T_AtPause \<equiv> T_At W_AtPause"
abbreviation T_AtSymbolic :: token_type where "T_AtSymbolic \<equiv> T_At W_AtSymbolic"
abbreviation T_AtTry :: token_type where "T_AtTry \<equiv> T_At W_AtTry"
abbreviation T_AtImport :: token_type where "T_AtImport \<equiv> T_At W_AtImport"
abbreviation T_LeftParen :: token_type where "T_LeftParen \<equiv> T_Bracket B_LeftParen"
abbreviation T_RightParen :: token_type where "T_RightParen \<equiv> T_Bracket B_RightParen"
abbreviation T_LeftBracket :: token_type where "T_LeftBracket \<equiv> T_Bracket B_LeftBracket"
abbreviation T_RightBracket :: token_type where "T_RightBracket \<equiv> T_Bracket B_RightBracket"
abbreviation T_LeftBrace :: token_type where "T_LeftBrace \<equiv> T_Bracket B_LeftBrace"
abbreviation T_RightBrace :: token_type where "T_RightBrace \<equiv> T_Bracket B_RightBrace"
abbreviation T_Semicolon :: token_type where "T_Semicolon \<equiv> T_Bracket B_Semicolon"
abbreviation T_Comma :: token_type where "T_Comma \<equiv> T_Bracket B_Comma"

record token =
  tok_type :: token_type
  tok_position :: nat
  tok_line :: nat
  tok_column :: nat
  tok_start :: nat
  tok_end :: nat

definition new_token :: "token_type \<Rightarrow> nat \<Rightarrow> nat \<Rightarrow> nat \<Rightarrow> nat \<Rightarrow> nat \<Rightarrow> token" where
  "new_token t position line column byte_start byte_end =
     \<lparr>tok_type = t, tok_position = position, tok_line = line, tok_column = column,
      tok_start = byte_start, tok_end = byte_end\<rparr>"

section \<open>Identifiers\<close>

definition is_identifier_start :: "unicode_env \<Rightarrow> uchar \<Rightarrow> bool" where
  "is_identifier_start E c \<longleftrightarrow> c = ch_underscore \<or> env_xid_start E c"

definition is_identifier_continue :: "unicode_env \<Rightarrow> uchar \<Rightarrow> bool" where
  "is_identifier_continue E c \<longleftrightarrow> c = ch_underscore \<or> c = ch_question \<or> env_xid_continue E c"

definition is_identifier :: "unicode_env \<Rightarrow> ustr \<Rightarrow> bool" where
  "is_identifier E name \<longleftrightarrow>
     (case name of
        [] \<Rightarrow> False
      | c # cs \<Rightarrow> is_identifier_start E c \<and> list_all (is_identifier_continue E) cs)"

definition normalize_identifier :: "unicode_env \<Rightarrow> ustr \<Rightarrow> ustr" where
  "normalize_identifier E name = env_nfc E name"

definition reserved_identifier :: "ustr \<Rightarrow> token_type option" where
  "reserved_identifier s =
     (if s = lit ''true'' \<or> s = lit ''T'' then Some T_True
      else if s = lit ''false'' \<or> s = lit ''F'' then Some T_False
      else if s = lit ''inf'' then Some T_Inf
      else map_option T_Keyword (keyword_from_identifier s))"

definition from_identifier :: "ustr \<Rightarrow> token_type" where
  "from_identifier s = (case reserved_identifier s of Some t \<Rightarrow> t | None \<Rightarrow> T_Identifier s)"

definition is_reserved_identifier :: "ustr \<Rightarrow> bool" where
  "is_reserved_identifier s \<longleftrightarrow> reserved_identifier s \<noteq> None"

definition is_bindable_identifier :: "unicode_env \<Rightarrow> ustr \<Rightarrow> bool" where
  "is_bindable_identifier E name \<longleftrightarrow> is_identifier E name \<and> \<not> is_reserved_identifier name"

section \<open>Diagnostic names\<close>

definition quoted :: "string \<Rightarrow> string" where
  "quoted s = [CHR 0x27] @ s @ [CHR 0x27]"

fun arith_token_name :: "arith_token \<Rightarrow> string" where
  "arith_token_name A_Plus = quoted ''+''"
| "arith_token_name A_Minus = quoted ''-''"
| "arith_token_name A_Multiply = quoted ''*''"
| "arith_token_name A_Power = quoted ''^''"
| "arith_token_name A_PowerDot = quoted ''^.''"
| "arith_token_name A_Divide = quoted ''/''"
| "arith_token_name A_DivideDot = quoted ''/.''"
| "arith_token_name A_Modulo = quoted ''%''"
| "arith_token_name A_Matmul = quoted ''**''"
| "arith_token_name A_FloorDiv = quoted ''/%''"

fun aug_token_name :: "aug_token \<Rightarrow> string" where
  "aug_token_name G_PlusColon = quoted ''+:''"
| "aug_token_name G_MinusColon = quoted ''-:''"
| "aug_token_name G_MultiplyColon = quoted ''*:''"
| "aug_token_name G_DivideColon = quoted ''/:''"
| "aug_token_name G_DivideDotColon = quoted ''/.:''"
| "aug_token_name G_ModuloColon = quoted ''%:''"
| "aug_token_name G_PowerColon = quoted ''^:''"
| "aug_token_name G_PowerDotColon = quoted ''^.:''"
| "aug_token_name G_CommaColon = quoted '',:''"
| "aug_token_name G_FloorDivColon = quoted ''/%:''"

fun compare_token_name :: "compare_token \<Rightarrow> string" where
  "compare_token_name C_Equal = quoted ''=''"
| "compare_token_name C_EqualDot = quoted ''=.''"
| "compare_token_name C_NotEqual = quoted ''~''"
| "compare_token_name C_NotEqualDot = quoted ''~.''"
| "compare_token_name C_LessThan = quoted ''<''"
| "compare_token_name C_LessThanOrEqual = quoted ''<=''"
| "compare_token_name C_GreaterThan = quoted ''>''"
| "compare_token_name C_GreaterThanOrEqual = quoted ''>=''"

fun sigil_token_name :: "sigil_token \<Rightarrow> string" where
  "sigil_token_name S_Sharp = quoted ''#''"
| "sigil_token_name S_Pipe = quoted ''|''"
| "sigil_token_name S_PipeDot = quoted ''|.''"
| "sigil_token_name S_PipePipe = quoted ''||''"
| "sigil_token_name S_PipePipeDot = quoted ''||.''"
| "sigil_token_name S_Range = quoted ''..''"
| "sigil_token_name S_RangeInclusive = quoted ''..=''"
| "sigil_token_name S_Dollar = quoted ''$''"
| "sigil_token_name S_DollarDot = quoted ''$.''"
| "sigil_token_name S_DollarDollar = quoted ''$$''"

fun at_token_name :: "at_token \<Rightarrow> string" where
  "at_token_name W_AtBreak = quoted ''@b''"
| "at_token_name W_AtContinue = quoted ''@c''"
| "at_token_name W_AtReturn = quoted ''@r''"
| "at_token_name W_AtDebug = quoted ''@d''"
| "at_token_name W_AtPause = quoted ''@p''"
| "at_token_name W_AtSymbolic = quoted ''@s''"
| "at_token_name W_AtTry = quoted ''@t''"
| "at_token_name W_AtImport = quoted ''@i''"

fun bracket_token_name :: "bracket_token \<Rightarrow> string" where
  "bracket_token_name B_LeftParen = quoted ''(''"
| "bracket_token_name B_RightParen = quoted '')''"
| "bracket_token_name B_LeftBracket = quoted ''[''"
| "bracket_token_name B_RightBracket = quoted '']''"
| "bracket_token_name B_LeftBrace = quoted ''{''"
| "bracket_token_name B_RightBrace = quoted ''}''"
| "bracket_token_name B_Semicolon = quoted '';''"
| "bracket_token_name B_Comma = quoted '',''"

definition diagnostic_name :: "token_type \<Rightarrow> string" where
  "diagnostic_name t = (case t of
     T_Identifier _ \<Rightarrow> ''identifier''
   | T_Keyword k \<Rightarrow> (case k of Kw_WLoop \<Rightarrow> quoted ''W'' | Kw_NLoop \<Rightarrow> quoted ''N''
         | Kw_Block \<Rightarrow> quoted ''B'' | Kw_And \<Rightarrow> quoted ''A'' | Kw_Or \<Rightarrow> quoted ''O'')
   | T_Integer _ \<Rightarrow> ''int''
   | T_BigInteger _ \<Rightarrow> ''int''
   | T_Float _ \<Rightarrow> ''float''
   | T_Imaginary _ \<Rightarrow> ''imaginary number''
   | T_Character _ \<Rightarrow> ''char atom''
   | T_String _ \<Rightarrow> ''string''
   | T_Tag _ \<Rightarrow> ''tag''
   | T_Backtick \<Rightarrow> quoted [CHR 0x60]
   | T_Inf \<Rightarrow> quoted ''inf''
   | T_True \<Rightarrow> quoted ''T''
   | T_False \<Rightarrow> quoted ''F''
   | T_Arith a \<Rightarrow> arith_token_name a
   | T_Aug a \<Rightarrow> aug_token_name a
   | T_Colon \<Rightarrow> quoted '':''
   | T_Compare c \<Rightarrow> compare_token_name c
   | T_Sigil s \<Rightarrow> sigil_token_name s
   | T_At a \<Rightarrow> at_token_name a
   | T_AtDepth _ \<Rightarrow> ''depth modifier''
   | T_Bracket b \<Rightarrow> bracket_token_name b
   | T_Ellipsis \<Rightarrow> quoted ''...''
   | T_Apostrophe \<Rightarrow> quoted [CHR 0x5C, CHR 0x27]
   | T_Comment _ \<Rightarrow> ''comment''
   | T_Newline \<Rightarrow> ''newline''
   | T_Eof \<Rightarrow> ''end of input''
   | T_Bang \<Rightarrow> quoted ''!''
   | T_Error \<Rightarrow> ''invalid token''
   | T_FormatString _ _ _ \<Rightarrow> ''format string'')"

section \<open>Rebasing tokens of a fragment\<close>

text \<open>The characters after the last newline, which is what \<open>rsplit\<close> yields first.\<close>

definition last_line :: "ustr \<Rightarrow> ustr" where
  "last_line cs = rev (takeWhile (\<lambda>c. c \<noteq> ch_newline) (rev cs))"

definition newlines :: "ustr \<Rightarrow> nat" where
  "newlines cs = length (filter (\<lambda>c. c = ch_newline) cs)"

fun rebase_part :: "nat \<Rightarrow> fmt_part \<Rightarrow> fmt_part" where
  "rebase_part base (FmtText c s e) = FmtText c (s + base) (e + base)"
| "rebase_part base (FmtExpr c s e) = FmtExpr c (s + base) (e + base)"

definition rebase_type :: "nat \<Rightarrow> token_type \<Rightarrow> token_type" where
  "rebase_type base t =
     (case t of
        T_FormatString parts open_quote close_quote \<Rightarrow>
          T_FormatString (map (rebase_part base) parts) (open_quote + base) (close_quote + base)
      | _ \<Rightarrow> t)"

text \<open>\<open>None\<close> is the panic of slicing \<open>full_source\<close> off a character boundary.\<close>

definition rebase_token :: "token \<Rightarrow> ustr \<Rightarrow> nat \<Rightarrow> token option" where
  "rebase_token t full_source base =
     (case byte_split base full_source of
        None \<Rightarrow> None
      | Some (prefix, _) \<Rightarrow>
          Some (t\<lparr>tok_position := tok_position t + length prefix,
                  tok_line := tok_line t + newlines prefix,
                  tok_column := (if tok_line t = 1 then tok_column t + length (last_line prefix)
                                 else tok_column t),
                  tok_start := tok_start t + base,
                  tok_end := tok_end t + base,
                  tok_type := rebase_type base (tok_type t)\<rparr>))"

section \<open>What the position fields mean\<close>

text \<open>
  A token is well placed in a source when its span lies on character boundaries and its line,
  column and character position are those of the text before it: lines and columns count from
  one, the position counts characters up to and including the token's first one.
\<close>

definition well_placed :: "ustr \<Rightarrow> token \<Rightarrow> bool" where
  "well_placed src t =
     (case byte_split (tok_start t) src of
        None \<Rightarrow> False
      | Some (pre, rest) \<Rightarrow>
          tok_start t \<le> tok_end t \<and>
          byte_split (tok_end t - tok_start t) rest \<noteq> None \<and>
          tok_line t = 1 + newlines pre \<and>
          tok_column t = 1 + length (last_line pre) \<and>
          tok_position t = length pre + (if rest = [] then 0 else 1))"

definition is_gap :: "uchar \<Rightarrow> bool" where
  "is_gap c \<longleftrightarrow> is_whitespace c \<and> c \<noteq> ch_newline"

lemma well_placed_iff:
  "well_placed src t \<longleftrightarrow>
   (\<exists>pre body post. src = pre @ body @ post \<and> tok_start t = blen pre \<and>
      tok_end t = blen pre + blen body \<and> tok_line t = 1 + newlines pre \<and>
      tok_column t = 1 + length (last_line pre) \<and>
      tok_position t = length pre + (if body @ post = [] then 0 else 1))" (is "_ \<longleftrightarrow> ?R")
proof
  assume "well_placed src t"
  then obtain pre rest body post where
    "byte_split (tok_start t) src = Some (pre, rest)" "tok_start t \<le> tok_end t"
    "byte_split (tok_end t - tok_start t) rest = Some (body, post)"
    "tok_line t = 1 + newlines pre" "tok_column t = 1 + length (last_line pre)"
    "tok_position t = length pre + (if rest = [] then 0 else 1)"
    by (auto simp: well_placed_def split: option.splits)
  then show ?R
    by (intro exI [of _ pre] exI [of _ body] exI [of _ post]) (auto simp: byte_split_Some_iff)
next
  assume ?R
  then show "well_placed src t" by (auto simp: well_placed_def)
qed

lemma last_line_snoc [simp]:
  "last_line (cs @ [c]) = (if c = ch_newline then [] else last_line cs @ [c])"
  by (simp add: last_line_def)

lemma last_line_Nil [simp]: "last_line [] = []"
  by (simp add: last_line_def)

lemma newlines_simps [simp]:
  "newlines [] = 0" "newlines (c # cs) = (if c = ch_newline then 1 else 0) + newlines cs"
  "newlines (cs @ ds) = newlines cs + newlines ds"
  by (simp_all add: newlines_def)

lemma last_line_append:
  "last_line (xs @ ys) = (if newlines ys = 0 then last_line xs @ ys else last_line ys)"
  by (auto simp: last_line_def newlines_def takeWhile_append filter_empty_conv)

text \<open>Rebasing is coordinate-correct: a token that is well placed in a fragment and does not
  sit at the fragment's very end is well placed in any file that contains the fragment, after
  \<open>rebase_token\<close> with the fragment's byte offset; the call does not panic.\<close>

theorem rebase_token_well_placed:
  assumes "well_placed frag t" "tok_start t < blen frag"
  shows "\<exists>t'. rebase_token t (before @ frag @ after) (blen before) = Some t' \<and>
    well_placed (before @ frag @ after) t'"
proof -
  from assms(1) obtain pre body post where t: "frag = pre @ body @ post" "tok_start t = blen pre"
    "tok_end t = blen pre + blen body" "tok_line t = 1 + newlines pre"
    "tok_column t = 1 + length (last_line pre)"
    "tok_position t = length pre + (if body @ post = [] then 0 else 1)"
    unfolding well_placed_iff by blast
  have ne: "body @ post \<noteq> []" using assms(2) t(1,2) by auto
  have line: "newlines pre = 0 \<Longrightarrow> last_line pre = pre"
    using last_line_append [of "[]" pre] by (simp add: last_line_def)
  obtain t' where t': "rebase_token t (before @ frag @ after) (blen before) = Some t'"
    by (simp add: rebase_token_def)
  have "well_placed (before @ frag @ after) t'"
    unfolding well_placed_iff
  proof (intro exI conjI)
    show "before @ frag @ after = (before @ pre) @ body @ (post @ after)" using t(1) by simp
    show "tok_column t' = 1 + length (last_line (before @ pre))"
      using t' t line by (auto simp: rebase_token_def last_line_append)
    show "tok_position t' = length (before @ pre) + (if body @ post @ after = [] then 0 else 1)"
      using t' t(6) ne by (auto simp: rebase_token_def)
  qed (use t' t in \<open>auto simp: rebase_token_def\<close>)
  with t' show ?thesis by blast
qed

theorem rebase_token_well_placed_witness:
  "well_placed [97, 32, 98] (new_token (T_Identifier [98]) 3 1 3 2 3) \<and>
   (\<exists>t'. rebase_token (new_token (T_Identifier [98]) 3 1 3 2 3) ([233, 10, 99] @ [97, 32, 98] @ [10])
       (blen [233, 10, 99]) = Some t' \<and> well_placed ([233, 10, 99] @ [97, 32, 98] @ [10]) t')"
proof -
  have h: "well_placed [97, 32, 98] (new_token (T_Identifier [98]) 3 1 3 2 3)"
    "tok_start (new_token (T_Identifier [98]) 3 1 3 2 3) < blen [97, 32, 98]"
    by (simp_all add: well_placed_def new_token_def last_line_def newlines_def)
  show ?thesis using h(1) rebase_token_well_placed [OF h, of "[233, 10, 99]" "[10]"] by simp
qed

end
