(* ===== verification/Scanner.thy ===== *)
theory Scanner
  imports Token
begin

text \<open>
  The character cursor of the lexer (\<open>struct Lexer\<close> in \<open>wqpl/src/lex.rs\<close>): its state, the
  two-character lookahead window, \<open>advance\<close>, whitespace skipping and error construction.

  \<open>lex_ok\<close> says what the position fields mean: the source is the text read so far followed by
  the text to come, and byte offset, line, column and character position are functions of the
  text read. \<open>lexes s cs s'\<close> says that getting from \<open>s\<close> to \<open>s'\<close> consumes exactly \<open>cs\<close>;
  every reader of the lexer is shown to be of this form, so that token spans, progress and
  position facts follow from one relation.
\<close>

section \<open>State\<close>

record lexer =
  lx_input :: ustr
  lx_source :: ustr
  lx_position :: nat
  lx_line :: nat
  lx_column :: nat
  lx_current :: "uchar option"
  lx_la1 :: "uchar option"
  lx_la2 :: "uchar option"
  lx_byte_pos :: nat
  lx_line_start :: nat
  lx_global :: "ustr option"
  lx_base_offset :: nat
  lx_path :: "ustr option"
  lx_recovery :: bool

text \<open>
  Outcomes other than a value: an error value, a panic (slicing off a character boundary), or
  a loop that makes no progress and so would never end.
\<close>

datatype lex_fail = LexError wq_error | Panic | Diverge

definition advance :: "lexer \<Rightarrow> lexer" where
  "advance s =
     (let s1 = (case lx_current s of
                  None \<Rightarrow> s
                | Some prev \<Rightarrow>
                    (let s' = s\<lparr>lx_byte_pos := lx_byte_pos s + len_utf8 prev\<rparr>
                     in if prev = ch_newline
                        then s'\<lparr>lx_line := lx_line s' + 1, lx_column := 0,
                                lx_line_start := lx_byte_pos s'\<rparr>
                        else s'\<lparr>lx_column := lx_column s' + 1\<rparr>));
          s2 = s1\<lparr>lx_current := lx_la1 s1, lx_la1 := lx_la2 s1,
                  lx_la2 := (case lx_input s1 of [] \<Rightarrow> None | c # _ \<Rightarrow> Some c),
                  lx_input := tl (lx_input s1)\<rparr>
      in if lx_current s2 \<noteq> None then s2\<lparr>lx_position := lx_position s2 + 1\<rparr> else s2)"

definition new_lexer :: "ustr \<Rightarrow> lexer" where
  "new_lexer input =
     advance \<lparr>lx_input = drop 2 input, lx_source = input, lx_position = 0, lx_line = 1,
       lx_column = 0, lx_current = None,
       lx_la1 = (case input of [] \<Rightarrow> None | c # _ \<Rightarrow> Some c),
       lx_la2 = (case input of _ # c # _ \<Rightarrow> Some c | _ \<Rightarrow> None),
       lx_byte_pos = 0, lx_line_start = 0, lx_global = None, lx_base_offset = 0,
       lx_path = None, lx_recovery = False\<rparr>"

definition with_ctx :: "lexer \<Rightarrow> ustr \<Rightarrow> nat \<Rightarrow> lexer" where
  "with_ctx s global_source base = s\<lparr>lx_global := Some global_source, lx_base_offset := base\<rparr>"

definition set_source_path :: "lexer \<Rightarrow> ustr \<Rightarrow> lexer" where
  "set_source_path s path = s\<lparr>lx_path := Some path\<rparr>"

abbreviation (input) peek :: "lexer \<Rightarrow> uchar option" where "peek \<equiv> lx_la1"
abbreviation (input) peek2 :: "lexer \<Rightarrow> uchar option" where "peek2 \<equiv> lx_la2"

section \<open>Errors\<close>

definition non_empty_span_end :: "ustr \<Rightarrow> nat \<Rightarrow> nat \<Rightarrow> nat option" where
  "non_empty_span_end src byte_start byte_end =
     (let e = min byte_end (blen src)
      in if byte_start < e then Some e
         else map_option (\<lambda>r. case r of [] \<Rightarrow> e | c # _ \<Rightarrow> byte_start + len_utf8 c)
                (str_from src byte_start))"

definition build_error :: "lexer \<Rightarrow> wq_error_type \<Rightarrow> nat \<Rightarrow> nat \<Rightarrow> ustr \<Rightarrow> lex_fail" where
  "build_error s kind byte_start byte_end msg =
     (let src = lx_source s; bs = min byte_start (blen src)
      in case non_empty_span_end src bs byte_end of
           None \<Rightarrow> Panic
         | Some be \<Rightarrow>
             (let (text, abs_start, abs_end) =
                    (case lx_global s of
                       Some gs \<Rightarrow> (gs, bs + lx_base_offset s, be + lx_base_offset s)
                     | None \<Rightarrow> (src, bs, be));
                  path = (case lx_path s of Some p \<Rightarrow> p | None \<Rightarrow> lit ''?'')
              in LexError
                   (with_source_ctx text path
                     (with_span (Some (abs_start, abs_end))
                       (with_msg msg (with_src (lit ''lexer'') (new_error kind)))))))"

abbreviation syntax_error_span :: "lexer \<Rightarrow> nat \<Rightarrow> nat \<Rightarrow> ustr \<Rightarrow> lex_fail" where
  "syntax_error_span s byte_start byte_end msg \<equiv> build_error s W_Syntax byte_start byte_end msg"

abbreviation eof_error_span :: "lexer \<Rightarrow> nat \<Rightarrow> nat \<Rightarrow> ustr \<Rightarrow> lex_fail" where
  "eof_error_span s byte_start byte_end msg \<equiv> build_error s W_Eof byte_start byte_end msg"

section \<open>Characters still to be read\<close>

definition olen :: "uchar option \<Rightarrow> nat" where
  "olen c = (case c of None \<Rightarrow> 0 | Some _ \<Rightarrow> 1)"

definition lx_remaining :: "lexer \<Rightarrow> nat" where
  "lx_remaining s = olen (lx_current s) + olen (lx_la1 s) + olen (lx_la2 s) + length (lx_input s)"

lemma advance_simps [simp]:
  "lx_current (advance s) = lx_la1 s"
  "lx_la1 (advance s) = lx_la2 s"
  "lx_la2 (advance s) = (case lx_input s of [] \<Rightarrow> None | c # _ \<Rightarrow> Some c)"
  "lx_input (advance s) = tl (lx_input s)"
  "lx_source (advance s) = lx_source s"
  "lx_global (advance s) = lx_global s"
  "lx_base_offset (advance s) = lx_base_offset s"
  "lx_path (advance s) = lx_path s"
  "lx_recovery (advance s) = lx_recovery s"
  by (simp_all add: advance_def Let_def split: option.splits)

lemma lx_remaining_advance:
  "lx_remaining (advance s) = lx_remaining s - olen (lx_current s)"
  by (cases "lx_input s") (simp_all add: lx_remaining_def olen_def)

lemma lx_remaining_advance_le [simp]: "lx_remaining (advance s) \<le> lx_remaining s"
  by (simp add: lx_remaining_advance)

lemma lx_remaining_advance_less [simp, termination_simp]:
  "lx_current s = Some c \<Longrightarrow> lx_remaining (advance s) < lx_remaining s"
  by (simp add: lx_remaining_advance) (simp add: lx_remaining_def olen_def)

lemma lx_remaining_advance2 [termination_simp]:
  "lx_current s = Some c \<Longrightarrow> lx_remaining (advance (advance s)) < lx_remaining s"
  by (rule le_less_trans [OF lx_remaining_advance_le lx_remaining_advance_less])

section \<open>Reading while a test holds\<close>

text \<open>
  The loop \<open>while let Some(ch) = self.current_char { if p(ch) { push; advance } else { break } }\<close>,
  which several readers contain.
\<close>

function read_while :: "(uchar \<Rightarrow> bool) \<Rightarrow> ustr \<Rightarrow> lexer \<Rightarrow> ustr \<times> lexer" where
  "read_while p acc s =
     (case lx_current s of
        None \<Rightarrow> (acc, s)
      | Some ch \<Rightarrow> if p ch then read_while p (acc @ [ch]) (advance s) else (acc, s))"
  by pat_completeness auto
termination
  by (relation "measure (\<lambda>(p, acc, s). lx_remaining s)") auto

declare read_while.simps [simp del]

definition skip_whitespace :: "lexer \<Rightarrow> lexer" where
  "skip_whitespace s = snd (read_while (\<lambda>ch. is_whitespace ch \<and> ch \<noteq> ch_newline) [] s)"

section \<open>The meaning of the position fields\<close>

definition opt_list :: "uchar option \<Rightarrow> ustr" where
  "opt_list c = (case c of None \<Rightarrow> [] | Some x \<Rightarrow> [x])"

definition lx_rest :: "lexer \<Rightarrow> ustr" where
  "lx_rest s = opt_list (lx_current s) @ opt_list (lx_la1 s) @ opt_list (lx_la2 s) @ lx_input s"

definition lx_done :: "lexer \<Rightarrow> ustr" where
  "lx_done s = take (length (lx_source s) - length (lx_rest s)) (lx_source s)"

definition lex_ok :: "lexer \<Rightarrow> bool" where
  "lex_ok s \<longleftrightarrow>
     lx_source s = lx_done s @ lx_rest s \<and>
     (lx_current s = None \<longrightarrow> lx_la1 s = None) \<and>
     (lx_la1 s = None \<longrightarrow> lx_la2 s = None) \<and>
     (lx_la2 s = None \<longrightarrow> lx_input s = []) \<and>
     lx_byte_pos s = blen (lx_done s) \<and>
     lx_line s = 1 + newlines (lx_done s) \<and>
     lx_column s = length (last_line (lx_done s)) \<and>
     lx_line_start s + blen (last_line (lx_done s)) = lx_byte_pos s \<and>
     lx_position s = length (lx_done s) + olen (lx_current s)"

definition same_ctx :: "lexer \<Rightarrow> lexer \<Rightarrow> bool" where
  "same_ctx s t \<longleftrightarrow>
     lx_source t = lx_source s \<and> lx_global t = lx_global s \<and>
     lx_base_offset t = lx_base_offset s \<and> lx_path t = lx_path s \<and>
     lx_recovery t = lx_recovery s"

definition lexes :: "lexer \<Rightarrow> ustr \<Rightarrow> lexer \<Rightarrow> bool" where
  "lexes s cs t \<longleftrightarrow>
     lex_ok s \<and> lex_ok t \<and> same_ctx s t \<and> lx_rest s = cs @ lx_rest t \<and>
     lx_done t = lx_done s @ cs"


lemma olen_simps [simp]: "olen None = 0" "olen (Some c) = 1"
  by (simp_all add: olen_def)

lemma opt_list_simps [simp]: "opt_list None = []" "opt_list (Some c) = [c]"
  by (simp_all add: opt_list_def)

lemma same_ctx_refl [simp]: "same_ctx s s"
  by (simp add: same_ctx_def)

lemma same_ctx_trans: "same_ctx s t \<Longrightarrow> same_ctx t u \<Longrightarrow> same_ctx s u"
  by (simp add: same_ctx_def)

lemma same_ctx_advance [simp]: "same_ctx s (advance s)"
  by (simp add: same_ctx_def)

lemma lex_ok_source: "lex_ok s \<Longrightarrow> lx_source s = lx_done s @ lx_rest s"
  by (simp add: lex_ok_def)

lemma lex_ok_byte_pos: "lex_ok s \<Longrightarrow> lx_byte_pos s = blen (lx_done s)"
  by (simp add: lex_ok_def)

lemma lx_done_eq: "lx_source s = pre @ lx_rest s \<Longrightarrow> lx_done s = pre"
  by (simp add: lx_done_def)

lemma lex_ok_window:
  assumes "lex_ok s"
  shows "lx_rest s = (case lx_current s of None \<Rightarrow> [] | Some c \<Rightarrow> c # lx_rest (advance s))"
  using assms by (cases "lx_current s"; cases "lx_la1 s"; cases "lx_la2 s")
    (auto simp: lex_ok_def lx_rest_def split: list.splits)

lemma lex_ok_rest_advance: "lex_ok s \<Longrightarrow> lx_rest (advance s) = tl (lx_rest s)"
  by (cases "lx_current s"; cases "lx_la1 s"; cases "lx_la2 s")
    (auto simp: lex_ok_def lx_rest_def split: list.splits)

lemma lex_ok_current: "lex_ok s \<Longrightarrow> lx_current s = (case lx_rest s of [] \<Rightarrow> None | c # _ \<Rightarrow> Some c)"
  by (auto simp: lex_ok_window split: option.splits list.splits)

lemma lex_ok_la1: "lex_ok s \<Longrightarrow> lx_la1 s = (case lx_rest s of _ # c # _ \<Rightarrow> Some c | _ \<Rightarrow> None)"
  by (cases "lx_current s"; cases "lx_la1 s"; cases "lx_la2 s")
    (auto simp: lex_ok_def lx_rest_def split: list.splits)

lemma lex_ok_la2: "lex_ok s \<Longrightarrow> lx_la2 s = (case lx_rest s of _ # _ # c # _ \<Rightarrow> Some c | _ \<Rightarrow> None)"
  by (cases "lx_current s"; cases "lx_la1 s"; cases "lx_la2 s")
    (auto simp: lex_ok_def lx_rest_def split: list.splits)

lemma lx_remaining_rest: "lx_remaining s = length (lx_rest s)"
  by (simp add: lx_remaining_def lx_rest_def opt_list_def olen_def split: option.splits)

lemma advance_counters:
  "lx_byte_pos (advance s) = lx_byte_pos s + (case lx_current s of None \<Rightarrow> 0 | Some c \<Rightarrow> len_utf8 c)"
  "lx_line (advance s) = lx_line s + (if lx_current s = Some ch_newline then 1 else 0)"
  "lx_column (advance s) = (case lx_current s of None \<Rightarrow> lx_column s
     | Some c \<Rightarrow> if c = ch_newline then 0 else lx_column s + 1)"
  "lx_line_start (advance s) = (if lx_current s = Some ch_newline then lx_byte_pos s + 1 else lx_line_start s)"
  "lx_position (advance s) = lx_position s + olen (lx_la1 s)"
  by (simp_all add: advance_def Let_def olen_def split: option.splits)

lemma lex_ok_advance:
  assumes "lex_ok s"
  shows "lex_ok (advance s)"
    and "lx_done (advance s) = lx_done s @ opt_list (lx_current s)"
proof -
  have src: "lx_source (advance s) = (lx_done s @ opt_list (lx_current s)) @ lx_rest (advance s)"
    using lex_ok_window [OF assms] lex_ok_rest_advance [OF assms] assms
    by (simp add: lex_ok_def split: option.splits)
  show d: "lx_done (advance s) = lx_done s @ opt_list (lx_current s)"
    by (rule lx_done_eq [OF src])
  show "lex_ok (advance s)"
    using assms src unfolding lex_ok_def d advance_counters
    by (auto simp: olen_def split: option.splits list.splits)
qed

lemma lexes_okD: "lexes s cs t \<Longrightarrow> lex_ok s" "lexes s cs t \<Longrightarrow> lex_ok t"
  by (simp_all add: lexes_def)

lemma lexes_ctxD: "lexes s cs t \<Longrightarrow> same_ctx s t"
  by (simp add: lexes_def)

lemma lexes_restD: "lexes s cs t \<Longrightarrow> lx_rest s = cs @ lx_rest t"
  by (simp add: lexes_def)

lemma lexes_doneD: "lexes s cs t \<Longrightarrow> lx_done t = lx_done s @ cs"
  by (simp add: lexes_def)

lemma lexes_byte_posD: "lexes s cs t \<Longrightarrow> lx_byte_pos t = lx_byte_pos s + blen cs"
  by (simp add: lexes_def lex_ok_byte_pos)

lemma lexes_refl: "lex_ok s \<Longrightarrow> lexes s [] s"
  by (simp add: lexes_def)

lemma lexes_trans: "lexes s cs t \<Longrightarrow> lexes t ds u \<Longrightarrow> lexes s (cs @ ds) u"
  by (auto simp: lexes_def intro: same_ctx_trans)

lemma lexes_advance: "lex_ok s \<Longrightarrow> lexes s (opt_list (lx_current s)) (advance s)"
  using lex_ok_window [of s] lex_ok_rest_advance [of s]
  by (auto simp: lexes_def lex_ok_advance split: option.splits)

lemma lexes_advance_Some: "lex_ok s \<Longrightarrow> lx_current s = Some c \<Longrightarrow> lexes s [c] (advance s)"
  using lexes_advance [of s] by simp

lemma lexes_step: "lexes s cs t \<Longrightarrow> lx_current t = Some c \<Longrightarrow> lexes s (cs @ [c]) (advance t)"
  using lexes_trans lexes_advance_Some lexes_okD(2) by blast

definition reaches :: "lexer \<Rightarrow> lexer \<Rightarrow> bool" where
  "reaches s t \<longleftrightarrow> (\<exists>cs. lexes s cs t)"

definition moves :: "lexer \<Rightarrow> lexer \<Rightarrow> bool" where
  "moves s t \<longleftrightarrow> (\<exists>cs. cs \<noteq> [] \<and> lexes s cs t)"

lemma reaches_okD: "reaches s t \<Longrightarrow> lex_ok t" "reaches s t \<Longrightarrow> lex_ok s"
  by (auto simp: reaches_def dest: lexes_okD)

lemma reaches_refl [span_intros]: "lex_ok s \<Longrightarrow> reaches s s"
  by (auto simp: reaches_def intro: lexes_refl)

lemma reaches_trans: "reaches s t \<Longrightarrow> reaches t u \<Longrightarrow> reaches s u"
  by (auto simp: reaches_def intro: lexes_trans)

lemma reaches_advance [span_intros]: "reaches s t \<Longrightarrow> reaches s (advance t)"
  by (rule reaches_trans) (auto simp: reaches_def dest: lexes_okD intro: lexes_advance)

lemma moves_reaches: "moves s t \<Longrightarrow> reaches s t"
  by (auto simp: moves_def reaches_def)

lemma moves_trans: "moves s t \<Longrightarrow> reaches t u \<Longrightarrow> moves s u"
  by (auto simp: moves_def reaches_def) (metis append_is_Nil_conv lexes_trans)

lemma moves_trans': "reaches s t \<Longrightarrow> moves t u \<Longrightarrow> moves s u"
  by (auto simp: moves_def reaches_def) (metis append_is_Nil_conv lexes_trans)

lemma moves_advance [span_intros]: "moves s t \<Longrightarrow> moves s (advance t)"
  by (rule moves_trans [OF _ reaches_advance]) (auto dest: moves_reaches reaches_okD intro: reaches_refl)

lemma moves_first [span_intros]: "lex_ok s \<Longrightarrow> lx_current s = Some c \<Longrightarrow> moves s (advance s)"
  by (auto simp: moves_def dest: lexes_advance_Some)

lemma reaches_remaining: "reaches s t \<Longrightarrow> lx_remaining t \<le> lx_remaining s"
  by (auto simp: reaches_def lx_remaining_rest dest!: lexes_restD)

lemma moves_remaining: "moves s t \<Longrightarrow> lx_remaining t < lx_remaining s"
  by (auto simp: moves_def lx_remaining_rest dest!: lexes_restD)

lemma moves_byte_pos: "moves s t \<Longrightarrow> lx_byte_pos s < lx_byte_pos t"
  by (auto simp: moves_def dest!: lexes_byte_posD)

lemma reaches_ctx: "reaches s t \<Longrightarrow> same_ctx s t"
  by (auto simp: reaches_def dest: lexes_ctxD)

lemma new_lexer_ok: "lex_ok (new_lexer src)"
proof -
  have "lx_rest (new_lexer src) = src"
    by (cases src; cases "tl src") (auto simp: new_lexer_def lx_rest_def split: list.splits)
  then show ?thesis
    by (cases src; cases "tl src")
      (auto simp: lex_ok_def lx_done_def new_lexer_def advance_counters split: list.splits)
qed

lemma new_lexer_rest: "lx_rest (new_lexer src) = src" "lx_source (new_lexer src) = src"
  "lx_done (new_lexer src) = []" "lx_byte_pos (new_lexer src) = 0"
  "lx_global (new_lexer src) = None" "lx_recovery (new_lexer src) = False"
proof -
  show r: "lx_rest (new_lexer src) = src"
    by (cases src; cases "tl src") (auto simp: new_lexer_def lx_rest_def split: list.splits)
  show src: "lx_source (new_lexer src) = src" by (simp add: new_lexer_def)
  show "lx_done (new_lexer src) = []" by (simp add: lx_done_def r src)
qed (simp_all add: new_lexer_def advance_counters)

lemma read_while_lexes:
  assumes "lex_ok s" "read_while p acc s = (out, t)"
  shows "\<exists>cs. out = acc @ cs \<and> lexes s cs t \<and> cs = takeWhile p (lx_rest s) \<and>
    (case lx_current t of None \<Rightarrow> True | Some c \<Rightarrow> \<not> p c)"
  using assms
proof (induction p acc s rule: read_while.induct)
  case (1 p acc s)
  show ?case
  proof (cases "lx_current s")
    case None
    with 1 show ?thesis
      by (auto simp: read_while.simps [of p acc s] lexes_refl lex_ok_window)
  next
    case (Some c)
    show ?thesis
    proof (cases "p c")
      case True
      with 1 Some lex_ok_advance(1) [of s] obtain cs
        where "out = (acc @ [c]) @ cs" "lexes (advance s) cs t"
          "cs = takeWhile p (lx_rest (advance s))"
          "case lx_current t of None \<Rightarrow> True | Some c \<Rightarrow> \<not> p c"
        by (fastforce simp: read_while.simps [of p acc s])
      with True Some 1(2) lexes_trans [OF lexes_advance_Some [OF 1(2) Some], of cs t] show ?thesis
        by (auto simp: lex_ok_window [of s])
    next
      case False
      with 1 Some show ?thesis
        by (auto simp: read_while.simps [of p acc s] lexes_refl lex_ok_window)
    qed
  qed
qed

lemma read_while_reaches [span_intros]: "reaches s t \<Longrightarrow> reaches s (snd (read_while p acc t))"
  using read_while_lexes [of t p acc] reaches_okD [of s t]
  by (metis prod.collapse reaches_def reaches_trans)

lemma skip_whitespace_lexes:
  assumes "lex_ok s"
  obtains ws where "lexes s ws (skip_whitespace s)"
    "ws = takeWhile (\<lambda>ch. is_whitespace ch \<and> ch \<noteq> ch_newline) (lx_rest s)"
  using read_while_lexes [OF assms] unfolding skip_whitespace_def by (metis prod.collapse)

lemma skip_whitespace_reaches [span_intros]: "reaches s t \<Longrightarrow> reaches s (skip_whitespace t)"
  unfolding skip_whitespace_def by (rule read_while_reaches)

lemma build_error_not_Panic:
  assumes "lex_ok s" "byte_start < byte_end \<or> (\<exists>a b. lx_source s = a @ b \<and> blen a = byte_start)"
  shows "\<exists>e. build_error s k byte_start byte_end msg = LexError e"
proof -
  have "\<exists>be. non_empty_span_end (lx_source s) (min byte_start (blen (lx_source s))) byte_end = Some be"
  proof (cases "byte_start < blen (lx_source s)")
    case True
    with assms(2) show ?thesis
      by (auto simp: non_empty_span_end_def Let_def min_def)
  next
    case False
    then have "min byte_start (blen (lx_source s)) = blen (lx_source s)" by simp
    then show ?thesis
      using str_from_append [of "lx_source s" "[]"] by (auto simp: non_empty_span_end_def Let_def)
  qed
  then show ?thesis
    by (auto simp: build_error_def Let_def split: option.splits prod.splits)
qed

end
