(* ===== verification/Literals.thy ===== *)
theory Literals
  imports Scanner
begin

text \<open>
  The literal readers of \<open>wqpl/src/lex.rs\<close>: numbers, identifiers and tags, quoted, raw and
  format strings, and both kinds of comment. Each takes the cursor and returns its result with
  the cursor behind what it read; a failing reader also returns the cursor where it stopped,
  which error recovery continues from. The lemmas show that every reader consumes input
  (\<open>moves\<close>) or at least never moves back (\<open>reaches\<close>), and never panics.
\<close>

section \<open>The environment\<close>

text \<open>
  Floating-point conversions and the big-integer parser belong to the standard library and an
  external crate. The lexer stores what they return; nothing below depends on which values
  they return.
\<close>

record lex_env =
  le_unicode :: unicode_env
  le_parse_f64 :: "ustr \<Rightarrow> f64 option"
  le_i64_to_f64 :: "i64 \<Rightarrow> f64"
  le_parse_bigint :: "nat \<Rightarrow> ustr \<Rightarrow> int option"
  le_bigint_to_f64 :: "int \<Rightarrow> f64 option"

type_synonym 'a lex_result = "(lex_fail + 'a) \<times> lexer"

section \<open>Numbers\<close>

definition is_digit_for_base :: "nat \<Rightarrow> uchar \<Rightarrow> bool" where
  "is_digit_for_base base c =
     (if base = 2 then c = ch_0 \<or> c = ch_1
      else if base = 8 then is_ascii_digit c \<and> c \<le> ch_7
      else if base = 10 then is_ascii_digit c
      else if base = 16 then is_ascii_hexdigit c
      else False)"

definition opt_sat :: "(uchar \<Rightarrow> bool) \<Rightarrow> uchar option \<Rightarrow> bool" where
  "opt_sat p c = (case c of None \<Rightarrow> False | Some x \<Rightarrow> p x)"

text \<open>The base announced by \<open>0b\<close>, \<open>0o\<close> or \<open>0x\<close>.\<close>

definition prefix_base :: "lexer \<Rightarrow> nat option" where
  "prefix_base s =
     (if lx_current s = Some ch_0 then
        (case peek s of
           None \<Rightarrow> None
         | Some c \<Rightarrow>
             if c = ch_b \<or> c = ch_B then Some 2
             else if c = ch_o \<or> c = ch_O then Some 8
             else if c = ch_x \<or> c = ch_X then Some 16
             else None)
      else None)"

text \<open>Digits after a prefix: the digits read, and whether there was one.\<close>

function prefixed_digits :: "nat \<Rightarrow> ustr \<Rightarrow> bool \<Rightarrow> bool \<Rightarrow> lexer \<Rightarrow> (ustr \<times> bool) \<times> lexer" where
  "prefixed_digits base raw_lit prev_was_digit saw_digit s =
     (case lx_current s of
        None \<Rightarrow> ((raw_lit, saw_digit), s)
      | Some ch \<Rightarrow>
          if is_digit_for_base base ch
          then prefixed_digits base (raw_lit @ [ch]) True True (advance s)
          else if ch = ch_underscore then
            (if prev_was_digit \<and> opt_sat (is_digit_for_base base) (peek s)
             then prefixed_digits base raw_lit False saw_digit (advance s)
             else ((raw_lit, saw_digit), s))
          else ((raw_lit, saw_digit), s))"
  by pat_completeness auto
termination
  by (relation "measure (\<lambda>(base, raw, p, d, s). lx_remaining s)") auto

declare prefixed_digits.simps [simp del]

definition finish_imaginary :: "f64 \<Rightarrow> lexer \<Rightarrow> token_type \<times> lexer" where
  "finish_imaginary value s =
     (if lx_current s = Some ch_i then (T_Imaginary value, advance s) else (T_Float value, s))"

text \<open>The end of an integer literal: a 64-bit integer, or a big one, each with its \<open>i\<close>.\<close>

definition finish_integer :: "lex_env \<Rightarrow> nat \<Rightarrow> ustr \<Rightarrow> nat \<Rightarrow> lexer \<Rightarrow> token_type lex_result" where
  "finish_integer L base literal start_byte s =
     (case i64_from_str_radix base literal of
        Some n \<Rightarrow>
          if lx_current s = Some ch_i then (Inr (T_Imaginary (le_i64_to_f64 L n)), advance s)
          else (Inr (T_Integer n), s)
      | None \<Rightarrow>
          (case le_parse_bigint L base literal of
             Some big \<Rightarrow>
               if lx_current s = Some ch_i then
                 (case le_bigint_to_f64 L big of
                    None \<Rightarrow> (Inl (syntax_error_span s start_byte (lx_byte_pos s)
                                (lit ''imaginary literal overflow'')), s)
                  | Some value \<Rightarrow>
                      if f64_is_finite value then (Inr (T_Imaginary value), advance s)
                      else (Inl (syntax_error_span s start_byte (lx_byte_pos s)
                                (lit ''imaginary literal overflow'')), s))
               else (Inr (T_BigInteger big), s)
           | None \<Rightarrow> (Inl (syntax_error_span s start_byte (lx_byte_pos s)
                         (lit ''invalid int literal'')), s)))"

definition strip_underscores :: "ustr \<Rightarrow> ustr" where
  "strip_underscores = filter (\<lambda>c. c \<noteq> ch_underscore)"

definition read_prefixed_number :: "lex_env \<Rightarrow> nat \<Rightarrow> nat \<Rightarrow> lexer \<Rightarrow> token_type lex_result" where
  "read_prefixed_number L base start_byte s =
     (case prefixed_digits base [] False False (advance (advance s)) of
        ((raw_lit, saw_digit), s1) \<Rightarrow>
          if \<not> saw_digit
          then (Inl (syntax_error_span s1 start_byte (lx_byte_pos s1)
                  (lit ''expected digits after base prefix'')), s1)
          else finish_integer L base (strip_underscores raw_lit) start_byte s1)"

text \<open>Decimal digits with fraction and exponent: the text read, and whether it is a float.\<close>

function decimal_digits :: "ustr \<Rightarrow> bool \<Rightarrow> bool \<Rightarrow> lexer \<Rightarrow> (ustr \<times> bool) \<times> lexer" where
  "decimal_digits raw_lit is_float has_exp s =
     (case lx_current s of
        None \<Rightarrow> ((raw_lit, is_float), s)
      | Some ch \<Rightarrow>
          if is_ascii_digit ch
          then decimal_digits (raw_lit @ [ch]) is_float has_exp (advance s)
          else if ch = ch_underscore then
            (if raw_lit \<noteq> [] \<and> is_ascii_digit (last raw_lit) \<and> opt_sat is_ascii_digit (peek s)
             then decimal_digits raw_lit is_float has_exp (advance s)
             else ((raw_lit, is_float), s))
          else if ch = ch_dot \<and> \<not> is_float \<and> \<not> has_exp then
            (if opt_sat is_ascii_digit (peek s)
             then decimal_digits (raw_lit @ [ch]) True has_exp (advance s)
             else ((raw_lit, is_float), s))
          else if (ch = ch_e \<or> ch = ch_E) \<and> \<not> has_exp then
            (let s1 = advance s
             in if lx_current s1 = Some ch_plus
                then decimal_digits (raw_lit @ [ch, ch_plus]) True True (advance s1)
                else if lx_current s1 = Some ch_minus
                then decimal_digits (raw_lit @ [ch, ch_minus]) True True (advance s1)
                else decimal_digits (raw_lit @ [ch]) True True s1)
          else ((raw_lit, is_float), s))"
  by pat_completeness auto
termination
  by (relation "measure (\<lambda>(raw, f, e, s). lx_remaining s)")
    (auto simp: lx_remaining_advance2)

declare decimal_digits.simps [simp del]

definition read_decimal_number :: "lex_env \<Rightarrow> nat \<Rightarrow> lexer \<Rightarrow> token_type lex_result" where
  "read_decimal_number L start_byte s =
     (case decimal_digits [] False False s of
        ((raw_lit, is_float), s1) \<Rightarrow>
          (let literal = strip_underscores raw_lit
           in if is_float then
                (case le_parse_f64 L literal of
                   Some n \<Rightarrow> (case finish_imaginary n s1 of (t, s2) \<Rightarrow> (Inr t, s2))
                 | None \<Rightarrow> (Inl (syntax_error_span s1 start_byte (lx_byte_pos s1)
                               (lit ''invalid float literal'')), s1))
              else finish_integer L 10 literal start_byte s1))"

definition read_number :: "lex_env \<Rightarrow> nat \<Rightarrow> lexer \<Rightarrow> token_type lex_result" where
  "read_number L start_byte s =
     (case prefix_base s of
        Some base \<Rightarrow> read_prefixed_number L base start_byte s
      | None \<Rightarrow> read_decimal_number L start_byte s)"

section \<open>Identifiers and tags\<close>

definition read_identifier :: "lex_env \<Rightarrow> lexer \<Rightarrow> ustr \<times> lexer" where
  "read_identifier L s =
     (case read_while (is_identifier_continue (le_unicode L)) [] s of
        (identifier, s1) \<Rightarrow> (normalize_identifier (le_unicode L) identifier, s1))"

definition read_tag :: "lex_env \<Rightarrow> nat \<Rightarrow> lexer \<Rightarrow> token_type lex_result" where
  "read_tag L start_byte s =
     (let s1 = advance s
      in case lx_current s1 of
           Some ch \<Rightarrow>
             if is_identifier_start (le_unicode L) ch
             then (case read_identifier L s1 of (name, s2) \<Rightarrow> (Inr (T_Tag name), s2))
             else if is_identifier_continue (le_unicode L) ch then
               (let s2 = snd (read_while (is_identifier_continue (le_unicode L)) [] (advance s1))
                in (Inl (syntax_error_span s2 start_byte (lx_byte_pos s2)
                      (lit ''tag name must start with a Unicode identifier character or '' @
                       [ch_apostrophe, ch_underscore, ch_apostrophe])), s2))
             else (Inr T_Backtick, s1)
         | None \<Rightarrow> (Inr T_Backtick, s1))"

section \<open>Quoted strings\<close>

definition unescape_message :: "unescape_error_kind \<Rightarrow> ustr" where
  "unescape_message k =
     (case k of
        InvalidHexEscape \<Rightarrow> lit ''invalid hex escape''
      | InvalidUnicodeEscape \<Rightarrow> lit ''invalid unicode escape''
      | InvalidUnicodeScalar \<Rightarrow> lit ''invalid unicode escape''
      | InvalidUnicodeNameEscape \<Rightarrow> lit ''invalid Unicode name escape''
      | UnknownUnicodeName \<Rightarrow> lit ''unknown Unicode name'')"

definition decode_string_content :: "lex_env \<Rightarrow> lexer \<Rightarrow> ustr \<Rightarrow> nat \<Rightarrow> lex_fail + ustr" where
  "decode_string_content L s raw content_start_byte =
     (case unescape_string_inner (le_unicode L) raw of
        Inr content \<Rightarrow> Inr content
      | Inl (UnescapeError kind index) \<Rightarrow>
          (let err_byte_start = content_start_byte + index
           in Inl (syntax_error_span s err_byte_start (err_byte_start + 1)
                     (unescape_message kind))))"

text \<open>Opening quotes: how many there are.\<close>

function count_quotes :: "nat \<Rightarrow> lexer \<Rightarrow> nat \<times> lexer" where
  "count_quotes n s =
     (if lx_current s = Some ch_dquote then count_quotes (n + 1) (advance s) else (n, s))"
  by pat_completeness auto
termination
  by (relation "measure (\<lambda>(n, s). lx_remaining s)") auto

declare count_quotes.simps [simp del]

text \<open>Content of a single-quoted string: raw text, and whether the quote was closed.\<close>

function single_quoted :: "ustr \<Rightarrow> lexer \<Rightarrow> (ustr \<times> bool) \<times> lexer" where
  "single_quoted raw s =
     (case lx_current s of
        None \<Rightarrow> ((raw, False), s)
      | Some ch \<Rightarrow>
          if ch = ch_backslash then
            (let s1 = advance s
             in case lx_current s1 of
                  Some next \<Rightarrow> single_quoted (raw @ [ch_backslash, next]) (advance s1)
                | None \<Rightarrow> ((raw @ [ch_backslash], False), s1))
          else if ch = ch_dquote then ((raw, True), advance s)
          else single_quoted (raw @ [ch]) (advance s))"
  by pat_completeness auto
termination
  by (relation "measure (\<lambda>(raw, s). lx_remaining s)") (auto simp: lx_remaining_advance2)

declare single_quoted.simps [simp del]

text \<open>Content behind \<open>quote_count\<close> quotes, up to as many consecutive quotes.\<close>

function multi_quoted :: "nat \<Rightarrow> ustr \<Rightarrow> nat \<Rightarrow> lexer \<Rightarrow> (ustr \<times> nat \<times> bool) \<times> lexer" where
  "multi_quoted quote_count raw consecutive s =
     (case lx_current s of
        None \<Rightarrow> ((raw, consecutive, False), s)
      | Some ch \<Rightarrow>
          if ch = ch_dquote then
            (if consecutive + 1 = quote_count then ((raw, consecutive + 1, True), advance s)
             else multi_quoted quote_count raw (consecutive + 1) (advance s))
          else
            (let raw1 = raw @ replicate consecutive ch_dquote
             in if ch = ch_backslash then
                  (let s1 = advance s
                   in case lx_current s1 of
                        Some next \<Rightarrow>
                          multi_quoted quote_count (raw1 @ [ch_backslash, next]) 0 (advance s1)
                      | None \<Rightarrow> ((raw1 @ [ch_backslash], 0, False), s1))
                else multi_quoted quote_count (raw1 @ [ch]) 0 (advance s)))"
  by pat_completeness auto
termination
  by (relation "measure (\<lambda>(q, raw, c, s). lx_remaining s)") (auto simp: lx_remaining_advance2)

declare multi_quoted.simps [simp del]

definition string_unterminated :: "nat \<Rightarrow> lexer \<Rightarrow> lex_fail" where
  "string_unterminated start_byte s =
     eof_error_span s start_byte (lx_byte_pos s) (lit ''string is not properly terminated'')"

definition read_string_literal :: "lex_env \<Rightarrow> nat \<Rightarrow> lexer \<Rightarrow> token_type lex_result" where
  "read_string_literal L start_byte s =
     (case count_quotes 0 s of
        (quote_count, s1) \<Rightarrow>
          if quote_count = 2 then (Inr (T_String []), s1)
          else if quote_count = 1 then
            (case single_quoted [] s1 of
               ((raw, closed), s2) \<Rightarrow>
                 if \<not> closed then
                   (if lx_recovery s2 then (Inr (T_String raw), s2)
                    else (Inl (string_unterminated start_byte s2), s2))
                 else
                   (case decode_string_content L s2 raw (lx_byte_pos s1) of
                      Inl e \<Rightarrow> (Inl e, s2)
                    | Inr content \<Rightarrow>
                        (case content of
                           [value] \<Rightarrow> (Inr (T_Character value), s2)
                         | _ \<Rightarrow> (Inr (T_String content), s2))))
          else if quote_count \<ge> 3 then
            (case multi_quoted quote_count [] 0 s1 of
               ((raw, consecutive, closed), s2) \<Rightarrow>
                 if \<not> closed then
                   (if lx_recovery s2
                    then (Inr (T_String (raw @ replicate consecutive ch_dquote)), s2)
                    else (Inl (string_unterminated start_byte s2), s2))
                 else
                   (case decode_string_content L s2 raw (lx_byte_pos s1) of
                      Inl e \<Rightarrow> (Inl e, s2)
                    | Inr content \<Rightarrow> (Inr (T_String content), s2)))
          else (Inl Panic, s1))"

section \<open>Comments and raw strings\<close>

function inline_comment :: "ustr \<Rightarrow> nat \<Rightarrow> lexer \<Rightarrow> (ustr \<times> nat) \<times> lexer" where
  "inline_comment comment depth s =
     (if depth = 0 then ((comment, depth), s)
      else case lx_current s of
             None \<Rightarrow> ((comment, depth), s)
           | Some ch \<Rightarrow>
               if ch = ch_slash \<and> peek s = Some ch_star
               then inline_comment (comment @ [ch_slash, ch_star]) (depth + 1) (advance (advance s))
               else if ch = ch_star \<and> peek s = Some ch_slash
               then inline_comment
                      (if depth - 1 > 0 then comment @ [ch_star, ch_slash] else comment)
                      (depth - 1) (advance (advance s))
               else inline_comment (comment @ [ch]) depth (advance s))"
  by pat_completeness auto
termination
  by (relation "measure (\<lambda>(c, d, s). lx_remaining s)") (auto simp: lx_remaining_advance2)

declare inline_comment.simps [simp del]

definition read_inline_comment :: "nat \<Rightarrow> lexer \<Rightarrow> token_type lex_result" where
  "read_inline_comment start_byte s =
     (case inline_comment [] 1 s of
        ((comment, depth), s1) \<Rightarrow>
          if depth \<noteq> 0 then
            (if lx_recovery s1 then (Inr (T_Comment comment), s1)
             else (Inl (eof_error_span s1 start_byte (lx_byte_pos s1)
                     (lit ''expected closing '' @
                      [ch_apostrophe, ch_star, ch_slash, ch_apostrophe])), s1))
          else (Inr (T_Comment comment), s1))"

definition read_line_comment :: "lexer \<Rightarrow> token_type \<times> lexer" where
  "read_line_comment s =
     (case read_while (\<lambda>ch. ch \<noteq> ch_newline) [] s of (comment, s1) \<Rightarrow> (T_Comment comment, s1))"

definition read_raw_string :: "nat \<Rightarrow> lexer \<Rightarrow> token_type lex_result" where
  "read_raw_string start_byte s0 =
     (let s = skip_whitespace s0
      in if lx_current s \<noteq> Some ch_dquote
         then (Inl (syntax_error_span s start_byte (lx_byte_pos s)
                 (lit ''expected '' @ [ch_apostrophe, ch_dquote, ch_apostrophe] @
                  lit '' after raw string prefix'')), s)
         else
           (case read_while (\<lambda>ch. ch \<noteq> ch_dquote) [] (advance s) of
              (raw, s1) \<Rightarrow>
                if lx_current s1 = Some ch_dquote then (Inr (T_String raw), advance s1)
                else if lx_recovery s1 then (Inr (T_String raw), s1)
                else (Inl (string_unterminated start_byte s1), s1)))"

section \<open>Format strings\<close>

function advance_until :: "nat \<Rightarrow> lexer \<Rightarrow> lexer" where
  "advance_until end_byte s =
     (if lx_byte_pos s < end_byte \<and> lx_current s \<noteq> None
      then advance_until end_byte (advance s) else s)"
  by pat_completeness auto
termination
  by (relation "measure (\<lambda>(e, s). lx_remaining s)") auto

declare advance_until.simps [simp del]

definition advance_string_escape :: "lex_env \<Rightarrow> lexer \<Rightarrow> unit lex_result" where
  "advance_string_escape L s =
     (case str_from (lx_source s) (lx_byte_pos s) of
        None \<Rightarrow> (Inl Panic, s)
      | Some remaining \<Rightarrow>
          (let len = (case valid_escape_sequence_len (le_unicode L) remaining of
                        Some n \<Rightarrow> n
                      | None \<Rightarrow> blen (take 2 remaining))
           in (Inr (), advance_until (lx_byte_pos s + len) s)))"

text \<open>
  A braced expression behind its opening brace: nesting depth at the end, zero when closed.
  Braces inside string literals do not count.
\<close>

function format_expr :: "nat \<Rightarrow> bool \<Rightarrow> lexer \<Rightarrow> nat \<times> lexer" where
  "format_expr depth in_str s =
     (case lx_current s of
        None \<Rightarrow> (depth, s)
      | Some c \<Rightarrow>
          if in_str then
            (if c = ch_backslash then
               (let s1 = advance s
                in if lx_current s1 \<noteq> None then format_expr depth True (advance s1)
                   else format_expr depth True s1)
             else if c = ch_dquote then format_expr depth False (advance s)
             else format_expr depth True (advance s))
          else if c = ch_dquote then format_expr depth True (advance s)
          else if c = ch_lbrace then format_expr (depth + 1) False (advance s)
          else if c = ch_rbrace then
            (if depth - 1 = 0 then (0, advance s) else format_expr (depth - 1) False (advance s))
          else format_expr depth False (advance s))"
  by pat_completeness auto
termination
  by (relation "measure (\<lambda>(d, i, s). lx_remaining s)") (auto simp: lx_remaining_advance2)

declare format_expr.simps [simp del]

lemma format_expr_remaining: "format_expr d i s = (d', t) \<Longrightarrow> lx_remaining t \<le> lx_remaining s"
proof (induction d i s rule: format_expr.induct)
  case (1 d i s)
  have "lx_remaining (advance (advance s)) \<le> lx_remaining s"
    using lx_remaining_advance_le order_trans by blast
  with 1 show ?case
    by (subst (asm) format_expr.simps)
      (auto simp: Let_def split: option.splits if_splits
        intro: order_trans [OF _ lx_remaining_advance_le] order_trans)
qed

lemma format_expr_less:
  "lx_current s = Some c \<Longrightarrow> (d', t) = format_expr d i (advance s) \<Longrightarrow>
   lx_remaining t < lx_remaining s"
  by (rule le_less_trans [OF format_expr_remaining [OF sym] lx_remaining_advance_less])

text \<open>Ending a text part: the slice from its start, which must decode.\<close>

definition flush_text ::
  "lex_env \<Rightarrow> lexer \<Rightarrow> fmt_part list \<Rightarrow> nat option \<Rightarrow> nat \<Rightarrow> lex_fail + fmt_part list" where
  "flush_text L s parts text_start text_end =
     (case text_start of
        None \<Rightarrow> Inr parts
      | Some start \<Rightarrow>
          (case str_slice (lx_source s) start text_end of
             None \<Rightarrow> Inl Panic
           | Some content \<Rightarrow>
               (case decode_string_content L s content start of
                  Inl e \<Rightarrow> Inl e
                | Inr _ \<Rightarrow> Inr (parts @ [FmtText content start text_end]))))"

definition or_start :: "nat option \<Rightarrow> lexer \<Rightarrow> nat option" where
  "or_start text_start s =
     (case text_start of None \<Rightarrow> Some (lx_byte_pos s) | Some _ \<Rightarrow> text_start)"

text \<open>
  The main loop. An escape that consumed nothing would repeat forever; that outcome is
  \<open>Diverge\<close>.
\<close>

function format_loop ::
  "lex_env \<Rightarrow> nat \<Rightarrow> nat \<Rightarrow> fmt_part list \<Rightarrow> nat option \<Rightarrow> lexer \<Rightarrow> token_type lex_result" where
  "format_loop L start_byte open_quote parts text_start s =
     (case lx_current s of
        None \<Rightarrow>
          (if lx_recovery s then
             (case flush_text L s parts text_start (lx_byte_pos s) of
                Inl e \<Rightarrow> (Inl e, s)
              | Inr parts' \<Rightarrow> (Inr (T_FormatString parts' open_quote (lx_byte_pos s)), s))
           else (Inl (eof_error_span s start_byte (lx_byte_pos s)
                   (lit ''format string is not properly terminated'')), s))
      | Some ch \<Rightarrow>
          if ch = ch_dquote then
            (let s1 = advance s; close_quote = lx_byte_pos s1 - 1
             in case flush_text L s1 parts text_start close_quote of
                  Inl e \<Rightarrow> (Inl e, s1)
                | Inr parts' \<Rightarrow> (Inr (T_FormatString parts' open_quote close_quote), s1))
          else if ch = ch_backslash then
            (case advance_string_escape L s of
               (Inl e, s1) \<Rightarrow> (Inl e, s1)
             | (Inr _, s1) \<Rightarrow>
                 if lx_remaining s1 < lx_remaining s
                 then format_loop L start_byte open_quote parts (or_start text_start s) s1
                 else (Inl Diverge, s1))
          else if ch = ch_lbrace then
            (if peek s = Some ch_lbrace
             then format_loop L start_byte open_quote parts (or_start text_start s)
                    (advance (advance s))
             else
               (case flush_text L s parts text_start (lx_byte_pos s) of
                  Inl e \<Rightarrow> (Inl e, s)
                | Inr parts' \<Rightarrow>
                    (case format_expr 1 False (advance s) of
                       (depth, s1) \<Rightarrow>
                         if depth \<noteq> 0
                         then (Inl (eof_error_span s1 (lx_byte_pos s) (lx_byte_pos s1)
                                 (lit ''unterminated expression in format string'')), s1)
                         else
                           (case str_slice (lx_source s1) (lx_byte_pos s) (lx_byte_pos s1) of
                              None \<Rightarrow> (Inl Panic, s1)
                            | Some src \<Rightarrow>
                                format_loop L start_byte open_quote
                                  (parts' @ [FmtExpr src (lx_byte_pos s) (lx_byte_pos s1)])
                                  None s1))))
          else if ch = ch_rbrace then
            (if peek s = Some ch_rbrace
             then format_loop L start_byte open_quote parts (or_start text_start s)
                    (advance (advance s))
             else (Inl (syntax_error_span s (lx_byte_pos s) (lx_byte_pos s + len_utf8 ch)
                     (lit ''unmatched '' @ [ch_apostrophe, ch_rbrace, ch_apostrophe] @
                      lit '' in format string'')), s))
          else format_loop L start_byte open_quote parts (or_start text_start s) (advance s))"
  by pat_completeness auto
termination
  by (relation "measure (\<lambda>(L, b, q, parts, t, s). lx_remaining s)")
    (auto simp: lx_remaining_advance2 intro: format_expr_less)

declare format_loop.simps [simp del]

definition read_format_string :: "lex_env \<Rightarrow> nat \<Rightarrow> lexer \<Rightarrow> token_type lex_result" where
  "read_format_string L start_byte s =
     format_loop L start_byte (lx_byte_pos s) [] None (advance s)"

end
