(* ===== verification/Literal_Facts.thy ===== *)
theory Literal_Facts
  imports Literals
begin

text \<open>
  Facts about the literal readers: each one only moves forward, none panics or loops forever
  when started on a well-formed cursor, and a literal that begins as its reader expects
  consumes at least one character.
\<close>

section \<open>Forward movement of the reading loops\<close>

lemma prefixed_digits_reaches [span_intros]:
  "reaches s0 s \<Longrightarrow> reaches s0 (snd (prefixed_digits base raw p d s))"
proof (induction base raw p d s rule: prefixed_digits.induct)
  case (1 base raw p d s)
  note adv = "1.prems" reaches_advance [OF "1.prems"] reaches_advance [OF reaches_advance [OF "1.prems"]]
  show ?case
    using "1.IH" adv
    by (subst prefixed_digits.simps) (simp add: Let_def split: option.split)
qed

lemma decimal_digits_reaches [span_intros]:
  "reaches s0 s \<Longrightarrow> reaches s0 (snd (decimal_digits raw f e s))"
proof (induction raw f e s rule: decimal_digits.induct)
  case (1 raw f e s)
  note adv = "1.prems" reaches_advance [OF "1.prems"] reaches_advance [OF reaches_advance [OF "1.prems"]]
  show ?case
    using "1.IH" adv
    by (subst decimal_digits.simps) (simp add: Let_def split: option.split)
qed

lemma count_quotes_reaches [span_intros]:
  "reaches s0 s \<Longrightarrow> reaches s0 (snd (count_quotes n s))"
proof (induction n s rule: count_quotes.induct)
  case (1 n s)
  note adv = "1.prems" reaches_advance [OF "1.prems"] reaches_advance [OF reaches_advance [OF "1.prems"]]
  show ?case
    using "1.IH" adv
    by (subst count_quotes.simps) (simp add: Let_def split: option.split)
qed

lemma single_quoted_reaches [span_intros]:
  "reaches s0 s \<Longrightarrow> reaches s0 (snd (single_quoted raw s))"
proof (induction raw s rule: single_quoted.induct)
  case (1 raw s)
  note adv = "1.prems" reaches_advance [OF "1.prems"] reaches_advance [OF reaches_advance [OF "1.prems"]]
  show ?case
    using "1.IH" adv
    by (subst single_quoted.simps) (simp add: Let_def split: option.split)
qed

lemma multi_quoted_reaches [span_intros]:
  "reaches s0 s \<Longrightarrow> reaches s0 (snd (multi_quoted q raw c s))"
proof (induction q raw c s rule: multi_quoted.induct)
  case (1 q raw c s)
  note adv = "1.prems" reaches_advance [OF "1.prems"] reaches_advance [OF reaches_advance [OF "1.prems"]]
  show ?case
    using "1.IH" adv
    by (subst multi_quoted.simps) (simp add: Let_def split: option.split)
qed

lemma inline_comment_reaches [span_intros]:
  "reaches s0 s \<Longrightarrow> reaches s0 (snd (inline_comment c d s))"
proof (induction c d s rule: inline_comment.induct)
  case (1 c d s)
  note adv = "1.prems" reaches_advance [OF "1.prems"] reaches_advance [OF reaches_advance [OF "1.prems"]]
  show ?case
    using "1.IH" adv
    by (subst inline_comment.simps) (cases "Suc 0 < d"; auto split: option.split)
qed

lemma advance_until_reaches [span_intros]:
  "reaches s0 s \<Longrightarrow> reaches s0 (advance_until e s)"
proof (induction e s rule: advance_until.induct)
  case (1 e s)
  note adv = "1.prems" reaches_advance [OF "1.prems"] reaches_advance [OF reaches_advance [OF "1.prems"]]
  show ?case
    using "1.IH" adv
    by (subst advance_until.simps) (simp add: Let_def split: option.split)
qed

lemma format_expr_reaches [span_intros]:
  "reaches s0 s \<Longrightarrow> reaches s0 (snd (format_expr d i s))"
proof (induction d i s rule: format_expr.induct)
  case (1 d i s)
  note adv = "1.prems" reaches_advance [OF "1.prems"] reaches_advance [OF reaches_advance [OF "1.prems"]]
  show ?case
    using "1.IH" adv
    by (subst format_expr.simps) (simp add: Let_def split: option.split)
qed

section \<open>Safety: no panic, no endless loop\<close>

definition boundary :: "lexer \<Rightarrow> nat \<Rightarrow> bool" where
  "boundary s n \<longleftrightarrow> (\<exists>a b. lx_done s = a @ b \<and> blen a = n)"

definition lex_safe :: "lexer \<Rightarrow> 'a lex_result \<Rightarrow> bool" where
  "lex_safe s r \<longleftrightarrow> reaches s (snd r) \<and> fst r \<noteq> Inl Panic \<and> fst r \<noteq> Inl Diverge"

lemma lex_safe_Inr [simp]: "lex_safe s (Inr x, t) \<longleftrightarrow> reaches s t"
  by (simp add: lex_safe_def)

lemma lex_safe_LexError [simp]: "lex_safe s (Inl (LexError e), t) \<longleftrightarrow> reaches s t"
  by (simp add: lex_safe_def)

lemma lex_safe_reaches: "lex_safe s r \<Longrightarrow> reaches s (snd r)"
  by (simp add: lex_safe_def)

lemma lex_safe_trans: "reaches s t \<Longrightarrow> lex_safe t r \<Longrightarrow> lex_safe s r"
  by (auto simp: lex_safe_def intro: reaches_trans)

lemma boundary_here [span_intros]: "lex_ok s \<Longrightarrow> boundary s (lx_byte_pos s)"
  by (auto simp: boundary_def lex_ok_byte_pos)

lemma boundary_reaches: "boundary s n \<Longrightarrow> reaches s t \<Longrightarrow> boundary t n"
  unfolding boundary_def reaches_def by (metis append.assoc lexes_doneD)

lemma boundary_start: "reaches s t \<Longrightarrow> boundary t (lx_byte_pos s)"
  by (rule boundary_reaches [OF boundary_here]) (auto dest: reaches_okD)

lemma build_error_LexError:
  assumes "lex_ok s" "boundary s a \<or> a < b"
  obtains e where "build_error s k a b msg = LexError e"
proof -
  have "a < b \<or> (\<exists>x y. lx_source s = x @ y \<and> blen x = a)"
    using assms lex_ok_source [OF assms(1)] unfolding boundary_def by (metis append.assoc)
  with build_error_not_Panic [OF assms(1)] that show ?thesis by blast
qed

lemma build_error_ex: "lex_ok s \<Longrightarrow> a < b \<Longrightarrow> \<exists>e. build_error s k a b msg = LexError e"
  using build_error_LexError by metis

lemma lex_safe_error [span_intros]:
  assumes "reaches s0 s" "boundary s a \<or> a < b"
  shows "lex_safe s0 (Inl (build_error s k a b msg), s)"
  using assms build_error_LexError [of s a b k msg] by (metis lex_safe_LexError reaches_okD(1))

lemma finish_integer_safe:
  assumes "reaches s0 s" "boundary s start"
  shows "lex_safe s0 (finish_integer L base literal start s)"
  using assms
  by (auto simp: finish_integer_def split: option.splits intro!: lex_safe_error reaches_advance)

lemma read_number_safe:
  assumes "reaches s0 s" "boundary s start"
  shows "lex_safe s0 (read_number L start s)"
proof -
  have b: "reaches s0 t \<Longrightarrow> boundary t start" if "reaches s t" for t
    using that assms(2) boundary_reaches by blast
  have dec: "lex_safe s0 (read_decimal_number L start s)"
  proof (cases "decimal_digits [] False False s")
    case (Pair r s1)
    then have s1: "reaches s s1" "reaches s0 s1"
      using decimal_digits_reaches [of s s "[]" False False] decimal_digits_reaches [OF assms(1), of "[]" False False]
        assms(1) reaches_okD reaches_refl by (metis snd_conv)+
    show ?thesis
      using s1 b [OF s1(1) s1(2)] Pair
      by (auto simp: read_decimal_number_def Let_def finish_imaginary_def split: prod.splits option.splits
          intro!: finish_integer_safe lex_safe_error reaches_advance)
  qed
  have pre: "lex_safe s0 (read_prefixed_number L base start s)" for base
  proof (cases "prefixed_digits base [] False False (advance (advance s))")
    case (Pair r s1)
    have "reaches s (advance (advance s))"
      using assms(1) by (auto intro: reaches_advance reaches_refl dest: reaches_okD)
    then have s1: "reaches s s1" "reaches s0 s1"
      using prefixed_digits_reaches [of s "advance (advance s)" base "[]" False False] Pair
        reaches_trans [OF assms(1)] by auto
    show ?thesis
      using s1 b [OF s1(1) s1(2)] Pair
      by (auto simp: read_prefixed_number_def split: prod.splits
          intro!: finish_integer_safe lex_safe_error)
  qed
  show ?thesis
    by (auto simp: read_number_def dec pre split: option.splits)
qed

lemma read_identifier_reaches [span_intros]:
  "reaches s0 s \<Longrightarrow> reaches s0 (snd (read_identifier L s))"
  using read_while_reaches [of s0 s "is_identifier_continue (le_unicode L)" "[]"]
  by (auto simp: read_identifier_def split: prod.splits)

lemma read_tag_safe:
  assumes "reaches s0 s" "boundary s start"
  shows "lex_safe s0 (read_tag L start s)"
proof -
  let ?p = "is_identifier_continue (le_unicode L)"
  let ?s2 = "snd (read_while ?p [] (advance (advance s)))"
  have r: "reaches s0 (advance s)" "reaches s0 (snd (read_identifier L (advance s)))" "reaches s0 ?s2"
    by (intro read_identifier_reaches read_while_reaches reaches_advance assms)+
  have "reaches s ?s2"
    by (intro read_while_reaches reaches_advance reaches_refl reaches_okD(1) [OF assms(1)])
  then have "boundary ?s2 start" using assms(2) boundary_reaches by blast
  with r show ?thesis
    by (auto simp: read_tag_def Let_def split: option.splits prod.splits intro!: lex_safe_error)
qed

lemma decode_string_content_error:
  assumes "lex_ok s" "decode_string_content L s raw start = Inl e"
  shows "\<exists>w. e = LexError w"
  using assms(2)
  by (auto simp: decode_string_content_def Let_def split: sum.splits unescape_error.splits
      intro!: build_error_ex [OF assms(1)])

lemma decode_error_safe:
  "decode_string_content L t raw start = Inl e \<Longrightarrow> reaches s0 t \<Longrightarrow> lex_safe s0 (Inl e, t)"
  using decode_string_content_error reaches_okD(1) by (metis lex_safe_LexError)

lemma string_unterminated_safe:
  "reaches s0 s \<Longrightarrow> boundary s start \<Longrightarrow> lex_safe s0 (Inl (string_unterminated start s), s)"
  by (auto simp: string_unterminated_def intro: lex_safe_error)

lemma count_quotes_ge: "n \<le> fst (count_quotes n s)"
proof (induction n s rule: count_quotes.induct)
  case (1 n s)
  then show ?case by (subst count_quotes.simps) (auto intro: Suc_leD)
qed

lemma read_string_literal_safe:
  assumes "reaches s0 s" "boundary s start" "lx_current s = Some ch_dquote"
  shows "lex_safe s0 (read_string_literal L start s)"
proof (cases "count_quotes 0 s")
  case (Pair n s1)
  have "count_quotes 0 s = count_quotes 1 (advance s)"
    using assms(3) by (subst count_quotes.simps) simp
  with count_quotes_ge [of 1 "advance s"] Pair have n: "0 < n" by simp
  obtain raw2 cl2 s2 where s2: "single_quoted [] s1 = ((raw2, cl2), s2)" by (metis surj_pair)
  obtain raw3 c3 cl3 s3 where s3: "multi_quoted n [] 0 s1 = ((raw3, c3, cl3), s3)" by (metis surj_pair)
  have "reaches s s1"
    using count_quotes_reaches [of s s 0] reaches_refl [OF reaches_okD(1) [OF assms(1)]] Pair by simp
  with s2 s3 have "reaches s s2" "reaches s s3"
    using single_quoted_reaches [of s s1 "[]"] multi_quoted_reaches [of s s1 n "[]" 0] by simp_all
  then have t: "reaches s0 s1" "reaches s0 s2" "reaches s0 s3" "boundary s2 start" "boundary s3 start"
    using \<open>reaches s s1\<close> assms boundary_reaches reaches_trans by blast+
  consider "n = 1" | "n = 2" | "3 \<le> n" using n by linarith
  then show ?thesis
  proof cases
    case 1
    then show ?thesis
      using t by (auto simp: read_string_literal_def Pair s2 string_unterminated_safe
          split: sum.split list.split intro: decode_error_safe)
  next
    case 2
    then show ?thesis
      using t by (simp add: read_string_literal_def Pair)
  next
    case 3
    then show ?thesis
      using t by (auto simp: read_string_literal_def Pair s3 string_unterminated_safe
          split: sum.split intro: decode_error_safe)
  qed
qed

lemma read_inline_comment_safe:
  assumes "reaches s0 s" "boundary s start"
  shows "lex_safe s0 (read_inline_comment start s)"
proof -
  obtain c d s1 where p: "inline_comment [] 1 s = ((c, d), s1)" by (metis surj_pair)
  then have "reaches s s1" "reaches s0 s1"
    using inline_comment_reaches [of s s "[]" 1] inline_comment_reaches [OF assms(1), of "[]" 1]
      reaches_refl [OF reaches_okD(1) [OF assms(1)]] by simp_all
  then show ?thesis
    using boundary_reaches [OF assms(2)]
    by (simp add: read_inline_comment_def p [unfolded One_nat_def] lex_safe_error)
qed

lemma read_line_comment_reaches [span_intros]:
  "reaches s0 s \<Longrightarrow> reaches s0 (snd (read_line_comment s))"
  using read_while_reaches [of s0 s "\<lambda>ch. ch \<noteq> ch_newline" "[]"]
  by (auto simp: read_line_comment_def split: prod.splits)

lemma read_raw_string_safe:
  assumes "reaches s0 s" "boundary s start"
  shows "lex_safe s0 (read_raw_string start s)"
proof -
  let ?w = "skip_whitespace s"
  obtain raw s1 where s1: "read_while (\<lambda>ch. ch \<noteq> ch_dquote) [] (advance ?w) = (raw, s1)" by force
  have ok: "lex_ok s" by (rule reaches_okD(1) [OF assms(1)])
  have "reaches s ?w" by (intro skip_whitespace_reaches reaches_refl ok)
  moreover have "reaches s s1"
    using read_while_reaches [of s "advance ?w" "\<lambda>ch. ch \<noteq> ch_dquote" "[]"] s1
      reaches_advance [OF \<open>reaches s ?w\<close>] by simp
  ultimately have t: "reaches s0 ?w" "reaches s0 s1" "boundary ?w start" "boundary s1 start"
    using assms boundary_reaches reaches_trans by blast+
  then show ?thesis
    by (auto simp: read_raw_string_def Let_def s1
        intro!: lex_safe_error string_unterminated_safe reaches_advance)
qed

section \<open>Safety of format strings\<close>

lemma slice_between:
  assumes "lex_ok s" "boundary s a" "boundary s b" "a \<le> b"
  obtains c where "str_slice (lx_source s) a b = Some c"
proof -
  from assms obtain x y u v where x: "lx_done s = x @ y" "blen x = a" and u: "lx_done s = u @ v" "blen u = b"
    by (auto simp: boundary_def)
  then obtain k where "u = x @ k"
    using assms(4) by (auto simp: append_eq_append_conv2)
  with u have "lx_source s = x @ k @ (v @ lx_rest s)" "b = blen x + blen k"
    using lex_ok_source [OF assms(1)] by simp_all
  with x that show thesis by (metis str_slice_append)
qed

lemma valid_escape_sequence_len_pos: "valid_escape_sequence_len E cs = Some n \<Longrightarrow> 0 < n"
  by (auto simp: valid_escape_sequence_len_def split: list.splits if_splits option.splits)

lemma advance_string_escape_moves:
  assumes "lex_ok s" "lx_current s = Some c"
  obtains t where "advance_string_escape L s = (Inr (), t)" "moves s t"
proof -
  have src: "str_from (lx_source s) (lx_byte_pos s) = Some (lx_rest s)"
    using lex_ok_source [OF assms(1)] lex_ok_byte_pos [OF assms(1)] by simp
  have ne: "lx_rest s \<noteq> []" using assms lex_ok_window by auto
  define n where "n = (case valid_escape_sequence_len (le_unicode L) (lx_rest s) of
     Some n \<Rightarrow> n | None \<Rightarrow> blen (take 2 (lx_rest s)))"
  have n: "0 < n" "advance_string_escape L s = (Inr (), advance_until (lx_byte_pos s + n) s)"
    using ne valid_escape_sequence_len_pos
    by (auto simp: n_def advance_string_escape_def src Let_def split: option.splits)
  have "advance_until (lx_byte_pos s + n) s = advance_until (lx_byte_pos s + n) (advance s)"
    using n assms by (subst advance_until.simps) simp
  moreover have "moves s (advance_until (lx_byte_pos s + n) (advance s))"
    by (rule moves_trans [OF moves_first [OF assms]])
      (intro advance_until_reaches reaches_refl lex_ok_advance assms)
  ultimately show thesis using n that by simp
qed

definition start_ok :: "lexer \<Rightarrow> nat option \<Rightarrow> bool" where
  "start_ok s ts \<longleftrightarrow> (case ts of None \<Rightarrow> True | Some a \<Rightarrow> boundary s a)"

lemma start_ok_simps [simp]: "start_ok s None" "start_ok s (Some a) \<longleftrightarrow> boundary s a"
  by (simp_all add: start_ok_def)

lemma start_ok_reaches: "start_ok s ts \<Longrightarrow> reaches s t \<Longrightarrow> start_ok t ts"
  by (auto simp: start_ok_def intro: boundary_reaches split: option.splits)

lemma boundary_le: "lex_ok s \<Longrightarrow> boundary s a \<Longrightarrow> a \<le> lx_byte_pos s"
  by (auto simp: boundary_def lex_ok_byte_pos)

lemma or_start_ok: "lex_ok s \<Longrightarrow> start_ok s ts \<Longrightarrow> start_ok s (or_start ts s)"
  by (auto simp: or_start_def boundary_here split: option.splits)

lemma flush_text_safe:
  assumes "lex_ok s" "start_ok s ts" "boundary s e" "case ts of None \<Rightarrow> True | Some a \<Rightarrow> a \<le> e"
  shows "flush_text L s parts ts e \<noteq> Inl Panic \<and> flush_text L s parts ts e \<noteq> Inl Diverge"
proof (cases ts)
  case (Some a)
  with assms slice_between [of s a e] obtain c where "str_slice (lx_source s) a e = Some c" by auto
  with Some assms(1) show ?thesis
    by (auto simp: flush_text_def split: sum.splits dest!: decode_string_content_error [OF assms(1)])
qed (simp add: flush_text_def)

lemma flush_error_safe:
  "flush_text L t parts ts e = Inl x \<Longrightarrow> reaches s0 t \<Longrightarrow> start_ok t ts \<Longrightarrow> boundary t e \<Longrightarrow>
   (\<And>a. ts = Some a \<Longrightarrow> a \<le> e) \<Longrightarrow> lex_safe s0 (Inl x, t)"
  using flush_text_safe [of t ts e L parts] reaches_okD(1) [of s0 t]
  by (auto simp: lex_safe_def split: option.splits)

lemma start_ok_le: "lex_ok s \<Longrightarrow> start_ok s ts \<Longrightarrow> ts = Some a \<Longrightarrow> a \<le> lx_byte_pos s"
  by (auto intro: boundary_le)

lemma format_loop_safe:
  "reaches s0 s \<Longrightarrow> start_ok s ts \<Longrightarrow> boundary s start \<Longrightarrow>
   lex_safe s0 (format_loop L start q parts ts s)"
proof (induction L start q parts ts s rule: format_loop.induct)
  case (1 L start q parts ts s)
  have ok: "lex_ok s" by (rule reaches_okD(1) [OF "1.prems"(1)])
  have fwd: "reaches s0 t" "start_ok t ts" "boundary t start" "start_ok t (or_start ts s)"
    if "reaches s t" for t
    using that "1.prems" boundary_reaches start_ok_reaches reaches_trans or_start_ok [OF ok] by blast+
  have adv: "reaches s (advance s)" "reaches s (advance (advance s))"
    by (intro reaches_advance reaches_refl ok)+
  show ?case
  proof (cases "lx_current s")
    case None
    then show ?thesis
      using "1.prems" boundary_here [OF ok] start_ok_le [OF ok]
      by (subst format_loop.simps)
        (auto split: sum.split intro!: lex_safe_error intro: flush_error_safe)
  next
    case (Some ch)
    note simp = format_loop.simps [of L start q parts ts s, unfolded Some, simplified]
    consider "ch = ch_dquote" | "ch = ch_backslash" | "ch = ch_lbrace" "lx_la1 s = Some ch_lbrace"
      | "ch = ch_lbrace" "lx_la1 s \<noteq> Some ch_lbrace" | "ch = ch_rbrace" "lx_la1 s = Some ch_rbrace"
      | "ch = ch_rbrace" "lx_la1 s \<noteq> Some ch_rbrace"
      | "ch \<notin> {ch_dquote, ch_backslash, ch_lbrace, ch_rbrace}" by blast
    then show ?thesis
    proof cases
      case 1
      have close: "lx_byte_pos (advance s) - 1 = lx_byte_pos s"
        using 1 Some by (simp add: advance_counters)
      have "boundary (advance s) (lx_byte_pos s)"
        by (rule boundary_reaches [OF boundary_here [OF ok] adv(1)])
      then show ?thesis
        using 1 fwd [OF adv(1)] start_ok_le [OF ok "1.prems"(2)] unfolding simp Let_def
        by (auto simp: close [simplified] split: sum.split intro: flush_error_safe)
    next
      case 2
      obtain t where t: "advance_string_escape L s = (Inr (), t)" "moves s t"
        by (rule advance_string_escape_moves [OF ok Some])
      show ?thesis
        using 2 t moves_remaining [OF t(2)] fwd [OF moves_reaches [OF t(2)]] "1.IH"(1) [OF Some]
        unfolding simp by simp
    next
      case 3
      then show ?thesis
        using "1.IH"(2) [OF Some] fwd [OF adv(2)] unfolding simp by simp
    next
      case 4
      obtain depth t where t: "format_expr 1 False (advance s) = (depth, t)" by (metis surj_pair)
      have st: "reaches s t"
        using format_expr_reaches [OF adv(1), of 1 False] t by simp
      have bs: "boundary t (lx_byte_pos s)" "boundary t (lx_byte_pos t)" "lx_byte_pos s \<le> lx_byte_pos t"
        using boundary_start [OF st] boundary_here [OF reaches_okD(1) [OF st]]
          boundary_le [OF reaches_okD(1) [OF st]] by auto
      obtain src where src: "str_slice (lx_source t) (lx_byte_pos s) (lx_byte_pos t) = Some src"
        by (rule slice_between [OF reaches_okD(1) [OF st] bs])
      show ?thesis
      proof (cases "flush_text L s parts ts (lx_byte_pos s)")
        case (Inl e)
        then show ?thesis
          using 4 "1.prems" boundary_here [OF ok] start_ok_le [OF ok "1.prems"(2)] unfolding simp
          by (auto intro: flush_error_safe)
      next
        case (Inr parts')
        show ?thesis
        proof (cases "depth = 0")
          case True
          then show ?thesis
            using 4 Inr t src fwd [OF st] "1.IH"(3) [OF Some _ _ _ _ Inr t [symmetric] _ src]
            unfolding simp by (simp add: t [unfolded One_nat_def])
        next
          case False
          then show ?thesis
            using 4 Inr fwd(1) [OF st] bs unfolding simp
            by (auto simp: t [unfolded One_nat_def] intro: lex_safe_error)
        qed
      qed
    next
      case 5
      then show ?thesis
        using "1.IH"(4) [OF Some] fwd [OF adv(2)] unfolding simp by simp
    next
      case 6
      then show ?thesis
        using "1.prems" boundary_here [OF ok] unfolding simp by (auto intro: lex_safe_error)
    next
      case 7
      then show ?thesis
        using "1.IH"(5) [OF Some] fwd [OF adv(1)] unfolding simp by simp
    qed
  qed
qed

lemma read_format_string_safe:
  assumes "reaches s0 s" "boundary s start"
  shows "lex_safe s0 (read_format_string L start s)"
  unfolding read_format_string_def
  using assms boundary_reaches [OF assms(2) reaches_advance [OF reaches_refl]] reaches_okD
  by (intro format_loop_safe) (auto intro: reaches_advance)

section \<open>Progress\<close>

lemma finish_integer_reaches:
  "reaches s0 s \<Longrightarrow> reaches s0 (snd (finish_integer L base literal start s))"
  by (auto simp: finish_integer_def split: option.splits intro: reaches_advance)

lemma finish_integer_moves:
  "moves s0 s \<Longrightarrow> moves s0 (snd (finish_integer L base literal start s))"
  using finish_integer_reaches [OF reaches_refl] moves_reaches reaches_okD(1) moves_trans by metis

lemma read_number_moves:
  assumes "lex_ok s" "lx_current s = Some c" "is_ascii_digit c"
  shows "moves s (snd (read_number L start s))"
proof (cases "prefix_base s")
  case None
  obtain raw f s1 where d: "decimal_digits [c] False False (advance s) = ((raw, f), s1)"
    by (metis surj_pair)
  have eq: "decimal_digits [] False False s = ((raw, f), s1)"
    using assms d by (subst decimal_digits.simps) simp
  have "moves s s1"
    using moves_trans [OF moves_first [OF assms(1,2)]]
      decimal_digits_reaches [OF reaches_refl, of "advance s" "[c]" False False]
      lex_ok_advance(1) [OF assms(1)] d by fastforce
  then show ?thesis
    using None eq
    by (auto simp: read_number_def read_decimal_number_def Let_def finish_imaginary_def
        split: option.split prod.split intro: finish_integer_moves moves_advance)
next
  case (Some base)
  obtain raw f s1 where d: "prefixed_digits base [] False False (advance (advance s)) = ((raw, f), s1)"
    by (metis surj_pair)
  have m: "moves s (advance (advance s))"
    by (intro moves_advance moves_first [OF assms(1,2)])
  then have "moves s s1"
    using moves_trans [OF m]
      prefixed_digits_reaches [OF reaches_refl, of "advance (advance s)" base "[]" False False]
      lex_ok_advance(1) assms(1) d by fastforce
  then show ?thesis
    using Some d
    by (auto simp: read_number_def read_prefixed_number_def
        split: option.split prod.split intro: finish_integer_moves)
qed

lemma read_identifier_moves:
  assumes "lex_ok s" "lx_current s = Some c" "is_identifier_continue (le_unicode L) c"
  shows "moves s (snd (read_identifier L s))"
proof -
  have "read_while (is_identifier_continue (le_unicode L)) [] s
      = read_while (is_identifier_continue (le_unicode L)) [c] (advance s)"
    using assms by (subst read_while.simps) simp
  moreover have "moves s (snd (read_while (is_identifier_continue (le_unicode L)) [c] (advance s)))"
    by (rule moves_trans [OF moves_first [OF assms(1,2)] read_while_reaches])
      (intro reaches_refl lex_ok_advance assms)
  ultimately show ?thesis by (auto simp: read_identifier_def split: prod.split)
qed

lemma read_tag_moves:
  assumes "lex_ok s" "lx_current s = Some c"
  shows "moves s (snd (read_tag L start s))"
proof -
  have m: "moves s (advance s)" by (rule moves_first [OF assms])
  obtain name t where id: "read_identifier L (advance s) = (name, t)" by (metis surj_pair)
  have "reaches (advance s) (snd (read_tag L start s))"
    using lex_ok_advance(1) [OF assms(1)] read_identifier_reaches [of "advance s" "advance s" L] id
      read_while_reaches [of "advance s" "advance (advance s)" "is_identifier_continue (le_unicode L)" "[]"]
    by (auto simp: read_tag_def Let_def split: option.split prod.split
        intro: reaches_refl reaches_advance)
  with m show ?thesis by (rule moves_trans)
qed

lemma read_string_literal_moves:
  assumes "lex_ok s" "lx_current s = Some ch_dquote"
  shows "moves s (snd (read_string_literal L start s))"
proof -
  obtain n s1 where c: "count_quotes 1 (advance s) = (n, s1)" by (metis surj_pair)
  have eq: "count_quotes 0 s = (n, s1)"
    using assms(2) c by (subst count_quotes.simps) simp
  have "reaches (advance s) s1"
    using count_quotes_reaches [of "advance s" "advance s" 1] lex_ok_advance(1) [OF assms(1)] c
    by (simp add: reaches_refl)
  then have m: "moves s s1" by (rule moves_trans [OF moves_first [OF assms]])
  have ok: "lex_ok s1" using m moves_reaches reaches_okD(1) by blast
  have "reaches s1 (snd (read_string_literal L start s))"
    using single_quoted_reaches [OF reaches_refl [OF ok], of "[]"]
      multi_quoted_reaches [OF reaches_refl [OF ok], of n "[]" 0] reaches_refl [OF ok]
    by (auto simp: read_string_literal_def eq split: prod.split sum.split list.split)
  with m show ?thesis by (rule moves_trans)
qed

end
