(* ===== verification/Lexer.thy ===== *)
theory Lexer
  imports Literal_Facts
begin

text \<open>
  The token level of \<open>wqpl/src/lex.rs\<close>: the operator tables of \<open>next_token\<close>, the \<open>@\<close>-forms,
  \<open>next_token\<close> itself, \<open>tokenize\<close> and \<open>tokenize_recovery\<close>. Each group of match arms of
  \<open>next_token\<close> is one definition; \<open>lex_token\<close> is the match, \<open>next_token\<close> the loop around it.
\<close>

section \<open>Operator arms\<close>

definition adv2 :: "lexer \<Rightarrow> lexer" where "adv2 s = advance (advance s)"
definition adv3 :: "lexer \<Rightarrow> lexer" where "adv3 s = advance (advance (advance s))"

definition lex_star :: "lexer \<Rightarrow> token_type \<times> lexer" where
  "lex_star s =
     (if peek s = Some ch_star then (T_Matmul, adv2 s)
      else if peek s = Some ch_colon then (T_MultiplyColon, adv2 s)
      else (T_Multiply, advance s))"

text \<open>The arms of the slash that are not comments.\<close>

definition lex_slash :: "lexer \<Rightarrow> token_type \<times> lexer" where
  "lex_slash s =
     (if peek s = Some ch_percent then
        (if peek2 s = Some ch_colon then (T_FloorDivColon, adv3 s) else (T_FloorDiv, adv2 s))
      else if peek s = Some ch_dot then
        (if peek2 s = Some ch_colon then (T_DivideDotColon, adv3 s) else (T_DivideDot, adv2 s))
      else if peek s = Some ch_colon then (T_DivideColon, adv2 s)
      else (T_Divide, advance s))"

definition lex_percent :: "lexer \<Rightarrow> token_type \<times> lexer" where
  "lex_percent s =
     (if peek s = Some ch_colon then (T_ModuloColon, adv2 s) else (T_Modulo, advance s))"

definition lex_dollar :: "lexer \<Rightarrow> token_type \<times> lexer" where
  "lex_dollar s =
     (if peek s = Some ch_dollar then (T_DollarDollar, adv2 s)
      else if peek s = Some ch_dot then (T_DollarDot, adv2 s)
      else (T_Dollar, advance s))"

definition lex_less :: "lexer \<Rightarrow> token_type \<times> lexer" where
  "lex_less s =
     (if peek s = Some ch_equal then (T_LessThanOrEqual, adv2 s) else (T_LessThan, advance s))"

definition lex_greater :: "lexer \<Rightarrow> token_type \<times> lexer" where
  "lex_greater s =
     (if peek s = Some ch_equal then (T_GreaterThanOrEqual, adv2 s) else (T_GreaterThan, advance s))"

definition lex_plus :: "lexer \<Rightarrow> token_type \<times> lexer" where
  "lex_plus s =
     (if peek s = Some ch_colon then (T_PlusColon, adv2 s) else (T_Plus, advance s))"

definition lex_minus :: "lexer \<Rightarrow> token_type \<times> lexer" where
  "lex_minus s =
     (if peek s = Some ch_colon then (T_MinusColon, adv2 s) else (T_Minus, advance s))"

definition lex_caret :: "lexer \<Rightarrow> token_type \<times> lexer" where
  "lex_caret s =
     (if peek s = Some ch_dot then
        (if peek2 s = Some ch_colon then (T_PowerDotColon, adv3 s) else (T_PowerDot, adv2 s))
      else if peek s = Some ch_colon then (T_PowerColon, adv2 s)
      else (T_Power, advance s))"

definition lex_equal :: "lexer \<Rightarrow> token_type \<times> lexer" where
  "lex_equal s =
     (if peek s = Some ch_dot then (T_EqualDot, adv2 s) else (T_Equal, advance s))"

definition lex_tilde :: "lexer \<Rightarrow> token_type \<times> lexer" where
  "lex_tilde s =
     (if peek s = Some ch_dot then (T_NotEqualDot, adv2 s) else (T_NotEqual, advance s))"

definition lex_pipe :: "lexer \<Rightarrow> token_type \<times> lexer" where
  "lex_pipe s =
     (if peek s = Some ch_pipe \<and> peek2 s = Some ch_dot then (T_PipePipeDot, adv3 s)
      else if peek s = Some ch_pipe then (T_PipePipe, adv2 s)
      else if peek s = Some ch_dot then (T_PipeDot, adv2 s)
      else (T_Pipe, advance s))"

definition lex_comma :: "lexer \<Rightarrow> token_type \<times> lexer" where
  "lex_comma s =
     (if peek s = Some ch_colon then (T_CommaColon, adv2 s) else (T_Comma, advance s))"

text \<open>Characters that are a token by themselves.\<close>

definition lex_single :: "uchar \<Rightarrow> token_type option" where
  "lex_single c =
     (if c = ch_colon then Some T_Colon
      else if c = ch_sharp then Some T_Sharp
      else if c = ch_bang then Some T_Bang
      else if c = ch_lparen then Some T_LeftParen
      else if c = ch_rparen then Some T_RightParen
      else if c = ch_lbracket then Some T_LeftBracket
      else if c = ch_rbracket then Some T_RightBracket
      else if c = ch_lbrace then Some T_LeftBrace
      else if c = ch_rbrace then Some T_RightBrace
      else if c = ch_semicolon then Some T_Semicolon
      else if c = ch_apostrophe then Some T_Apostrophe
      else None)"

text \<open>All arms that always yield a token by looking at no more than three characters.\<close>

definition lex_operator :: "uchar \<Rightarrow> lexer \<Rightarrow> (token_type \<times> lexer) option" where
  "lex_operator c s =
     (if c = ch_star then Some (lex_star s)
      else if c = ch_slash \<and> peek s \<noteq> Some ch_slash \<and> peek s \<noteq> Some ch_star then Some (lex_slash s)
      else if c = ch_percent then Some (lex_percent s)
      else if c = ch_dollar then Some (lex_dollar s)
      else if c = ch_less then Some (lex_less s)
      else if c = ch_greater then Some (lex_greater s)
      else if c = ch_plus then Some (lex_plus s)
      else if c = ch_minus then Some (lex_minus s)
      else if c = ch_caret then Some (lex_caret s)
      else if c = ch_equal then Some (lex_equal s)
      else if c = ch_tilde then Some (lex_tilde s)
      else if c = ch_pipe then Some (lex_pipe s)
      else if c = ch_comma then Some (lex_comma s)
      else map_option (\<lambda>t. (t, advance s)) (lex_single c))"

section \<open>Dots and \<open>@\<close>-forms\<close>

definition unrecognized :: "nat \<Rightarrow> lexer \<Rightarrow> token_type lex_result" where
  "unrecognized start_byte s =
     (Inl (syntax_error_span s start_byte (lx_byte_pos s) (lit ''unrecognized character'')),
      advance s)"

definition lex_dot :: "nat \<Rightarrow> lexer \<Rightarrow> token_type lex_result" where
  "lex_dot start_byte s =
     (if peek s = Some ch_dot \<and> peek2 s = Some ch_dot then (Inr T_Ellipsis, adv3 s)
      else if peek s = Some ch_dot \<and> peek2 s = Some ch_equal then (Inr T_RangeInclusive, adv3 s)
      else if peek s = Some ch_dot then (Inr T_Range, adv2 s)
      else unrecognized start_byte s)"

function depth_digits :: "ustr \<Rightarrow> lexer \<Rightarrow> ustr \<times> lexer" where
  "depth_digits raw_lit s =
     (case lx_current s of
        None \<Rightarrow> (raw_lit, s)
      | Some ch \<Rightarrow>
          if is_ascii_digit ch then depth_digits (raw_lit @ [ch]) (advance s)
          else if ch = ch_underscore then depth_digits raw_lit (advance s)
          else (raw_lit, s))"
  by pat_completeness auto
termination
  by (relation "measure (\<lambda>(raw, s). lx_remaining s)") auto

declare depth_digits.simps [simp del]

definition finish_depth :: "nat \<Rightarrow> ustr \<Rightarrow> lexer \<Rightarrow> token_type lex_result" where
  "finish_depth start_byte raw_lit s =
     (case i64_from_str_radix 10 raw_lit of
        None \<Rightarrow> (Inl (syntax_error_span s start_byte (lx_byte_pos s)
                    (lit ''depth modifier is too large'')), s)
      | Some depth \<Rightarrow> (Inr (T_AtDepth depth), s))"

definition simple_at_form :: "uchar \<Rightarrow> token_type option" where
  "simple_at_form c =
     (if c = ch_b then Some T_AtBreak
      else if c = ch_c then Some T_AtContinue
      else if c = ch_r then Some T_AtReturn
      else if c = ch_d then Some T_AtDebug
      else if c = ch_p then Some T_AtPause
      else if c = ch_t then Some T_AtTry
      else if c = ch_i then Some T_AtImport
      else if c = ch_s then Some T_AtSymbolic
      else None)"

definition unknown_at_form :: "nat \<Rightarrow> lexer \<Rightarrow> token_type lex_result" where
  "unknown_at_form start_byte s1 =
     (let s2 = (if lx_current s1 \<noteq> None then advance s1 else s1);
          spelling = (case str_slice (lx_source s2) start_byte (lx_byte_pos s2) of
                        Some x \<Rightarrow> x | None \<Rightarrow> lit ''@'')
      in (Inl (syntax_error_span s2 start_byte (lx_byte_pos s2)
            (lit ''unknown '' @ [ch_apostrophe, ch_at, ch_apostrophe] @ lit '' form '' @
             quote_string spelling ch_apostrophe)), s2))"

definition lex_at :: "lex_env \<Rightarrow> nat \<Rightarrow> lexer \<Rightarrow> token_type lex_result" where
  "lex_at L start_byte s =
     (let s1 = advance s
      in case lx_current s1 of
           None \<Rightarrow> unknown_at_form start_byte s1
         | Some ch \<Rightarrow>
             (case simple_at_form ch of
                Some t \<Rightarrow> (Inr t, advance s1)
              | None \<Rightarrow>
                  if is_ascii_digit ch then
                    (case depth_digits [] s1 of (raw_lit, s2) \<Rightarrow> finish_depth start_byte raw_lit s2)
                  else if ch = ch_minus \<and> opt_sat is_ascii_digit (peek s1) then
                    (case depth_digits [ch_minus] (advance s1) of
                       (raw_lit, s2) \<Rightarrow> finish_depth start_byte raw_lit s2)
                  else if ch = ch_f then
                    (let s2 = skip_whitespace (advance s1)
                     in if lx_current s2 = Some ch_dquote then read_format_string L start_byte s2
                        else (Inl (syntax_error_span s2 start_byte (lx_byte_pos s2)
                                (lit ''expected string after @f'')), s2))
                  else if ch = ch_l then read_raw_string start_byte (advance s1)
                  else unknown_at_form start_byte s1))"

section \<open>\<open>next_token\<close>\<close>

definition lex_char :: "lex_env \<Rightarrow> uchar \<Rightarrow> lexer \<Rightarrow> token_type lex_result" where
  "lex_char L c s =
     (let start_byte = lx_byte_pos s
      in case lex_operator c s of
           Some (t, s1) \<Rightarrow> (Inr t, s1)
         | None \<Rightarrow>
             if c = ch_newline then (Inr T_Newline, advance s)
             else if c = ch_slash then
               (if peek s = Some ch_slash
                then (case read_line_comment (adv2 s) of (t, s1) \<Rightarrow> (Inr t, s1))
                else read_inline_comment start_byte (adv2 s))
             else if c = ch_dot then lex_dot start_byte s
             else if c = ch_at then lex_at L start_byte s
             else if c = ch_backtick then read_tag L start_byte s
             else if c = ch_dquote then read_string_literal L start_byte s
             else if is_ascii_digit c then read_number L start_byte s
             else if is_identifier_start (le_unicode L) c then
               (case read_identifier L s of (ident, s1) \<Rightarrow> (Inr (from_identifier ident), s1))
             else unrecognized start_byte s)"

definition emit :: "lexer \<Rightarrow> token_type lex_result \<Rightarrow> token lex_result" where
  "emit s0 r =
     (case r of
        (Inl e, s1) \<Rightarrow> (Inl e, s1)
      | (Inr t, s1) \<Rightarrow>
          (Inr (new_token t (lx_position s0) (lx_line s0) (lx_column s0 + 1)
                  (lx_byte_pos s0) (lx_byte_pos s1)), s1))"

definition is_blank :: "uchar option \<Rightarrow> bool" where
  "is_blank c \<longleftrightarrow> c = Some ch_space \<or> c = Some ch_tab \<or> c = Some ch_return"

lemma read_while_remaining: "lx_remaining (snd (read_while p acc s)) \<le> lx_remaining s"
proof (induction p acc s rule: read_while.induct)
  case (1 p acc s)
  then show ?case
    by (subst read_while.simps)
      (auto split: option.split intro: order_trans [OF _ lx_remaining_advance_le])
qed

lemma skip_whitespace_less [termination_simp]:
  assumes "is_blank (lx_current s)"
  shows "lx_remaining (skip_whitespace s) < lx_remaining s"
proof -
  obtain c where c: "lx_current s = Some c" "is_whitespace c \<and> c \<noteq> ch_newline"
    using assms by (auto simp: is_blank_def is_whitespace_def)
  let ?p = "\<lambda>ch. is_whitespace ch \<and> ch \<noteq> ch_newline"
  have "skip_whitespace s = snd (read_while ?p [c] (advance s))"
    unfolding skip_whitespace_def using c by (subst read_while.simps) simp
  then have "lx_remaining (skip_whitespace s) \<le> lx_remaining (advance s)"
    by (simp add: read_while_remaining)
  also have "lx_remaining (advance s) < lx_remaining s" using c by simp
  finally show ?thesis .
qed

function next_token :: "lex_env \<Rightarrow> lexer \<Rightarrow> token lex_result" where
  "next_token L s =
     (if is_blank (lx_current s) then next_token L (skip_whitespace s)
      else case lx_current s of
             None \<Rightarrow> emit s (Inr T_Eof, s)
           | Some c \<Rightarrow> emit s (lex_char L c s))"
  by pat_completeness auto
termination
  by (relation "measure (\<lambda>(L, s). lx_remaining s)") (auto intro: skip_whitespace_less)

declare next_token.simps [simp del]

section \<open>Token streams\<close>

text \<open>
  \<open>tokenize\<close> stops at the first error; a call of \<open>next_token\<close> that neither reaches the end
  nor consumes anything would repeat forever, which is the outcome \<open>Diverge\<close>.
\<close>

function tokenize_loop :: "lex_env \<Rightarrow> token list \<Rightarrow> lexer \<Rightarrow> token list lex_result" where
  "tokenize_loop L tokens s =
     (case next_token L s of
        (Inl e, s1) \<Rightarrow> (Inl e, s1)
      | (Inr t, s1) \<Rightarrow>
          if tok_type t = T_Eof then (Inr (tokens @ [t]), s1)
          else if lx_remaining s1 < lx_remaining s then tokenize_loop L (tokens @ [t]) s1
          else (Inl Diverge, s1))"
  by pat_completeness auto
termination
  by (relation "measure (\<lambda>(L, ts, s). lx_remaining s)") auto

declare tokenize_loop.simps [simp del]

definition tokenize :: "lex_env \<Rightarrow> ustr \<Rightarrow> lex_fail + token list" where
  "tokenize L src = fst (tokenize_loop L [] (new_lexer src))"

text \<open>The token and the cursor with which recovery continues after an error.\<close>

definition recovery_step :: "lexer \<Rightarrow> lexer \<Rightarrow> token \<times> lexer" where
  "recovery_step s s1 =
     (let stuck = (lx_byte_pos s1 = lx_byte_pos s);
          byte_end = (if stuck then
                        (case lx_current s1 of
                           Some ch \<Rightarrow> lx_byte_pos s1 + len_utf8 ch
                         | None \<Rightarrow> lx_byte_pos s1)
                      else lx_byte_pos s1)
      in (new_token T_Error (lx_position s) (lx_line s) (lx_column s + 1) (lx_byte_pos s) byte_end,
          if stuck then advance s1 else s1))"

function recovery_loop :: "lex_env \<Rightarrow> token list \<Rightarrow> lexer \<Rightarrow> token list lex_result" where
  "recovery_loop L tokens s =
     (case next_token L s of
        (Inr t, s1) \<Rightarrow>
          if tok_type t = T_Eof then (Inr (tokens @ [t]), s1)
          else if lx_remaining s1 < lx_remaining s then recovery_loop L (tokens @ [t]) s1
          else (Inl Diverge, s1)
      | (Inl (LexError _), s1) \<Rightarrow>
          (case recovery_step s s1 of
             (t, s2) \<Rightarrow>
               if lx_remaining s2 < lx_remaining s then recovery_loop L (tokens @ [t]) s2
               else (Inl Diverge, s2))
      | (Inl e, s1) \<Rightarrow> (Inl e, s1))"
  by pat_completeness auto
termination
  by (relation "measure (\<lambda>(L, ts, s). lx_remaining s)") (auto simp: Let_def split: if_splits)

declare recovery_loop.simps [simp del]

definition tokenize_recovery :: "lex_env \<Rightarrow> ustr \<Rightarrow> lex_fail + token list" where
  "tokenize_recovery L src = fst (recovery_loop L [] (new_lexer src\<lparr>lx_recovery := True\<rparr>))"

end
