(* ===== verification/Lexer_Facts.thy ===== *)
theory Lexer_Facts
  imports Lexer
begin

text \<open>
  What the token level guarantees: every arm of \<open>next_token\<close> consumes input and never panics,
  a token's span is exactly the text its arm consumed, the gap before it is blank, and the
  position fields agree with the text before it. From these one-step facts, induction over the
  two token loops gives that a token stream tiles the source.
\<close>

section \<open>Operator spellings\<close>

text \<open>The text between the quotes of a token's diagnostic name.\<close>

definition spelling :: "token_type \<Rightarrow> ustr" where
  "spelling t = lit (butlast (tl (diagnostic_name t)))"

definition fixed_token :: "token_type \<Rightarrow> bool" where
  "fixed_token t =
     (case t of
        T_Arith _ \<Rightarrow> True | T_Aug _ \<Rightarrow> True | T_Compare _ \<Rightarrow> True | T_Sigil _ \<Rightarrow> True
      | T_At _ \<Rightarrow> True | T_Bracket _ \<Rightarrow> True | T_Colon \<Rightarrow> True | T_Bang \<Rightarrow> True
      | T_Ellipsis \<Rightarrow> True | _ \<Rightarrow> False)"

lemma lexes_1: "lex_ok s \<Longrightarrow> lx_current s = Some c \<Longrightarrow> lexes s [c] (advance s)"
  by (rule lexes_advance_Some)

lemma lexes_2:
  "lex_ok s \<Longrightarrow> lx_current s = Some c \<Longrightarrow> lx_la1 s = Some d \<Longrightarrow> lexes s [c, d] (adv2 s)"
  using lexes_step [OF lexes_1, of s c d] by (simp add: adv2_def)

lemma lexes_3:
  "lex_ok s \<Longrightarrow> lx_current s = Some c \<Longrightarrow> lx_la1 s = Some d \<Longrightarrow> lx_la2 s = Some e \<Longrightarrow>
   lexes s [c, d, e] (adv3 s)"
  using lexes_step [OF lexes_2, of s c d e] by (simp add: adv3_def adv2_def)

lemmas operator_arm_defs =
  lex_star_def lex_slash_def lex_percent_def lex_dollar_def lex_less_def lex_greater_def
  lex_plus_def lex_minus_def lex_caret_def lex_equal_def lex_tilde_def lex_pipe_def
  lex_comma_def lex_single_def

lemmas spelling_defs = spelling_def diagnostic_name_def quoted_def lit_def

lemma lex_operator_lexes:
  assumes "lex_ok s" "lx_current s = Some c" "lex_operator c s = Some (t, s1)"
  shows "\<exists>txt. txt \<noteq> [] \<and> lexes s txt s1 \<and> (t = T_Apostrophe \<or> txt = spelling t)"
  using assms
  by (auto simp: lex_operator_def operator_arm_defs spelling_defs
      split: if_splits dest: lexes_1 lexes_2 lexes_3)

section \<open>Every arm is safe and consumes input\<close>

text \<open>Every identifier-start character also continues an identifier (UAX 31).\<close>

definition xid_closed :: "lex_env \<Rightarrow> bool" where
  "xid_closed L \<longleftrightarrow> (\<forall>c. env_xid_start (le_unicode L) c \<longrightarrow> env_xid_continue (le_unicode L) c)"

lemma xid_closed_continue:
  "xid_closed L \<Longrightarrow> is_identifier_start (le_unicode L) c \<Longrightarrow> is_identifier_continue (le_unicode L) c"
  by (auto simp: xid_closed_def is_identifier_start_def is_identifier_continue_def)

lemma adv2_moves: "lex_ok s \<Longrightarrow> lx_current s = Some c \<Longrightarrow> moves s (adv2 s)"
  unfolding adv2_def by (intro moves_advance moves_first)

lemma adv3_moves: "lex_ok s \<Longrightarrow> lx_current s = Some c \<Longrightarrow> moves s (adv3 s)"
  unfolding adv3_def by (intro moves_advance moves_first)

lemma unrecognized_safe:
  assumes "lex_ok s"
  shows "lex_safe s (unrecognized (lx_byte_pos s) s)"
proof -
  obtain e where "build_error s W_Syntax (lx_byte_pos s) (lx_byte_pos s) (lit ''unrecognized character'')
      = LexError e"
    using build_error_LexError [OF assms] boundary_here [OF assms] by metis
  then show ?thesis
    by (simp add: unrecognized_def reaches_advance reaches_refl assms)
qed

lemma unrecognized_moves:
  "lex_ok s \<Longrightarrow> lx_current s = Some c \<Longrightarrow> moves s (snd (unrecognized b s))"
  by (simp add: unrecognized_def moves_first)

lemma depth_digits_reaches:
  "reaches s0 s \<Longrightarrow> reaches s0 (snd (depth_digits raw s))"
proof (induction raw s rule: depth_digits.induct)
  case (1 raw s)
  note adv = "1.prems" reaches_advance [OF "1.prems"]
  show ?case
    using "1.IH" adv by (subst depth_digits.simps) (simp split: option.split)
qed

lemma finish_depth_safe:
  "reaches s0 s \<Longrightarrow> boundary s b \<Longrightarrow> lex_safe s0 (finish_depth b raw s)"
  by (auto simp: finish_depth_def split: option.split intro: lex_safe_error)

lemma finish_depth_snd: "snd (finish_depth b raw s) = s"
  by (simp add: finish_depth_def split: option.split)

text \<open>
  A reader that is safe relative to the cursor after its first character is safe from the
  start, and consumes input.
\<close>

lemma consumes_safe:
  assumes "lex_ok s" "lx_current s = Some c" "lex_safe (advance s) r"
  shows "lex_safe s r \<and> moves s (snd r)"
  using moves_first [OF assms(1,2)] assms(3) moves_reaches
  by (auto intro: lex_safe_trans moves_trans dest: lex_safe_reaches)

lemma advance_reaches: "lex_ok s \<Longrightarrow> reaches s (advance s)"
  by (intro reaches_advance reaches_refl)

lemma boundary_after:
  "lex_ok s \<Longrightarrow> reaches (advance s) t \<Longrightarrow> boundary t (lx_byte_pos s)"
  by (rule boundary_start [OF reaches_trans [OF advance_reaches]])

lemma unknown_at_form_safe:
  assumes "lex_ok s"
  shows "lex_safe (advance s) (unknown_at_form (lx_byte_pos s) (advance s))"
proof -
  let ?s1 = "advance s"
  let ?s2 = "if lx_current ?s1 \<noteq> None then advance ?s1 else ?s1"
  have "reaches ?s1 ?s2"
    using lex_ok_advance(1) [OF assms] by (auto intro: advance_reaches reaches_refl)
  then show ?thesis
    unfolding unknown_at_form_def Let_def
    by (intro lex_safe_error disjI1 boundary_after [OF assms])
qed

lemma lex_at_safe:
  assumes "lex_ok s"
  shows "lex_safe (advance s) (lex_at L (lx_byte_pos s) s)"
proof -
  let ?s1 = "advance s" and ?b = "lx_byte_pos s"
  have s1: "reaches ?s1 ?s1" "reaches ?s1 (advance ?s1)"
    using lex_ok_advance(1) [OF assms] by (auto intro: advance_reaches reaches_refl)
  let ?s2 = "skip_whitespace (advance ?s1)"
  have s2: "reaches ?s1 ?s2" by (rule skip_whitespace_reaches [OF s1(2)])
  have depth: "lex_safe ?s1 (case depth_digits raw t of (r, u) \<Rightarrow> finish_depth ?b r u)"
    if "reaches ?s1 t" for raw t
    using depth_digits_reaches [OF that, of raw] boundary_after [OF assms]
    by (auto split: prod.split intro!: finish_depth_safe)
  show ?thesis
    using s1 s2 boundary_after [OF assms s2]
      read_format_string_safe [OF s2 boundary_after [OF assms s2], of L]
      read_raw_string_safe [OF s1(2) boundary_after [OF assms s1(2)]]
      unknown_at_form_safe [OF assms]
    by (auto simp: lex_at_def Let_def depth split: option.split intro: lex_safe_error)
qed

lemma lex_dot_safe:
  assumes "lex_ok s" "lx_current s = Some c"
  shows "lex_safe s (lex_dot (lx_byte_pos s) s) \<and> moves s (snd (lex_dot (lx_byte_pos s) s))"
  using adv2_moves [OF assms] adv3_moves [OF assms] moves_reaches unrecognized_safe [OF assms(1)]
    unrecognized_moves [OF assms]
  by (auto simp: lex_dot_def)

lemma lex_char_consumes:
  assumes "lex_ok s" "lx_current s = Some c"
  shows "lex_safe s (lex_char L c s) \<and> (xid_closed L \<longrightarrow> moves s (snd (lex_char L c s)))"
proof (cases "lex_operator c s")
  case (Some r)
  obtain t s1 where r: "r = (t, s1)" by fastforce
  with lex_operator_lexes [OF assms(1,2), of t s1] Some have "moves s s1"
    by (auto simp: moves_def)
  with Some r show ?thesis by (simp add: lex_char_def moves_reaches)
next
  case None
  let ?b = "lx_byte_pos s"
  have rs: "reaches s s" "boundary s ?b" using assms(1) by (auto intro: reaches_refl boundary_here)
  have ok2: "lex_ok (adv2 s)" "reaches (advance s) (adv2 s)"
    using assms(1) by (auto simp: adv2_def intro: lex_ok_advance advance_reaches)
  obtain com s1 where com: "read_line_comment (adv2 s) = (com, s1)" by (metis surj_pair)
  obtain name s2 where name: "read_identifier L s = (name, s2)" by (metis surj_pair)
  have "moves s s1"
    using moves_trans [OF adv2_moves [OF assms(1,2)] read_line_comment_reaches [OF reaches_refl [OF ok2(1)]]]
    by (simp add: com)
  moreover have "reaches s s2"
    using read_identifier_reaches [OF rs(1), of L] by (simp add: name)
  moreover have "moves s s2" if "xid_closed L" "is_identifier_start (le_unicode L) c"
    using read_identifier_moves [OF assms(1,2) xid_closed_continue [OF that]] by (simp add: name)
  ultimately show ?thesis
    using None com name moves_first [OF assms(1,2)]
      consumes_safe [OF assms(1,2) read_inline_comment_safe [OF ok2(2) boundary_after [OF assms(1) ok2(2)]]]
      consumes_safe [OF assms(1,2) lex_at_safe [OF assms(1)]]
      lex_dot_safe [OF assms(1,2)]
      read_tag_safe [OF rs] read_tag_moves [OF assms(1,2)]
      read_string_literal_safe [OF rs] read_string_literal_moves [OF assms(1)]
      read_number_safe [OF rs] read_number_moves [OF assms(1,2)]
      unrecognized_safe [OF assms(1)] unrecognized_moves [OF assms(1,2)]
      assms(2) moves_reaches
    by (simp add: lex_char_def Let_def)
qed

end
