(* ===== verification/Token_Stream.thy ===== *)
theory Token_Stream
  imports Lexer_Facts
begin

text \<open>
  Token streams as a whole. \<open>tiles\<close> is the contract between the lexer and everything behind
  it: gaps of horizontal whitespace and non-empty token texts alternate, cover the source from
  its first byte to its last, and end with one end-of-input token. The locale
  \<open>token_source\<close> names that contract for its clients; both lexer entry points satisfy it.
\<close>

section \<open>Result types of the readers\<close>

text \<open>The token types that the literal readers return.\<close>

definition literal_token :: "token_type \<Rightarrow> bool" where
  "literal_token t \<longleftrightarrow> \<not> fixed_token t \<and> t \<noteq> T_Eof \<and> t \<noteq> T_Error \<and> t \<noteq> T_Newline \<and> t \<noteq> T_Apostrophe"

lemma literal_token_simps [simp]:
  "literal_token (T_Identifier x)" "literal_token (T_Keyword k)" "literal_token (T_Integer i)"
  "literal_token (T_BigInteger b)" "literal_token (T_Float f)" "literal_token (T_Imaginary f)"
  "literal_token (T_Character c)" "literal_token (T_String x)" "literal_token (T_Tag x)"
  "literal_token T_Backtick" "literal_token T_Inf" "literal_token T_True" "literal_token T_False"
  "literal_token (T_AtDepth d)" "literal_token (T_Comment x)" "literal_token (T_FormatString ps j m)"
  by (simp_all add: literal_token_def fixed_token_def)

definition yields_literal :: "token_type lex_result \<Rightarrow> bool" where
  "yields_literal r \<longleftrightarrow> (case fst r of Inl _ \<Rightarrow> True | Inr t \<Rightarrow> literal_token t)"

lemma yields_literal_simps [simp]:
  "yields_literal (Inl e, s)" "yields_literal (Inr t, s) \<longleftrightarrow> literal_token t"
  by (simp_all add: yields_literal_def)

lemma from_identifier_literal: "literal_token (from_identifier x)"
  by (simp add: from_identifier_def reserved_identifier_def split: option.split)

lemma from_identifier_not_Eof [simp]: "from_identifier x \<noteq> T_Eof" "from_identifier x \<noteq> T_Error"
  using from_identifier_literal [of x] by (auto simp: literal_token_def)

lemma finish_integer_literal: "yields_literal (finish_integer L base x b s)"
  by (simp add: finish_integer_def split: option.split)

lemma read_number_literal: "yields_literal (read_number L b s)"
  by (simp add: read_number_def read_prefixed_number_def read_decimal_number_def Let_def
      finish_imaginary_def finish_integer_literal split: option.split prod.split)

lemma read_tag_literal: "yields_literal (read_tag L b s)"
  by (simp add: read_tag_def Let_def split: option.split prod.split)

lemma read_string_literal_literal: "yields_literal (read_string_literal L b s)"
  by (simp add: read_string_literal_def split: prod.split sum.split list.split)

lemma read_inline_comment_literal: "yields_literal (read_inline_comment b s)"
  by (simp add: read_inline_comment_def split: prod.split)

lemma read_raw_string_literal: "yields_literal (read_raw_string b s)"
  by (simp add: read_raw_string_def Let_def split: prod.split)

lemma format_loop_literal: "yields_literal (format_loop L b q parts ts s)"
proof (induction L b q parts ts s rule: format_loop.induct)
  case (1 L b q parts ts s)
  then show ?case
    by (subst format_loop.simps) (simp add: Let_def split: option.split sum.split prod.split)
qed

lemma finish_depth_literal: "yields_literal (finish_depth b x s)"
  by (simp add: finish_depth_def split: option.split)

section \<open>Fixed tokens have their spelling\<close>

lemma lex_dot_lexes:
  assumes "lex_ok s" "lx_current s = Some ch_dot" "lex_dot b s = (Inr t, s1)"
  shows "lexes s (spelling t) s1"
  using assms
  by (auto simp: lex_dot_def unrecognized_def spelling_defs split: if_splits dest: lexes_2 lexes_3)

lemma lex_at_lexes:
  assumes "lex_ok s" "lx_current s = Some ch_at" "lex_at L b s = (Inr t, s1)"
  shows "literal_token t \<or> lexes s (spelling t) s1"
proof -
  obtain ch where ch: "lx_current (advance s) = Some ch"
    using assms(3) by (cases "lx_la1 s") (auto simp: lex_at_def unknown_at_form_def Let_def)
  show ?thesis
  proof (cases "simple_at_form ch")
    case (Some t')
    with assms ch have "t = t'" "s1 = adv2 s" by (simp_all add: lex_at_def Let_def adv2_def)
    moreover have "spelling t' = [ch_at, ch]"
      using Some by (auto simp: simple_at_form_def spelling_defs split: if_splits)
    ultimately show ?thesis using assms(1,2) ch lexes_2 by simp
  next
    case None
    then have "yields_literal (lex_at L b s)"
      using ch by (simp add: lex_at_def Let_def unknown_at_form_def finish_depth_literal
          read_raw_string_literal read_format_string_def format_loop_literal split: prod.split)
    with assms(3) show ?thesis by simp
  qed
qed

text \<open>What \<open>lex_char\<close> returns: a token with its fixed spelling, a newline or an apostrophe, or a
  literal.\<close>

lemma lex_char_token:
  assumes "lex_ok s" "lx_current s = Some c" "lex_char L c s = (Inr t, s1)"
  shows "t = T_Newline \<or> t = T_Apostrophe \<or> literal_token t \<or> lexes s (spelling t) s1"
proof (cases "lex_operator c s")
  case (Some r)
  then show ?thesis
    using assms lex_operator_lexes [OF assms(1,2), of t s1]
    by (cases r) (auto simp: lex_char_def)
next
  case None
  have lit: "literal_token t" if "yields_literal r" "r = (Inr t, s1)" for r :: "token_type lex_result"
    using that by simp
  show ?thesis
    using None assms lex_dot_lexes [OF assms(1)] lex_at_lexes [OF assms(1)]
      lit [OF read_tag_literal] lit [OF read_string_literal_literal] lit [OF read_number_literal]
      lit [OF read_inline_comment_literal]
    by (auto simp: lex_char_def Let_def unrecognized_def from_identifier_literal read_line_comment_def
        split: if_splits prod.splits)
qed

lemma spelling_Eof: "spelling T_Eof = lit ''nd of inpu''"
  by (simp add: spelling_defs)

lemma lex_operator_not_Eof: "lex_operator c s = Some (t, s1) \<Longrightarrow> t \<noteq> T_Eof \<and> t \<noteq> T_Error"
  by (auto simp: lex_operator_def operator_arm_defs split: if_splits)

lemma lex_char_not_Eof:
  assumes "lex_char L c s = (Inr t, s1)"
  shows "t \<noteq> T_Eof \<and> t \<noteq> T_Error"
proof (cases "lex_operator c s")
  case (Some r)
  then show ?thesis
    using assms lex_operator_not_Eof [of c s t s1] by (cases r) (auto simp: lex_char_def)
next
  case None
  have lit: "t \<noteq> T_Eof \<and> t \<noteq> T_Error" if "yields_literal r" "r = (Inr t, s1)"
    for r :: "token_type lex_result"
    using that by (simp add: literal_token_def)
  have at: "t \<noteq> T_Eof \<and> t \<noteq> T_Error" if "lex_at L b s = (Inr t, s1)" for b
  proof (cases "lx_current (advance s)")
    case (Some ch)
    have "simple_at_form ch = Some t' \<Longrightarrow> t' \<noteq> T_Eof \<and> t' \<noteq> T_Error" for t'
      by (auto simp: simple_at_form_def split: if_splits)
    moreover have "simple_at_form ch = None \<Longrightarrow> yields_literal (lex_at L b s)"
      using Some by (simp add: lex_at_def Let_def unknown_at_form_def finish_depth_literal
          read_raw_string_literal read_format_string_def format_loop_literal split: prod.split)
    ultimately show ?thesis
      using that Some lit by (cases "simple_at_form ch") (auto simp: lex_at_def Let_def)
  qed (use that in \<open>simp add: lex_at_def unknown_at_form_def Let_def\<close>)
  show ?thesis
    using None assms at
      lit [OF read_tag_literal] lit [OF read_string_literal_literal] lit [OF read_number_literal]
      lit [OF read_inline_comment_literal]
    by (auto simp: lex_char_def Let_def unrecognized_def from_identifier_literal read_line_comment_def
        lex_dot_def split: if_splits prod.splits)
qed

section \<open>One token\<close>

lemma next_token_shape:
  assumes "lex_ok s"
  shows "\<exists>ws s0. lexes s ws s0 \<and> list_all is_gap ws \<and> next_token L s =
    emit s0 (case lx_current s0 of None \<Rightarrow> (Inr T_Eof, s0) | Some c \<Rightarrow> lex_char L c s0)"
  using assms
proof (induction L s rule: next_token.induct)
  case (1 L s)
  show ?case
  proof (cases "is_blank (lx_current s)")
    case True
    obtain ws where ws: "lexes s ws (skip_whitespace s)"
      "ws = takeWhile (\<lambda>ch. is_whitespace ch \<and> ch \<noteq> ch_newline) (lx_rest s)"
      by (rule skip_whitespace_lexes [OF "1.prems"])
    have gap: "list_all is_gap ws"
      using ws(2) by (auto simp: list_all_iff is_gap_def dest: set_takeWhileD)
    show ?thesis
      using "1.IH" [OF True lexes_okD(2) [OF ws(1)]] lexes_trans [OF ws(1)] gap True
      by (subst next_token.simps) (metis list_all_append)
  next
    case False
    then show ?thesis
      using lexes_refl [OF "1.prems"]
      by (subst next_token.simps) (auto intro!: exI [of _ "[]"] exI [of _ s] split: option.split)
  qed
qed

text \<open>
  \<open>token_step src s t s1\<close>: between the cursors \<open>s\<close> and \<open>s1\<close> lie a gap and the text of \<open>t\<close>.
\<close>

definition token_step :: "lexer \<Rightarrow> token \<Rightarrow> lexer \<Rightarrow> bool" where
  "token_step s t s1 \<longleftrightarrow>
     (\<exists>gap body s0. lexes s gap s0 \<and> lexes s0 body s1 \<and> list_all is_gap gap \<and>
        tok_start t = lx_byte_pos s0 \<and> tok_end t = lx_byte_pos s1 \<and>
        tok_line t = lx_line s0 \<and> tok_column t = lx_column s0 + 1 \<and>
        tok_position t = lx_position s0 \<and>
        (body = [] \<longleftrightarrow> tok_type t = T_Eof) \<and> (tok_type t = T_Eof \<longrightarrow> lx_rest s1 = []) \<and>
        (fixed_token (tok_type t) \<longrightarrow> body = spelling (tok_type t)))"

lemma next_token_step:
  assumes "lex_ok s" "xid_closed L" "next_token L s = (Inr t, s1)"
  shows "token_step s t s1"
proof -
  obtain ws s0 where ws: "lexes s ws s0" "list_all is_gap ws" and
    nt: "next_token L s = emit s0 (case lx_current s0 of None \<Rightarrow> (Inr T_Eof, s0) | Some c \<Rightarrow> lex_char L c s0)"
    using next_token_shape [OF assms(1)] by blast
  have ok0: "lex_ok s0" using ws(1) by (rule lexes_okD)
  show ?thesis
  proof (cases "lx_current s0")
    case None
    then have "s1 = s0" "lx_rest s0 = []" using assms(3) nt lex_ok_window [OF ok0]
      by (auto simp: emit_def)
    with None ws nt assms(3) lexes_refl [OF ok0] show ?thesis
      unfolding token_step_def
      by (intro exI [of _ ws] exI [of _ "[]"] exI [of _ s0])
        (auto simp: emit_def new_token_def fixed_token_def)
  next
    case (Some c)
    obtain ty where ty: "lex_char L c s0 = (Inr ty, s1)" and
      t: "t = new_token ty (lx_position s0) (lx_line s0) (lx_column s0 + 1) (lx_byte_pos s0) (lx_byte_pos s1)"
      using assms(3) nt Some by (auto simp: emit_def split: prod.splits sum.splits)
    have "moves s0 s1"
      using lex_char_consumes [OF ok0 Some, of L] assms(2) ty by simp
    then obtain body where body: "body \<noteq> []" "lexes s0 body s1"
      by (auto simp: moves_def)
    have "body = spelling ty" if "fixed_token ty"
    proof -
      have "lexes s0 (spelling ty) s1"
        using lex_char_token [OF ok0 Some ty] that
        by (auto simp: literal_token_def) (simp_all add: fixed_token_def)
      with body(2) show ?thesis by (metis lexes_restD append_same_eq)
    qed
    then show ?thesis
      unfolding token_step_def
      using ws body t lex_char_not_Eof [OF ty]
      by (intro exI [of _ ws] exI [of _ body] exI [of _ s0]) (simp add: new_token_def)
  qed
qed

lemma next_token_error:
  assumes "lex_ok s" "xid_closed L" "next_token L s = (Inl e, s1)"
  shows "reaches s s1 \<and> lx_current s \<noteq> None \<and> e \<noteq> Panic \<and> e \<noteq> Diverge"
proof -
  obtain ws s0 where ws: "lexes s ws s0" and
    nt: "next_token L s = emit s0 (case lx_current s0 of None \<Rightarrow> (Inr T_Eof, s0) | Some c \<Rightarrow> lex_char L c s0)"
    using next_token_shape [OF assms(1)] by blast
  obtain c where c: "lx_current s0 = Some c"
    using assms(3) nt by (cases "lx_current s0") (auto simp: emit_def)
  then have "lex_char L c s0 = (Inl e, s1)"
    using assms(3) nt by (auto simp: emit_def split: prod.splits sum.splits)
  with lex_char_consumes [OF lexes_okD(2) [OF ws] c, of L] have
    "reaches s0 s1" "e \<noteq> Panic" "e \<noteq> Diverge"
    by (auto simp: lex_safe_def)
  moreover have "lx_rest s \<noteq> []"
    using lexes_restD [OF ws] lex_ok_window [OF lexes_okD(2) [OF ws]] c by auto
  then have "lx_current s \<noteq> None" using lex_ok_current [OF assms(1)] by (auto split: list.splits)
  ultimately show ?thesis using ws by (auto simp: reaches_def intro: lexes_trans)
qed

section \<open>Tilings\<close>

fun tiles :: "ustr \<Rightarrow> nat \<Rightarrow> token list \<Rightarrow> bool" where
  "tiles rest pos [] = False"
| "tiles rest pos (t # ts) =
     (pos \<le> tok_start t \<and> tok_start t \<le> tok_end t \<and>
      (case byte_split (tok_start t - pos) rest of
         None \<Rightarrow> False
       | Some (gap, r) \<Rightarrow>
           list_all is_gap gap \<and>
           (case byte_split (tok_end t - tok_start t) r of
              None \<Rightarrow> False
            | Some (body, r') \<Rightarrow>
                (if tok_type t = T_Eof then ts = [] \<and> body = [] \<and> r' = []
                 else body \<noteq> [] \<and> tiles r' (tok_end t) ts))))"

text \<open>A token that has one spelling carries it.\<close>

definition spelled :: "ustr \<Rightarrow> token \<Rightarrow> bool" where
  "spelled src t \<longleftrightarrow>
     (if fixed_token (tok_type t)
      then str_slice src (tok_start t) (tok_end t) = Some (spelling (tok_type t)) else True)"

lemma tiles_Cons_iff:
  "tiles rest pos (t # ts) \<longleftrightarrow>
   (\<exists>gap body r. rest = gap @ body @ r \<and> list_all is_gap gap \<and>
      tok_start t = pos + blen gap \<and> tok_end t = tok_start t + blen body \<and>
      (if tok_type t = T_Eof then ts = [] \<and> body = [] \<and> r = []
       else body \<noteq> [] \<and> tiles r (tok_end t) ts))" (is "_ \<longleftrightarrow> ?R")
proof
  assume "tiles rest pos (t # ts)"
  then obtain gap r body r' where "byte_split (tok_start t - pos) rest = Some (gap, r)"
    "byte_split (tok_end t - tok_start t) r = Some (body, r')" "list_all is_gap gap"
    "pos \<le> tok_start t" "tok_start t \<le> tok_end t"
    "if tok_type t = T_Eof then ts = [] \<and> body = [] \<and> r' = []
     else body \<noteq> [] \<and> tiles r' (tok_end t) ts"
    by (auto split: option.splits)
  then show ?R
    by (intro exI [of _ gap] exI [of _ body] exI [of _ r']) (simp add: byte_split_Some_iff)
next
  assume ?R
  then show "tiles rest pos (t # ts)" by auto
qed

declare tiles.simps(2) [simp del]

lemma tiles_step:
  assumes "token_step s t s1"
    "if tok_type t = T_Eof then ts = [] else tiles (lx_rest s1) (lx_byte_pos s1) ts"
  shows "tiles (lx_rest s) (lx_byte_pos s) (t # ts)"
proof -
  obtain gap body s0 where st: "lexes s gap s0" "lexes s0 body s1" "list_all is_gap gap"
    "tok_start t = lx_byte_pos s0" "tok_end t = lx_byte_pos s1"
    "body = [] \<longleftrightarrow> tok_type t = T_Eof" "tok_type t = T_Eof \<longrightarrow> lx_rest s1 = []"
    using assms(1) unfolding token_step_def by blast
  then show ?thesis
    using assms(2) lexes_restD [OF st(1)] lexes_restD [OF st(2)]
      lexes_byte_posD [OF st(1)] lexes_byte_posD [OF st(2)]
    unfolding tiles_Cons_iff
    by (intro exI [of _ gap] exI [of _ body] exI [of _ "lx_rest s1"]) auto
qed

lemma token_step_lexes:
  assumes "token_step s t s1"
  shows "\<exists>cs. lexes s cs s1 \<and> (tok_type t \<noteq> T_Eof \<longrightarrow> cs \<noteq> [])"
  using assms unfolding token_step_def by (metis append_is_Nil_conv lexes_trans)

lemma lex_ok_counters:
  assumes "lex_ok s"
  shows "lx_line s = 1 + newlines (lx_done s)" "lx_column s = length (last_line (lx_done s))"
    "lx_position s = length (lx_done s) + olen (lx_current s)"
  using assms by (simp_all add: lex_ok_def)

lemma token_step_placed:
  assumes "token_step s t s1"
  shows "well_placed (lx_source s) t" "spelled (lx_source s) t"
proof -
  obtain gap body s0 where st: "lexes s gap s0" "lexes s0 body s1"
    "tok_start t = lx_byte_pos s0" "tok_end t = lx_byte_pos s1"
    "tok_line t = lx_line s0" "tok_column t = lx_column s0 + 1" "tok_position t = lx_position s0"
    "fixed_token (tok_type t) \<longrightarrow> body = spelling (tok_type t)"
    using assms unfolding token_step_def by blast
  have ok: "lex_ok s0" using st(1) by (rule lexes_okD)
  have src: "lx_source s = lx_done s0 @ body @ lx_rest s1"
    using lexes_ctxD [OF st(1)] lex_ok_source [OF ok] lexes_restD [OF st(2)]
    by (simp add: same_ctx_def)
  have pos: "tok_start t = blen (lx_done s0)" "tok_end t = blen (lx_done s0) + blen body"
    using st lex_ok_byte_pos [OF ok] lexes_byte_posD [OF st(2)] by simp_all
  have "tok_position t = length (lx_done s0) + (if body @ lx_rest s1 = [] then 0 else 1)"
    using lex_ok_counters(3) [OF ok] st(7) lexes_restD [OF st(2)] lex_ok_current [OF ok]
    by (simp add: olen_def split: list.splits)
  moreover have "tok_line t = 1 + newlines (lx_done s0)"
    "tok_column t = 1 + length (last_line (lx_done s0))"
    using lex_ok_counters [OF ok] st(5,6) by simp_all
  ultimately show "well_placed (lx_source s) t"
    unfolding well_placed_iff using src pos by blast
  show "spelled (lx_source s) t"
    using src pos st(8) by (simp add: spelled_def)
qed

section \<open>\<open>tokenize\<close>\<close>

lemma tokenize_loop_spec:
  assumes "lex_ok s" "xid_closed L"
  shows "case tokenize_loop L acc s of
      (Inr toks, s1) \<Rightarrow> \<exists>ts. toks = acc @ ts \<and> tiles (lx_rest s) (lx_byte_pos s) ts \<and>
         list_all (well_placed (lx_source s)) ts \<and> list_all (spelled (lx_source s)) ts
    | (Inl e, s1) \<Rightarrow> e \<noteq> Panic \<and> e \<noteq> Diverge"
  using assms
proof (induction L acc s rule: tokenize_loop.induct)
  case (1 L acc s)
  show ?case
  proof (cases "next_token L s")
    case (Pair r s1)
    show ?thesis
    proof (cases r)
      case (Inl e)
      with Pair next_token_error [OF "1.prems"] show ?thesis
        by (subst tokenize_loop.simps) simp
    next
      case (Inr t)
      note step = next_token_step [OF "1.prems" Pair [unfolded Inr]]
      note placed = token_step_placed [OF step]
      show ?thesis
      proof (cases "tok_type t = T_Eof")
        case True
        with Pair Inr placed tiles_step [OF step, of "[]"] show ?thesis
          by (subst tokenize_loop.simps) simp
      next
        case False
        obtain cs where cs: "lexes s cs s1" "cs \<noteq> []"
          using token_step_lexes [OF step] False by blast
        then have less: "lx_remaining s1 < lx_remaining s"
          using moves_remaining [of s s1] by (auto simp: moves_def)
        have src: "lx_source s1 = lx_source s" and ok: "lex_ok s1"
          using lexes_okD [OF cs(1)] lexes_ctxD [OF cs(1)] by (auto simp: same_ctx_def)
        have "tokenize_loop L acc s = tokenize_loop L (acc @ [t]) s1"
          using Pair Inr False less by (subst tokenize_loop.simps) simp
        moreover note "1.IH" [OF Pair [symmetric] Inr False less ok "1.prems"(2)]
        ultimately show ?thesis
          using placed tiles_step [OF step] False src
          by (auto split: prod.splits sum.splits)
      qed
    qed
  qed
qed

section \<open>\<open>tokenize_recovery\<close>\<close>

lemma recovery_loop_error:
  "next_token L s = (Inl (LexError e), s1) \<Longrightarrow>
   recovery_loop L acc s =
     (case recovery_step s s1 of (t, s2) \<Rightarrow>
        if lx_remaining s2 < lx_remaining s then recovery_loop L (acc @ [t]) s2
        else (Inl Diverge, s2))"
  by (subst recovery_loop.simps) simp

lemma recovery_step_token:
  assumes "reaches s s1" "lx_current s \<noteq> None" "recovery_step s s1 = (t, s2)"
  shows "token_step s t s2" "tok_type t = T_Error"
proof -
  obtain cs where cs: "lexes s cs s1" using assms(1) by (auto simp: reaches_def)
  note pos = lexes_byte_posD [OF cs]
  have "\<exists>body. body \<noteq> [] \<and> lexes s body s2 \<and> tok_end t = lx_byte_pos s2"
  proof (cases "cs = []")
    case True
    then obtain c where c: "lx_current s1 = Some c"
      using assms(2) lexes_restD [OF cs] lex_ok_current lexes_okD [OF cs]
      by (cases "lx_current s1") auto
    with True pos lexes_step [OF cs c] assms(3) show ?thesis
      by (intro exI [of _ "[c]"])
        (auto simp: recovery_step_def new_token_def advance_counters Let_def)
  next
    case False
    with pos cs assms(3) show ?thesis
      by (intro exI [of _ cs]) (auto simp: recovery_step_def new_token_def Let_def)
  qed
  then obtain body where body: "body \<noteq> []" "lexes s body s2" "tok_end t = lx_byte_pos s2" by blast
  have t: "tok_type t = T_Error" "tok_start t = lx_byte_pos s" "tok_line t = lx_line s"
    "tok_column t = lx_column s + 1" "tok_position t = lx_position s"
    using assms(3) by (auto simp: recovery_step_def new_token_def Let_def)
  show "token_step s t s2"
    unfolding token_step_def
    using body t lexes_refl [OF lexes_okD(1) [OF cs]]
    by (intro exI [of _ "[]"] exI [of _ body] exI [of _ s]) (simp add: fixed_token_def)
  show "tok_type t = T_Error" by (rule t)
qed

text \<open>What one round of either loop adds to the result of the rest.\<close>

definition stream_ok :: "lexer \<Rightarrow> token list \<Rightarrow> bool" where
  "stream_ok s ts \<longleftrightarrow>
     tiles (lx_rest s) (lx_byte_pos s) ts \<and> list_all (well_placed (lx_source s)) ts \<and>
     list_all (spelled (lx_source s)) ts"

lemma stream_ok_last:
  "token_step s t s1 \<Longrightarrow> tok_type t = T_Eof \<Longrightarrow> stream_ok s [t]"
  using tiles_step [of s t s1 "[]"] token_step_placed [of s t s1] by (simp add: stream_ok_def)

lemma stream_ok_Cons:
  assumes "token_step s t s1" "tok_type t \<noteq> T_Eof"
  shows "stream_ok s1 ts \<Longrightarrow> stream_ok s (t # ts)" "lx_remaining s1 < lx_remaining s" "lex_ok s1"
proof -
  obtain cs where cs: "lexes s cs s1" "cs \<noteq> []"
    using token_step_lexes [OF assms(1)] assms(2) by blast
  have src: "lx_source s1 = lx_source s" using lexes_ctxD [OF cs(1)] by (simp add: same_ctx_def)
  show "stream_ok s1 ts \<Longrightarrow> stream_ok s (t # ts)"
    using tiles_step [OF assms(1), of ts] token_step_placed [OF assms(1)] assms(2)
    by (simp add: stream_ok_def src)
  show "lx_remaining s1 < lx_remaining s" using cs by (auto simp: moves_def intro!: moves_remaining)
  show "lex_ok s1" using cs(1) by (rule lexes_okD)
qed

lemma recovery_loop_spec:
  assumes "lex_ok s" "xid_closed L"
  shows "\<exists>ts s1. recovery_loop L acc s = (Inr (acc @ ts), s1) \<and> stream_ok s ts"
  using assms
proof (induction "lx_remaining s" arbitrary: acc s rule: less_induct)
  case (less s)
  note ok = less.prems(1) and xid = less.prems(2)
  have cont: "\<exists>ts s1. recovery_loop L (acc @ [t]) s2 = (Inr (acc @ ts), s1) \<and> stream_ok s ts"
    if st: "token_step s t s2" "tok_type t \<noteq> T_Eof" for t s2
    using less.hyps [OF stream_ok_Cons(2,3) [OF st] xid, of "acc @ [t]"] stream_ok_Cons(1) [OF st]
    by fastforce
  show ?case
  proof (cases "next_token L s")
    case (Pair r s1)
    show ?thesis
    proof (cases r)
      case (Inl e)
      note err = next_token_error [OF ok xid Pair [unfolded Inl]]
      obtain e' where e: "e = LexError e'" using err by (cases e) auto
      obtain t s2 where rs: "recovery_step s s1 = (t, s2)" by (metis surj_pair)
      have "reaches s s1" "lx_current s \<noteq> None" using err by auto
      note step = recovery_step_token [OF this rs]
      have "tok_type t \<noteq> T_Eof" using step(2) by simp
      with cont [OF step(1)] stream_ok_Cons(2) [OF step(1)] show ?thesis
        by (simp add: recovery_loop_error [OF Pair [unfolded Inl e]] rs)
    next
      case (Inr t)
      note step = next_token_step [OF ok xid Pair [unfolded Inr]]
      show ?thesis
      proof (cases "tok_type t = T_Eof")
        case True
        with Pair Inr stream_ok_last [OF step] show ?thesis
          by (subst recovery_loop.simps) simp
      next
        case False
        with Pair Inr cont [OF step] stream_ok_Cons(2) [OF step] show ?thesis
          by (subst recovery_loop.simps) simp
      qed
    qed
  qed
qed

end
