(* ===== verification/Lexer_Correct.thy ===== *)
theory Lexer_Correct
  imports Token_Stream
begin

text \<open>
  What the lexer promises its callers. \<open>token_source\<close> is the interface the syntax tree is
  built on: a lexing function that never panics or hangs, and whose token streams tile the
  source. Both entry points of the lexer provide it.
\<close>

section \<open>The interface\<close>

locale token_source =
  fixes lexf :: "lex_env \<Rightarrow> ustr \<Rightarrow> lex_fail + token list"
  assumes lexf_safe: "xid_closed L \<Longrightarrow> lexf L src \<noteq> Inl Panic \<and> lexf L src \<noteq> Inl Diverge"
    and lexf_tiles: "xid_closed L \<Longrightarrow> lexf L src = Inr toks \<Longrightarrow> tiles src 0 toks"
    and lexf_placed: "xid_closed L \<Longrightarrow> lexf L src = Inr toks \<Longrightarrow> list_all (well_placed src) toks"
    and lexf_spelled: "xid_closed L \<Longrightarrow> lexf L src = Inr toks \<Longrightarrow> list_all (spelled src) toks"

lemma lex_ok_recovery: "lex_ok s \<Longrightarrow> lex_ok (s\<lparr>lx_recovery := b\<rparr>)"
  by (simp add: lex_ok_def lx_done_def lx_rest_def)

lemma tokenize_spec:
  assumes "xid_closed L"
  shows "case tokenize L src of
      Inr toks \<Rightarrow> tiles src 0 toks \<and> list_all (well_placed src) toks \<and> list_all (spelled src) toks
    | Inl e \<Rightarrow> e \<noteq> Panic \<and> e \<noteq> Diverge"
  using tokenize_loop_spec [OF new_lexer_ok [of src] assms, where acc = "[]"] new_lexer_rest [of src]
  by (auto simp: tokenize_def split: prod.splits sum.splits)

lemma tokenize_recovery_spec:
  assumes "xid_closed L"
  shows "\<exists>toks. tokenize_recovery L src = Inr toks \<and> tiles src 0 toks \<and>
    list_all (well_placed src) toks \<and> list_all (spelled src) toks"
proof -
  let ?s = "new_lexer src\<lparr>lx_recovery := True\<rparr>"
  have "lx_rest ?s = src" "lx_source ?s = src" "lx_byte_pos ?s = 0"
    using new_lexer_rest [of src] by (simp_all add: lx_rest_def)
  with recovery_loop_spec [OF lex_ok_recovery [OF new_lexer_ok [of src], of True] assms, where acc = "[]"]
  show ?thesis by (fastforce simp: tokenize_recovery_def stream_ok_def)
qed

lemma token_sourceI:
  assumes "\<And>L src. xid_closed L \<Longrightarrow> (case lexf L src of
      Inr toks \<Rightarrow> tiles src 0 toks \<and> list_all (well_placed src) toks \<and> list_all (spelled src) toks
    | Inl e \<Rightarrow> e \<noteq> Panic \<and> e \<noteq> Diverge)"
  shows "token_source lexf"
proof
  fix L src assume "xid_closed L"
  note spec = assms [OF this, of src]
  show "lexf L src \<noteq> Inl Panic \<and> lexf L src \<noteq> Inl Diverge"
    using spec by auto
  fix toks assume "lexf L src = Inr toks"
  with spec show "tiles src 0 toks" "list_all (well_placed src) toks" "list_all (spelled src) toks"
    by simp_all
qed

interpretation strict: token_source tokenize
  by (rule token_sourceI [OF tokenize_spec])

interpretation recovering: token_source tokenize_recovery
proof (rule token_sourceI)
  fix L src assume "xid_closed L"
  from tokenize_recovery_spec [OF this, of src]
  show "case tokenize_recovery L src of
      Inr toks \<Rightarrow> tiles src 0 toks \<and> list_all (well_placed src) toks \<and> list_all (spelled src) toks
    | Inl e \<Rightarrow> e \<noteq> Panic \<and> e \<noteq> Diverge"
    by auto
qed

section \<open>Properties of token streams\<close>

definition ascii_lex_env :: lex_env where
  "ascii_lex_env = \<lparr>
     le_unicode = ascii_env, le_parse_f64 = (\<lambda>s. None), le_i64_to_f64 = (\<lambda>i. 0),
     le_parse_bigint = (\<lambda>b s. None), le_bigint_to_f64 = (\<lambda>n. None)\<rparr>"

lemma ascii_xid_closed: "xid_closed ascii_lex_env"
  by (auto simp: xid_closed_def ascii_lex_env_def ascii_env_def is_ascii_alphanumeric_def)

definition sample_tokens :: "token list" where
  "sample_tokens =
     [new_token (T_Identifier (lit ''a'')) 1 1 1 0 1, new_token T_PlusColon 3 1 3 2 4,
      new_token (T_Identifier (lit ''b'')) 5 1 5 4 5, new_token T_Eof 5 1 6 5 5]"

lemma sample_tokenize: "tokenize ascii_lex_env (lit ''a +:b'') = Inr sample_tokens"
  by code_simp

text \<open>C3: A strict token stream tiles the source: whenever \<open>tokenize\<close> succeeds, blank gaps
  (never a newline) and non-empty token texts alternate from byte 0 to the end of the source
  without overlap or loss, and the stream ends with exactly one end-of-input token.\<close>

theorem tokenize_tiles:
  assumes "xid_closed L" "tokenize L src = Inr toks"
  shows "tiles src 0 toks"
  by (rule strict.lexf_tiles [OF assms])

theorem tokenize_tiles_witness: "tiles (lit ''a +:b'') 0 sample_tokens"
  by (rule tokenize_tiles [OF ascii_xid_closed sample_tokenize])

text \<open>C4: Lexing a source never panics (no slice off a character boundary) and never loops:
  \<open>tokenize\<close> returns tokens or an error value. The tables of identifier characters are only
  required to let an identifier continue with whatever may start one, as Unicode does.\<close>

theorem tokenize_safe:
  assumes "xid_closed L"
  shows "case tokenize L src of Inr _ \<Rightarrow> True | Inl e \<Rightarrow> \<exists>w. e = LexError w"
  using strict.lexf_safe [OF assms, of src] by (auto split: sum.splits) (metis lex_fail.exhaust)

theorem tokenize_safe_witness:
  "case tokenize ascii_lex_env (lit ''@'') of Inr _ \<Rightarrow> True | Inl e \<Rightarrow> \<exists>w. e = LexError w"
  by (rule tokenize_safe [OF ascii_xid_closed])

text \<open>C5: Error recovery is total: \<open>tokenize_recovery\<close> always returns a token stream, for any
  text, and that stream tiles the source in the same sense, error tokens covering the text that
  is no token.\<close>

theorem tokenize_recovery_total:
  assumes "xid_closed L"
  shows "\<exists>toks. tokenize_recovery L src = Inr toks \<and> tiles src 0 toks"
  using tokenize_recovery_spec [OF assms, of src] by blast

theorem tokenize_recovery_total_witness:
  "\<exists>toks. tokenize_recovery ascii_lex_env (lit ''a @ `9'') = Inr toks \<and> tiles (lit ''a @ `9'') 0 toks"
  by (rule tokenize_recovery_total [OF ascii_xid_closed])

text \<open>C6: The position fields are right: the line, column and character position of every token
  are those of the text before it, and a token that has one spelling (an operator, bracket or
  \<open>@\<close>-form) carries exactly that spelling in the source.\<close>

theorem tokenize_positions:
  assumes "xid_closed L" "tokenize L src = Inr toks" "t \<in> set toks"
  shows "well_placed src t \<and>
    (fixed_token (tok_type t) \<longrightarrow>
       str_slice src (tok_start t) (tok_end t) = Some (spelling (tok_type t)))"
  using strict.lexf_placed [OF assms(1,2)] strict.lexf_spelled [OF assms(1,2)] assms(3)
  by (auto simp: list_all_iff spelled_def)

theorem tokenize_positions_witness:
  "well_placed (lit ''a +:b'') (new_token T_PlusColon 3 1 3 2 4) \<and>
   str_slice (lit ''a +:b'') 2 4 = Some (lit ''+:'')"
  using tokenize_positions [OF ascii_xid_closed sample_tokenize, of "new_token T_PlusColon 3 1 3 2 4"]
  by (simp add: sample_tokens_def fixed_token_def spelling_defs new_token_def)

end
