(* ===== verification/Literal_Roundtrip.thy ===== *)
theory Literal_Roundtrip
  imports Lexer_Correct
begin

text \<open>
  What literal texts mean to the lexer: a text printed with \<open>quote_string\<close> is lexed back to the
  string it came from, and a run of decimal digits to its number.
\<close>

section \<open>A source that is one token\<close>

lemma tokenize_single:
  assumes "lex_char L c (new_lexer (c # cs)) = (Inr ty, s1)" "lx_rest s1 = []"
    "reaches (new_lexer (c # cs)) s1" "\<not> is_blank (Some c)"
  shows "\<exists>e. tokenize L (c # cs) = Inr [new_token ty 1 1 1 0 (blen (c # cs)), e] \<and> tok_type e = T_Eof"
proof -
  let ?s = "new_lexer (c # cs)"
  note ok = new_lexer_ok [of "c # cs"] and rest = new_lexer_rest [of "c # cs"]
  have cur: "lx_current ?s = Some c" using lex_ok_current [OF ok] rest by simp
  have ok1: "lex_ok s1" using assms(3) by (rule reaches_okD)
  have pos: "lx_position ?s = 1" "lx_line ?s = 1" "lx_column ?s = 0"
    using lex_ok_counters [OF ok] rest cur by simp_all
  have endpos: "lx_byte_pos s1 = blen (c # cs)"
  proof -
    obtain ds where ds: "lexes ?s ds s1" using assms(3) by (auto simp: reaches_def)
    then show ?thesis
      using lexes_restD [OF ds] lexes_byte_posD [OF ds] assms(2) rest by simp
  qed
  have cur1: "lx_current s1 = None" using lex_ok_current [OF ok1] assms(2) by simp
  have nt: "next_token L ?s = (Inr (new_token ty 1 1 1 0 (blen (c # cs))), s1)"
    using cur assms(1,4) pos rest endpos
    by (subst next_token.simps) (simp add: emit_def)
  have nt1: "next_token L s1 = emit s1 (Inr T_Eof, s1)"
    using cur1 by (subst next_token.simps) (simp add: is_blank_def)
  have "ty \<noteq> T_Eof" using lex_char_not_Eof [OF assms(1)] by simp
  moreover have "lx_remaining s1 < lx_remaining ?s"
    using assms(2) rest by (simp add: lx_remaining_rest)
  ultimately have "tokenize L (c # cs) =
      Inr [new_token ty 1 1 1 0 (blen (c # cs)), new_token T_Eof (lx_position s1) (lx_line s1)
        (lx_column s1 + 1) (lx_byte_pos s1) (lx_byte_pos s1)]"
    unfolding tokenize_def
    by (subst tokenize_loop.simps, subst tokenize_loop.simps)
      (simp add: nt nt1 emit_def new_token_def)
  then show ?thesis by (simp add: new_token_def)
qed

section \<open>Quoted strings\<close>

text \<open>What \<open>single_quoted\<close> does to the remaining text.\<close>

fun scan_quoted :: "ustr \<Rightarrow> ustr \<Rightarrow> (ustr \<times> bool) \<times> ustr" where
  "scan_quoted raw [] = ((raw, False), [])"
| "scan_quoted raw (c # cs) =
     (if c = ch_backslash then
        (case cs of [] \<Rightarrow> ((raw @ [c], False), [])
         | d # ds \<Rightarrow> scan_quoted (raw @ [c, d]) ds)
      else if c = ch_dquote then ((raw, True), cs)
      else scan_quoted (raw @ [c]) cs)"

lemma single_quoted_scan:
  "lex_ok s \<Longrightarrow> fst (single_quoted raw s) = fst (scan_quoted raw (lx_rest s)) \<and>
    lx_rest (snd (single_quoted raw s)) = snd (scan_quoted raw (lx_rest s))"
proof (induction raw s rule: single_quoted.induct)
  case (1 raw s)
  note ok1 = lex_ok_advance(1) [OF "1.prems"]
  note ok2 = lex_ok_advance(1) [OF ok1]
  note win = lex_ok_window [OF "1.prems"] and win1 = lex_ok_window [OF ok1]
  show ?case
    using "1.IH" ok1 ok2 win win1
    by (subst (1 2) single_quoted.simps) (simp add: Let_def split: option.split)
qed

lemma scan_quoted_plain:
  "list_all (\<lambda>c. c \<noteq> ch_backslash \<and> c \<noteq> ch_dquote) cs \<Longrightarrow>
   scan_quoted raw (cs @ rest) = scan_quoted (raw @ cs) rest"
  by (induction cs arbitrary: raw) auto

lemma hex_digits_plain: "list_all (\<lambda>c. c \<noteq> ch_backslash \<and> c \<noteq> ch_dquote) (hex_digits n)"
  using hex_digits_props [of n] by (auto simp: list_all_iff is_ascii_hexdigit_def)

lemma scan_quoted_escape_char:
  "scan_quoted raw (escape_char ch_dquote c @ rest) = scan_quoted (raw @ escape_char ch_dquote c) rest"
  using scan_quoted_plain [OF hex_digits_plain, of "raw @ [ch_backslash, ch_u, ch_lbrace]" c "ch_rbrace # rest"]
  by (simp add: escape_char_def escape_unicode_def)

interpretation scan_dquote: char_codec "escape_char ch_dquote" scan_quoted
  "\<lambda>c raw. raw @ escape_char ch_dquote c" "\<lambda>_. True"
  by unfold_locales (rule scan_quoted_escape_char)

lemma fold_append_concat: "fold (\<lambda>c raw. raw @ f c) cs raw = raw @ concat (map f cs)"
  by (induction cs arbitrary: raw) auto

lemma scan_quoted_escaped:
  "scan_quoted [] (escape_string_inner x ch_dquote @ ch_dquote # r) =
    ((escape_string_inner x ch_dquote, True), r)"
  using scan_dquote.run_encode_all [of x "[]" "ch_dquote # r"]
  by (simp add: escape_string_inner_def fold_append_concat list_all_iff)

lemma count_quotes_replicate:
  assumes "lex_ok s" "lx_rest s = replicate n ch_dquote @ r" "case r of [] \<Rightarrow> True | c # _ \<Rightarrow> c \<noteq> ch_dquote"
  shows "\<exists>t. count_quotes k s = (k + n, t) \<and> lx_rest t = r \<and> reaches s t"
  using assms
proof (induction n arbitrary: s k)
  case 0
  then show ?case
    using lex_ok_current [OF 0(1)] reaches_refl [OF 0(1)]
    by (subst count_quotes.simps) (auto split: list.splits)
next
  case (Suc n)
  note adv = lex_ok_advance(1) [OF Suc.prems(1)]
  have "lx_current s = Some ch_dquote" "lx_rest (advance s) = replicate n ch_dquote @ r"
    using Suc.prems lex_ok_current lex_ok_rest_advance by simp_all
  with Suc.IH [OF adv, of "k + 1"] Suc.prems(3) advance_reaches [OF Suc.prems(1)] show ?case
    by (subst count_quotes.simps) (auto intro: reaches_trans)
qed

lemma escape_char_hd: "\<exists>d ds. escape_char ch_dquote c = d # ds \<and> d \<noteq> ch_dquote"
  by (auto simp: escape_char_def escape_unicode_def)

lemma escape_inner_hd:
  "x \<noteq> [] \<Longrightarrow> \<exists>d ds. escape_string_inner x ch_dquote = d # ds \<and> d \<noteq> ch_dquote"
  using escape_char_hd [of "hd x"] by (cases x) (auto simp: escape_string_inner_def)

lemma read_quoted_string:
  assumes "list_all is_scalar x" "lex_ok s" "lx_rest s = quote_string x ch_dquote @ r"
    "case r of [] \<Rightarrow> True | c # _ \<Rightarrow> c \<noteq> ch_dquote"
  shows "\<exists>t. read_string_literal L b s =
      (Inr (if length x = 1 then T_Character (hd x) else T_String x), t) \<and> lx_rest t = r"
proof (cases "x = []")
  case True
  have "lx_rest s = replicate 2 ch_dquote @ r"
    using assms(3) True by (simp add: quote_string_def escape_string_inner_def numeral_2_eq_2)
  from count_quotes_replicate [OF assms(2) this assms(4), of 0] True show ?thesis
    by (auto simp: read_string_literal_def)
next
  case False
  let ?e = "escape_string_inner x ch_dquote"
  have "lx_rest s = replicate 1 ch_dquote @ (?e @ ch_dquote # r)"
    using assms(3) by (simp add: quote_string_def)
  moreover have "case ?e @ ch_dquote # r of [] \<Rightarrow> True | c # _ \<Rightarrow> c \<noteq> ch_dquote"
    using escape_inner_hd [OF False] by auto
  ultimately obtain t where t: "count_quotes 0 s = (1, t)" "lx_rest t = ?e @ ch_dquote # r" "reaches s t"
    using count_quotes_replicate [OF assms(2), of 1 _ 0] by fastforce
  have "fst (single_quoted [] t) = (?e, True)" "lx_rest (snd (single_quoted [] t)) = r"
    using single_quoted_scan [OF reaches_okD(1) [OF t(3)], of "[]"] t(2) scan_quoted_escaped by simp_all
  moreover have "decode_string_content L u ?e n = Inr x" for u n
    using unescape_escape_char_list [OF assms(1), of ch_dquote] by (simp add: decode_string_content_def)
  ultimately show ?thesis
    using t(1) False
    by (cases "single_quoted [] t")
      (auto simp: read_string_literal_def split: list.splits)
qed

text \<open>C7: Printing a text as a string literal and lexing the result gives the text back: for
  every list of Unicode scalar values, \<open>tokenize\<close> of \<open>quote_string x\<close> is exactly one literal
  token that spans the whole source, a character literal for one character and a string literal
  otherwise, followed by end of input.\<close>

theorem tokenize_quote_string:
  assumes "list_all is_scalar x"
  shows "\<exists>e. tokenize L (quote_string x ch_dquote) =
      Inr [new_token (if length x = 1 then T_Character (hd x) else T_String x) 1 1 1 0
             (blen (quote_string x ch_dquote)), e] \<and> tok_type e = T_Eof"
proof -
  obtain cs where src: "quote_string x ch_dquote = ch_dquote # cs" by (simp add: quote_string_def)
  let ?s = "new_lexer (ch_dquote # cs)"
  note ok = new_lexer_ok [of "ch_dquote # cs"] and rest = new_lexer_rest [of "ch_dquote # cs"]
  obtain t where t: "read_string_literal L 0 ?s =
      (Inr (if length x = 1 then T_Character (hd x) else T_String x), t)" "lx_rest t = []"
    using read_quoted_string [OF assms ok, of "[]"] rest src by fastforce
  have "lex_char L ch_dquote ?s = read_string_literal L 0 ?s"
    using rest by (simp add: lex_char_def lex_operator_def lex_single_def)
  moreover have "reaches ?s t"
    using read_string_literal_safe [OF reaches_refl [OF ok] boundary_here [OF ok], of L] t(1) rest
      lex_ok_current [OF ok]
    by (simp add: lex_safe_def)
  ultimately show ?thesis
    using tokenize_single [of L ch_dquote cs _ t] t src by (simp add: is_blank_def)
qed

theorem tokenize_quote_string_witness:
  "list_all is_scalar [10, 233, ch_dquote] \<and>
   (\<exists>e. tokenize ascii_lex_env (quote_string [10, 233, ch_dquote] ch_dquote) =
      Inr [new_token (T_String [10, 233, ch_dquote]) 1 1 1 0 8, e] \<and> tok_type e = T_Eof)"
proof -
  have h: "list_all is_scalar [10, 233, ch_dquote]" by (simp add: is_scalar_def)
  have "blen (quote_string [10, 233, ch_dquote] ch_dquote) = 8"
    by (simp add: quote_string_def escape_string_inner_def escape_char_def is_control_def len_utf8_def)
  with h tokenize_quote_string [OF h, of ascii_lex_env] show ?thesis by simp
qed

section \<open>Decimal integers\<close>

lemma decimal_digits_all:
  assumes "lex_ok s" "lx_rest s = ds" "list_all is_ascii_digit ds"
  shows "\<exists>t. decimal_digits raw False False s = ((raw @ ds, False), t) \<and> lx_rest t = []"
  using assms
proof (induction ds arbitrary: s raw)
  case Nil
  then show ?case
    using lex_ok_current [OF Nil(1)] by (subst decimal_digits.simps) simp
next
  case (Cons d ds)
  have "lx_current s = Some d" "lx_rest (advance s) = ds"
    using Cons.prems lex_ok_current lex_ok_rest_advance by simp_all
  with Cons.IH [OF lex_ok_advance(1) [OF Cons.prems(1)], of "raw @ [d]"] Cons.prems(3) show ?case
    by (subst decimal_digits.simps) simp
qed

lemma sint_word_of_int_small:
  "0 \<le> k \<Longrightarrow> k < 2 ^ 63 \<Longrightarrow> sint (word_of_int k :: i64) = k"
  unfolding int_word_sint by simp

text \<open>The number that a list of decimal digits denotes.\<close>

definition decimal_value :: "ustr \<Rightarrow> nat" where
  "decimal_value ds = foldl (\<lambda>v d. v * 10 + (d - 48)) 0 ds"

lemma digits_value_decimal:
  "list_all is_ascii_digit ds \<Longrightarrow>
   digits_value 10 v ds = Some (foldl (\<lambda>v d. v * 10 + (d - 48)) v ds)"
  by (induction ds arbitrary: v) (auto simp: to_digit_def is_ascii_digit_def Let_def)

lemma i64_from_decimal:
  assumes "list_all is_ascii_digit ds" "ds \<noteq> []"
  shows "i64_from_str_radix 10 ds =
    (if decimal_value ds < 2 ^ 63 then Some (word_of_int (int (decimal_value ds))) else None)"
proof -
  obtain d r where d: "ds = d # r" "is_ascii_digit d" using assms by (cases ds) auto
  then have "d \<noteq> ch_minus" "d \<noteq> ch_plus" by (auto simp: is_ascii_digit_def)
  then show ?thesis
    using digits_value_decimal [OF assms(1), of 0] d
    by (simp add: i64_from_str_radix_def Let_def decimal_value_def)
qed

lemma strip_underscores_digits: "list_all is_ascii_digit ds \<Longrightarrow> strip_underscores ds = ds"
  by (induction ds) (auto simp: strip_underscores_def is_ascii_digit_def)

text \<open>A run of decimal digits below \<open>2 ^ 63\<close> lexes to the one integer token of that value
  (read as a signed 64-bit word, no wrap-around), followed by end of input.\<close>

theorem tokenize_decimal:
  assumes "ds \<noteq> []" "list_all is_ascii_digit ds" "decimal_value ds < 2 ^ 63"
  shows "\<exists>e v. tokenize L ds = Inr [new_token (T_Integer v) 1 1 1 0 (length ds), e] \<and>
    tok_type e = T_Eof \<and> sint v = int (decimal_value ds)"
proof -
  obtain c cs where ds: "ds = c # cs" "is_ascii_digit c" using assms(1,2) by (cases ds) auto
  let ?s = "new_lexer ds" and ?v = "word_of_int (int (decimal_value ds)) :: i64"
  note ok = new_lexer_ok [of ds] and rest = new_lexer_rest [of ds]
  obtain t where t: "decimal_digits [] False False ?s = ((ds, False), t)" "lx_rest t = []"
    using decimal_digits_all [OF ok rest(1) assms(2), of "[]"] by auto
  have cur: "lx_current ?s = Some c" "lx_la1 ?s = (case cs of [] \<Rightarrow> None | d # _ \<Rightarrow> Some d)"
    using lex_ok_current [OF ok] lex_ok_la1 [OF ok] rest(1) ds by (simp_all split: list.split)
  have "prefix_base ?s = None"
    using assms(2) ds cur by (auto simp: prefix_base_def is_ascii_digit_def split: list.splits)
  moreover have "reaches ?s t"
    using decimal_digits_reaches [OF reaches_refl [OF ok], of "[]" False False] t by simp
  then have "lx_current t = None"
    using lex_ok_current [OF reaches_okD(1)] t(2) by fastforce
  ultimately have num: "read_number L 0 ?s = (Inr (T_Integer ?v), t)"
    using t i64_from_decimal [OF assms(2,1)] assms(3) strip_underscores_digits [OF assms(2)]
    by (simp add: read_number_def read_decimal_number_def Let_def finish_integer_def)
  have "lex_char L c ?s = read_number L 0 ?s"
    using ds(2) rest
    by (auto simp: lex_char_def lex_operator_def lex_single_def is_ascii_digit_def)
  then have "\<exists>e. tokenize L ds = Inr [new_token (T_Integer ?v) 1 1 1 0 (blen ds), e] \<and> tok_type e = T_Eof"
    using tokenize_single [of L c cs "T_Integer ?v" t] num t(2) \<open>reaches ?s t\<close> ds
    by (simp add: is_blank_def is_ascii_digit_def)
  moreover have "blen ds = length ds"
    using assms(2) by (induction ds) (auto simp: len_utf8_def is_ascii_digit_def)
  moreover have "sint ?v = int (decimal_value ds)"
    by (rule sint_word_of_int_small) (use assms(3) in simp_all)
  ultimately show ?thesis by auto
qed

theorem tokenize_decimal_witness:
  "decimal_value (lit ''9007'') = 9007 \<and>
   (\<exists>e v. tokenize ascii_lex_env (lit ''9007'') = Inr [new_token (T_Integer v) 1 1 1 0 4, e] \<and>
     tok_type e = T_Eof \<and> sint v = 9007)"
proof -
  have h: "lit ''9007'' \<noteq> []" "list_all is_ascii_digit (lit ''9007'')"
    "decimal_value (lit ''9007'') = 9007" "length (lit ''9007'') = 4"
    by (simp_all add: lit_def is_ascii_digit_def decimal_value_def)
  with tokenize_decimal [OF h(1,2), of ascii_lex_env] show ?thesis by simp
qed

end
