(* ===== verification/Syntax_Kind.thy ===== *)
theory Syntax_Kind
  imports Token
begin

text \<open>
  Kinds of the syntax tree: \<open>wqpl/src/cst/kind.rs\<close>, and the map from token types in
  \<open>wqpl/src/cst/lex.rs\<close>. The variants of \<open>SyntaxKind\<close> are grouped in the order of the enum
  and named \<open>K_<Variant>\<close>; a variant's discriminant is its position in \<open>all_kinds\<close>.
\<close>

section \<open>Kinds\<close>

datatype trivia_kind =
    KT_Whitespace | KT_Newline | KT_Comment

datatype literal_kind =
    KL_IntLit | KL_BigIntLit | KL_FloatLit | KL_ImagLit | KL_CharLit | KL_StringLit
    | KL_TagLit | KL_Backtick | KL_InfLit | KL_TrueKw | KL_FalseKw | KL_FString

datatype word_kind =
    KW_Ident | KW_WLoopKw | KW_NLoopKw | KW_BlockKw | KW_AndKw | KW_OrKw | KW_Apostrophe
    | KW_Ellipsis

datatype at_kind =
    KA_AtBreak | KA_AtContinue | KA_AtReturn | KA_AtDebug | KA_AtPause | KA_AtDepth
    | KA_AtSymbolic | KA_AtTry | KA_AtImport

datatype arith_kind =
    KO_Dollar | KO_DollarDot | KO_DollarDollar | KO_Plus | KO_Minus | KO_Star | KO_Slash
    | KO_SlashDot | KO_Percent | KO_Power | KO_PowerDot | KO_Matmul | KO_FloorDiv

datatype aug_kind =
    KG_PlusColon | KG_MinusColon | KG_StarColon | KG_SlashColon | KG_SlashDotColon
    | KG_PercentColon | KG_PowerColon | KG_PowerDotColon | KG_CommaColon | KG_FloorDivColon

datatype compare_kind =
    KC_Colon | KC_EqEq | KC_EqDot | KC_NotEq | KC_NotEqDot | KC_Lt | KC_Le | KC_Gt | KC_Ge

datatype sigil_kind =
    KS_Hash | KS_Pipe | KS_PipeDot | KS_PipePipe | KS_PipePipeDot | KS_RangeOp
    | KS_RangeIncOp

datatype punct_kind =
    KP_LParen | KP_RParen | KP_LBrack | KP_RBrack | KP_LBrace | KP_RBrace | KP_Semicolon
    | KP_Comma | KP_Bang | KP_ScriptLine | KP_ErrorTok

datatype document_kind =
    KD_Root | KD_Block | KD_Shebang | KD_ScriptDirective

datatype expr_kind =
    KE_LiteralExpr | KE_VarExpr | KE_OuterVarExpr | KE_BinaryExpr | KE_UnaryExpr
    | KE_ComparisonChainExpr | KE_AssignExpr | KE_OuterAssignExpr | KE_UnpackAssignExpr
    | KE_IndexAssignExpr | KE_MutatingIndexExpr | KE_MutatingIndexAssignExpr | KE_RangeExpr
    | KE_ListExpr | KE_DictExpr | KE_DictPair

datatype form_kind =
    KF_ParenExpr | KF_PostfixExpr | KF_LazyBoolExpr | KF_NamedArgExpr | KF_ArgList
    | KF_FStringExpr | KF_CondExpr | KF_CondDotExpr | KF_CondChainExpr | KF_WLoopExpr
    | KF_NLoopExpr | KF_BlockExpr | KF_FunctionExpr | KF_ParamList | KF_Param
    | KF_ReturnExpr | KF_DebugExpr | KF_PauseExpr | KF_TryExpr | KF_ImportExpr
    | KF_SymbolicExpr | KF_BreakExpr | KF_ContinueExpr | KF_EllipsisExpr | KF_PipeExpr
    | KF_PipeTapExpr

datatype syntax_kind =
    K_Trivia trivia_kind
  | K_Literal literal_kind
  | K_Word word_kind
  | K_AtForm at_kind
  | K_Arith arith_kind
  | K_Aug aug_kind
  | K_Compare compare_kind
  | K_Sigil sigil_kind
  | K_Punct punct_kind
  | K_LastToken
  | K_Document document_kind
  | K_Expr expr_kind
  | K_Form form_kind
  | K_ErrorNode

abbreviation K_Whitespace :: syntax_kind where "K_Whitespace \<equiv> K_Trivia KT_Whitespace"
abbreviation K_Newline :: syntax_kind where "K_Newline \<equiv> K_Trivia KT_Newline"
abbreviation K_Comment :: syntax_kind where "K_Comment \<equiv> K_Trivia KT_Comment"
abbreviation K_IntLit :: syntax_kind where "K_IntLit \<equiv> K_Literal KL_IntLit"
abbreviation K_BigIntLit :: syntax_kind where "K_BigIntLit \<equiv> K_Literal KL_BigIntLit"
abbreviation K_FloatLit :: syntax_kind where "K_FloatLit \<equiv> K_Literal KL_FloatLit"
abbreviation K_ImagLit :: syntax_kind where "K_ImagLit \<equiv> K_Literal KL_ImagLit"
abbreviation K_CharLit :: syntax_kind where "K_CharLit \<equiv> K_Literal KL_CharLit"
abbreviation K_StringLit :: syntax_kind where "K_StringLit \<equiv> K_Literal KL_StringLit"
abbreviation K_TagLit :: syntax_kind where "K_TagLit \<equiv> K_Literal KL_TagLit"
abbreviation K_Backtick :: syntax_kind where "K_Backtick \<equiv> K_Literal KL_Backtick"
abbreviation K_InfLit :: syntax_kind where "K_InfLit \<equiv> K_Literal KL_InfLit"
abbreviation K_TrueKw :: syntax_kind where "K_TrueKw \<equiv> K_Literal KL_TrueKw"
abbreviation K_FalseKw :: syntax_kind where "K_FalseKw \<equiv> K_Literal KL_FalseKw"
abbreviation K_FString :: syntax_kind where "K_FString \<equiv> K_Literal KL_FString"
abbreviation K_Ident :: syntax_kind where "K_Ident \<equiv> K_Word KW_Ident"
abbreviation K_WLoopKw :: syntax_kind where "K_WLoopKw \<equiv> K_Word KW_WLoopKw"
abbreviation K_NLoopKw :: syntax_kind where "K_NLoopKw \<equiv> K_Word KW_NLoopKw"
abbreviation K_BlockKw :: syntax_kind where "K_BlockKw \<equiv> K_Word KW_BlockKw"
abbreviation K_AndKw :: syntax_kind where "K_AndKw \<equiv> K_Word KW_AndKw"
abbreviation K_OrKw :: syntax_kind where "K_OrKw \<equiv> K_Word KW_OrKw"
abbreviation K_Apostrophe :: syntax_kind where "K_Apostrophe \<equiv> K_Word KW_Apostrophe"
abbreviation K_Ellipsis :: syntax_kind where "K_Ellipsis \<equiv> K_Word KW_Ellipsis"
abbreviation K_AtBreak :: syntax_kind where "K_AtBreak \<equiv> K_AtForm KA_AtBreak"
abbreviation K_AtContinue :: syntax_kind where "K_AtContinue \<equiv> K_AtForm KA_AtContinue"
abbreviation K_AtReturn :: syntax_kind where "K_AtReturn \<equiv> K_AtForm KA_AtReturn"
abbreviation K_AtDebug :: syntax_kind where "K_AtDebug \<equiv> K_AtForm KA_AtDebug"
abbreviation K_AtPause :: syntax_kind where "K_AtPause \<equiv> K_AtForm KA_AtPause"
abbreviation K_AtDepth :: syntax_kind where "K_AtDepth \<equiv> K_AtForm KA_AtDepth"
abbreviation K_AtSymbolic :: syntax_kind where "K_AtSymbolic \<equiv> K_AtForm KA_AtSymbolic"
abbreviation K_AtTry :: syntax_kind where "K_AtTry \<equiv> K_AtForm KA_AtTry"
abbreviation K_AtImport :: syntax_kind where "K_AtImport \<equiv> K_AtForm KA_AtImport"
abbreviation K_Dollar :: syntax_kind where "K_Dollar \<equiv> K_Arith KO_Dollar"
abbreviation K_DollarDot :: syntax_kind where "K_DollarDot \<equiv> K_Arith KO_DollarDot"
abbreviation K_DollarDollar :: syntax_kind where "K_DollarDollar \<equiv> K_Arith KO_DollarDollar"
abbreviation K_Plus :: syntax_kind where "K_Plus \<equiv> K_Arith KO_Plus"
abbreviation K_Minus :: syntax_kind where "K_Minus \<equiv> K_Arith KO_Minus"
abbreviation K_Star :: syntax_kind where "K_Star \<equiv> K_Arith KO_Star"
abbreviation K_Slash :: syntax_kind where "K_Slash \<equiv> K_Arith KO_Slash"
abbreviation K_SlashDot :: syntax_kind where "K_SlashDot \<equiv> K_Arith KO_SlashDot"
abbreviation K_Percent :: syntax_kind where "K_Percent \<equiv> K_Arith KO_Percent"
abbreviation K_Power :: syntax_kind where "K_Power \<equiv> K_Arith KO_Power"
abbreviation K_PowerDot :: syntax_kind where "K_PowerDot \<equiv> K_Arith KO_PowerDot"
abbreviation K_Matmul :: syntax_kind where "K_Matmul \<equiv> K_Arith KO_Matmul"
abbreviation K_FloorDiv :: syntax_kind where "K_FloorDiv \<equiv> K_Arith KO_FloorDiv"
abbreviation K_PlusColon :: syntax_kind where "K_PlusColon \<equiv> K_Aug KG_PlusColon"
abbreviation K_MinusColon :: syntax_kind where "K_MinusColon \<equiv> K_Aug KG_MinusColon"
abbreviation K_StarColon :: syntax_kind where "K_StarColon \<equiv> K_Aug KG_StarColon"
abbreviation K_SlashColon :: syntax_kind where "K_SlashColon \<equiv> K_Aug KG_SlashColon"
abbreviation K_SlashDotColon :: syntax_kind where "K_SlashDotColon \<equiv> K_Aug KG_SlashDotColon"
abbreviation K_PercentColon :: syntax_kind where "K_PercentColon \<equiv> K_Aug KG_PercentColon"
abbreviation K_PowerColon :: syntax_kind where "K_PowerColon \<equiv> K_Aug KG_PowerColon"
abbreviation K_PowerDotColon :: syntax_kind where "K_PowerDotColon \<equiv> K_Aug KG_PowerDotColon"
abbreviation K_CommaColon :: syntax_kind where "K_CommaColon \<equiv> K_Aug KG_CommaColon"
abbreviation K_FloorDivColon :: syntax_kind where "K_FloorDivColon \<equiv> K_Aug KG_FloorDivColon"
abbreviation K_Colon :: syntax_kind where "K_Colon \<equiv> K_Compare KC_Colon"
abbreviation K_EqEq :: syntax_kind where "K_EqEq \<equiv> K_Compare KC_EqEq"
abbreviation K_EqDot :: syntax_kind where "K_EqDot \<equiv> K_Compare KC_EqDot"
abbreviation K_NotEq :: syntax_kind where "K_NotEq \<equiv> K_Compare KC_NotEq"
abbreviation K_NotEqDot :: syntax_kind where "K_NotEqDot \<equiv> K_Compare KC_NotEqDot"
abbreviation K_Lt :: syntax_kind where "K_Lt \<equiv> K_Compare KC_Lt"
abbreviation K_Le :: syntax_kind where "K_Le \<equiv> K_Compare KC_Le"
abbreviation K_Gt :: syntax_kind where "K_Gt \<equiv> K_Compare KC_Gt"
abbreviation K_Ge :: syntax_kind where "K_Ge \<equiv> K_Compare KC_Ge"
abbreviation K_Hash :: syntax_kind where "K_Hash \<equiv> K_Sigil KS_Hash"
abbreviation K_Pipe :: syntax_kind where "K_Pipe \<equiv> K_Sigil KS_Pipe"
abbreviation K_PipeDot :: syntax_kind where "K_PipeDot \<equiv> K_Sigil KS_PipeDot"
abbreviation K_PipePipe :: syntax_kind where "K_PipePipe \<equiv> K_Sigil KS_PipePipe"
abbreviation K_PipePipeDot :: syntax_kind where "K_PipePipeDot \<equiv> K_Sigil KS_PipePipeDot"
abbreviation K_RangeOp :: syntax_kind where "K_RangeOp \<equiv> K_Sigil KS_RangeOp"
abbreviation K_RangeIncOp :: syntax_kind where "K_RangeIncOp \<equiv> K_Sigil KS_RangeIncOp"
abbreviation K_LParen :: syntax_kind where "K_LParen \<equiv> K_Punct KP_LParen"
abbreviation K_RParen :: syntax_kind where "K_RParen \<equiv> K_Punct KP_RParen"
abbreviation K_LBrack :: syntax_kind where "K_LBrack \<equiv> K_Punct KP_LBrack"
abbreviation K_RBrack :: syntax_kind where "K_RBrack \<equiv> K_Punct KP_RBrack"
abbreviation K_LBrace :: syntax_kind where "K_LBrace \<equiv> K_Punct KP_LBrace"
abbreviation K_RBrace :: syntax_kind where "K_RBrace \<equiv> K_Punct KP_RBrace"
abbreviation K_Semicolon :: syntax_kind where "K_Semicolon \<equiv> K_Punct KP_Semicolon"
abbreviation K_Comma :: syntax_kind where "K_Comma \<equiv> K_Punct KP_Comma"
abbreviation K_Bang :: syntax_kind where "K_Bang \<equiv> K_Punct KP_Bang"
abbreviation K_ScriptLine :: syntax_kind where "K_ScriptLine \<equiv> K_Punct KP_ScriptLine"
abbreviation K_ErrorTok :: syntax_kind where "K_ErrorTok \<equiv> K_Punct KP_ErrorTok"
abbreviation K_Root :: syntax_kind where "K_Root \<equiv> K_Document KD_Root"
abbreviation K_Block :: syntax_kind where "K_Block \<equiv> K_Document KD_Block"
abbreviation K_Shebang :: syntax_kind where "K_Shebang \<equiv> K_Document KD_Shebang"
abbreviation K_ScriptDirective :: syntax_kind where "K_ScriptDirective \<equiv> K_Document KD_ScriptDirective"
abbreviation K_LiteralExpr :: syntax_kind where "K_LiteralExpr \<equiv> K_Expr KE_LiteralExpr"
abbreviation K_VarExpr :: syntax_kind where "K_VarExpr \<equiv> K_Expr KE_VarExpr"
abbreviation K_OuterVarExpr :: syntax_kind where "K_OuterVarExpr \<equiv> K_Expr KE_OuterVarExpr"
abbreviation K_BinaryExpr :: syntax_kind where "K_BinaryExpr \<equiv> K_Expr KE_BinaryExpr"
abbreviation K_UnaryExpr :: syntax_kind where "K_UnaryExpr \<equiv> K_Expr KE_UnaryExpr"
abbreviation K_ComparisonChainExpr :: syntax_kind where "K_ComparisonChainExpr \<equiv> K_Expr KE_ComparisonChainExpr"
abbreviation K_AssignExpr :: syntax_kind where "K_AssignExpr \<equiv> K_Expr KE_AssignExpr"
abbreviation K_OuterAssignExpr :: syntax_kind where "K_OuterAssignExpr \<equiv> K_Expr KE_OuterAssignExpr"
abbreviation K_UnpackAssignExpr :: syntax_kind where "K_UnpackAssignExpr \<equiv> K_Expr KE_UnpackAssignExpr"
abbreviation K_IndexAssignExpr :: syntax_kind where "K_IndexAssignExpr \<equiv> K_Expr KE_IndexAssignExpr"
abbreviation K_MutatingIndexExpr :: syntax_kind where "K_MutatingIndexExpr \<equiv> K_Expr KE_MutatingIndexExpr"
abbreviation K_MutatingIndexAssignExpr :: syntax_kind where "K_MutatingIndexAssignExpr \<equiv> K_Expr KE_MutatingIndexAssignExpr"
abbreviation K_RangeExpr :: syntax_kind where "K_RangeExpr \<equiv> K_Expr KE_RangeExpr"
abbreviation K_ListExpr :: syntax_kind where "K_ListExpr \<equiv> K_Expr KE_ListExpr"
abbreviation K_DictExpr :: syntax_kind where "K_DictExpr \<equiv> K_Expr KE_DictExpr"
abbreviation K_DictPair :: syntax_kind where "K_DictPair \<equiv> K_Expr KE_DictPair"
abbreviation K_ParenExpr :: syntax_kind where "K_ParenExpr \<equiv> K_Form KF_ParenExpr"
abbreviation K_PostfixExpr :: syntax_kind where "K_PostfixExpr \<equiv> K_Form KF_PostfixExpr"
abbreviation K_LazyBoolExpr :: syntax_kind where "K_LazyBoolExpr \<equiv> K_Form KF_LazyBoolExpr"
abbreviation K_NamedArgExpr :: syntax_kind where "K_NamedArgExpr \<equiv> K_Form KF_NamedArgExpr"
abbreviation K_ArgList :: syntax_kind where "K_ArgList \<equiv> K_Form KF_ArgList"
abbreviation K_FStringExpr :: syntax_kind where "K_FStringExpr \<equiv> K_Form KF_FStringExpr"
abbreviation K_CondExpr :: syntax_kind where "K_CondExpr \<equiv> K_Form KF_CondExpr"
abbreviation K_CondDotExpr :: syntax_kind where "K_CondDotExpr \<equiv> K_Form KF_CondDotExpr"
abbreviation K_CondChainExpr :: syntax_kind where "K_CondChainExpr \<equiv> K_Form KF_CondChainExpr"
abbreviation K_WLoopExpr :: syntax_kind where "K_WLoopExpr \<equiv> K_Form KF_WLoopExpr"
abbreviation K_NLoopExpr :: syntax_kind where "K_NLoopExpr \<equiv> K_Form KF_NLoopExpr"
abbreviation K_BlockExpr :: syntax_kind where "K_BlockExpr \<equiv> K_Form KF_BlockExpr"
abbreviation K_FunctionExpr :: syntax_kind where "K_FunctionExpr \<equiv> K_Form KF_FunctionExpr"
abbreviation K_ParamList :: syntax_kind where "K_ParamList \<equiv> K_Form KF_ParamList"
abbreviation K_Param :: syntax_kind where "K_Param \<equiv> K_Form KF_Param"
abbreviation K_ReturnExpr :: syntax_kind where "K_ReturnExpr \<equiv> K_Form KF_ReturnExpr"
abbreviation K_DebugExpr :: syntax_kind where "K_DebugExpr \<equiv> K_Form KF_DebugExpr"
abbreviation K_PauseExpr :: syntax_kind where "K_PauseExpr \<equiv> K_Form KF_PauseExpr"
abbreviation K_TryExpr :: syntax_kind where "K_TryExpr \<equiv> K_Form KF_TryExpr"
abbreviation K_ImportExpr :: syntax_kind where "K_ImportExpr \<equiv> K_Form KF_ImportExpr"
abbreviation K_SymbolicExpr :: syntax_kind where "K_SymbolicExpr \<equiv> K_Form KF_SymbolicExpr"
abbreviation K_BreakExpr :: syntax_kind where "K_BreakExpr \<equiv> K_Form KF_BreakExpr"
abbreviation K_ContinueExpr :: syntax_kind where "K_ContinueExpr \<equiv> K_Form KF_ContinueExpr"
abbreviation K_EllipsisExpr :: syntax_kind where "K_EllipsisExpr \<equiv> K_Form KF_EllipsisExpr"
abbreviation K_PipeExpr :: syntax_kind where "K_PipeExpr \<equiv> K_Form KF_PipeExpr"
abbreviation K_PipeTapExpr :: syntax_kind where "K_PipeTapExpr \<equiv> K_Form KF_PipeTapExpr"

section \<open>Discriminants\<close>

text \<open>All variants, in the order of the enum.\<close>

definition all_kinds :: "syntax_kind list" where
  "all_kinds =
    [K_Whitespace, K_Newline, K_Comment, K_IntLit, K_BigIntLit, K_FloatLit, K_ImagLit,
     K_CharLit, K_StringLit, K_TagLit, K_Backtick, K_InfLit, K_TrueKw, K_FalseKw,
     K_FString, K_Ident, K_WLoopKw, K_NLoopKw, K_BlockKw, K_AndKw, K_OrKw, K_Apostrophe,
     K_Ellipsis, K_AtBreak, K_AtContinue, K_AtReturn, K_AtDebug, K_AtPause, K_AtDepth,
     K_AtSymbolic, K_AtTry, K_AtImport, K_Dollar, K_DollarDot, K_DollarDollar, K_Plus,
     K_Minus, K_Star, K_Slash, K_SlashDot, K_Percent, K_Power, K_PowerDot, K_Matmul,
     K_FloorDiv, K_PlusColon, K_MinusColon, K_StarColon, K_SlashColon, K_SlashDotColon,
     K_PercentColon, K_PowerColon, K_PowerDotColon, K_CommaColon, K_FloorDivColon, K_Colon,
     K_EqEq, K_EqDot, K_NotEq, K_NotEqDot, K_Lt, K_Le, K_Gt, K_Ge, K_Hash, K_Pipe,
     K_PipeDot, K_PipePipe, K_PipePipeDot, K_RangeOp, K_RangeIncOp, K_LParen, K_RParen,
     K_LBrack, K_RBrack, K_LBrace, K_RBrace, K_Semicolon, K_Comma, K_Bang, K_ScriptLine,
     K_ErrorTok, K_LastToken, K_Root, K_Block, K_Shebang, K_ScriptDirective, K_LiteralExpr,
     K_VarExpr, K_OuterVarExpr, K_BinaryExpr, K_UnaryExpr, K_ComparisonChainExpr,
     K_AssignExpr, K_OuterAssignExpr, K_UnpackAssignExpr, K_IndexAssignExpr,
     K_MutatingIndexExpr, K_MutatingIndexAssignExpr, K_RangeExpr, K_ListExpr, K_DictExpr,
     K_DictPair, K_ParenExpr, K_PostfixExpr, K_LazyBoolExpr, K_NamedArgExpr, K_ArgList,
     K_FStringExpr, K_CondExpr, K_CondDotExpr, K_CondChainExpr, K_WLoopExpr, K_NLoopExpr,
     K_BlockExpr, K_FunctionExpr, K_ParamList, K_Param, K_ReturnExpr, K_DebugExpr,
     K_PauseExpr, K_TryExpr, K_ImportExpr, K_SymbolicExpr, K_BreakExpr, K_ContinueExpr,
     K_EllipsisExpr, K_PipeExpr, K_PipeTapExpr, K_ErrorNode]"

text \<open>\<open>k as u16\<close>: the position of a variant in the enum.\<close>

definition kind_index :: "syntax_kind \<Rightarrow> nat" where
  "kind_index k = length (takeWhile (\<lambda>j. j \<noteq> k) all_kinds)"

definition is_token :: "syntax_kind \<Rightarrow> bool" where
  "is_token k \<longleftrightarrow> kind_index k < kind_index K_LastToken"

definition is_node :: "syntax_kind \<Rightarrow> bool" where
  "is_node k \<longleftrightarrow> kind_index K_LastToken < kind_index k"

definition is_trivia :: "syntax_kind \<Rightarrow> bool" where
  "is_trivia k \<longleftrightarrow> k = K_Whitespace \<or> k = K_Newline \<or> k = K_Comment"

section \<open>Names\<close>

fun trivia_kind_name :: "trivia_kind \<Rightarrow> string" where
    "trivia_kind_name KT_Whitespace = ''WHITESPACE''"
  | "trivia_kind_name KT_Newline = ''NEWLINE''"
  | "trivia_kind_name KT_Comment = ''COMMENT''"

fun literal_kind_name :: "literal_kind \<Rightarrow> string" where
    "literal_kind_name KL_IntLit = ''INT''"
  | "literal_kind_name KL_BigIntLit = ''BIG_INT''"
  | "literal_kind_name KL_FloatLit = ''FLOAT''"
  | "literal_kind_name KL_ImagLit = ''IMAG''"
  | "literal_kind_name KL_CharLit = ''CHAR''"
  | "literal_kind_name KL_StringLit = ''STRING''"
  | "literal_kind_name KL_TagLit = ''TAG''"
  | "literal_kind_name KL_Backtick = ''BACKTICK''"
  | "literal_kind_name KL_InfLit = ''INF''"
  | "literal_kind_name KL_TrueKw = ''TRUE_KW''"
  | "literal_kind_name KL_FalseKw = ''FALSE_KW''"
  | "literal_kind_name KL_FString = ''FSTRING''"

fun word_kind_name :: "word_kind \<Rightarrow> string" where
    "word_kind_name KW_Ident = ''IDENT''"
  | "word_kind_name KW_WLoopKw = ''W_KW''"
  | "word_kind_name KW_NLoopKw = ''N_KW''"
  | "word_kind_name KW_BlockKw = ''B_KW''"
  | "word_kind_name KW_AndKw = ''AND_KW''"
  | "word_kind_name KW_OrKw = ''OR_KW''"
  | "word_kind_name KW_Apostrophe = ''APOS''"
  | "word_kind_name KW_Ellipsis = ''ELLIPSIS''"

fun at_kind_name :: "at_kind \<Rightarrow> string" where
    "at_kind_name KA_AtBreak = ''AT_BREAK''"
  | "at_kind_name KA_AtContinue = ''AT_CONTINUE''"
  | "at_kind_name KA_AtReturn = ''AT_RETURN''"
  | "at_kind_name KA_AtDebug = ''AT_DEBUG''"
  | "at_kind_name KA_AtPause = ''AT_PAUSE''"
  | "at_kind_name KA_AtDepth = ''AT_DEPTH''"
  | "at_kind_name KA_AtSymbolic = ''AT_SYMBOLIC''"
  | "at_kind_name KA_AtTry = ''AT_TRY''"
  | "at_kind_name KA_AtImport = ''AT_IMPORT''"

fun arith_kind_name :: "arith_kind \<Rightarrow> string" where
    "arith_kind_name KO_Dollar = ''DOLLAR''"
  | "arith_kind_name KO_DollarDot = ''DOLLAR_DOT''"
  | "arith_kind_name KO_DollarDollar = ''DOLLAR_DOLLAR''"
  | "arith_kind_name KO_Plus = ''PLUS''"
  | "arith_kind_name KO_Minus = ''MINUS''"
  | "arith_kind_name KO_Star = ''STAR''"
  | "arith_kind_name KO_Slash = ''SLASH''"
  | "arith_kind_name KO_SlashDot = ''SLASH_DOT''"
  | "arith_kind_name KO_Percent = ''PERCENT''"
  | "arith_kind_name KO_Power = ''POWER''"
  | "arith_kind_name KO_PowerDot = ''POWER_DOT''"
  | "arith_kind_name KO_Matmul = ''MATMUL''"
  | "arith_kind_name KO_FloorDiv = ''FLOOR_DIV''"

fun aug_kind_name :: "aug_kind \<Rightarrow> string" where
    "aug_kind_name KG_PlusColon = ''PLUS_COLON''"
  | "aug_kind_name KG_MinusColon = ''MINUS_COLON''"
  | "aug_kind_name KG_StarColon = ''STAR_COLON''"
  | "aug_kind_name KG_SlashColon = ''SLASH_COLON''"
  | "aug_kind_name KG_SlashDotColon = ''SLASH_DOT_COLON''"
  | "aug_kind_name KG_PercentColon = ''PERCENT_COLON''"
  | "aug_kind_name KG_PowerColon = ''POWER_COLON''"
  | "aug_kind_name KG_PowerDotColon = ''POWER_DOT_COLON''"
  | "aug_kind_name KG_CommaColon = ''COMMA_COLON''"
  | "aug_kind_name KG_FloorDivColon = ''FLOOR_DIV_COLON''"

fun compare_kind_name :: "compare_kind \<Rightarrow> string" where
    "compare_kind_name KC_Colon = ''COLON''"
  | "compare_kind_name KC_EqEq = ''EQ_EQ''"
  | "compare_kind_name KC_EqDot = ''EQ_DOT''"
  | "compare_kind_name KC_NotEq = ''NOT_EQ''"
  | "compare_kind_name KC_NotEqDot = ''NOT_EQ_DOT''"
  | "compare_kind_name KC_Lt = ''LT''"
  | "compare_kind_name KC_Le = ''LE''"
  | "compare_kind_name KC_Gt = ''GT''"
  | "compare_kind_name KC_Ge = ''GE''"

fun sigil_kind_name :: "sigil_kind \<Rightarrow> string" where
    "sigil_kind_name KS_Hash = ''HASH''"
  | "sigil_kind_name KS_Pipe = ''PIPE''"
  | "sigil_kind_name KS_PipeDot = ''PIPE_DOT''"
  | "sigil_kind_name KS_PipePipe = ''PIPE_PIPE''"
  | "sigil_kind_name KS_PipePipeDot = ''PIPE_PIPE_DOT''"
  | "sigil_kind_name KS_RangeOp = ''RANGE''"
  | "sigil_kind_name KS_RangeIncOp = ''RANGE_INC''"

fun punct_kind_name :: "punct_kind \<Rightarrow> string" where
    "punct_kind_name KP_LParen = ''L_PAREN''"
  | "punct_kind_name KP_RParen = ''R_PAREN''"
  | "punct_kind_name KP_LBrack = ''L_BRACK''"
  | "punct_kind_name KP_RBrack = ''R_BRACK''"
  | "punct_kind_name KP_LBrace = ''L_BRACE''"
  | "punct_kind_name KP_RBrace = ''R_BRACE''"
  | "punct_kind_name KP_Semicolon = ''SEMI''"
  | "punct_kind_name KP_Comma = ''COMMA_TOK''"
  | "punct_kind_name KP_Bang = ''BANG''"
  | "punct_kind_name KP_ScriptLine = ''SCRIPT_LINE''"
  | "punct_kind_name KP_ErrorTok = ''ERROR_TOK''"

fun document_kind_name :: "document_kind \<Rightarrow> string" where
    "document_kind_name KD_Root = ''ROOT''"
  | "document_kind_name KD_Block = ''BLOCK''"
  | "document_kind_name KD_Shebang = ''SHEBANG''"
  | "document_kind_name KD_ScriptDirective = ''SCRIPT_DIRECTIVE''"

fun expr_kind_name :: "expr_kind \<Rightarrow> string" where
    "expr_kind_name KE_LiteralExpr = ''LITERAL_EXPR''"
  | "expr_kind_name KE_VarExpr = ''VAR_EXPR''"
  | "expr_kind_name KE_OuterVarExpr = ''OUTER_VAR_EXPR''"
  | "expr_kind_name KE_BinaryExpr = ''BINARY_EXPR''"
  | "expr_kind_name KE_UnaryExpr = ''UNARY_EXPR''"
  | "expr_kind_name KE_ComparisonChainExpr = ''COMPARISON_CHAIN_EXPR''"
  | "expr_kind_name KE_AssignExpr = ''ASSIGN_EXPR''"
  | "expr_kind_name KE_OuterAssignExpr = ''OUTER_ASSIGN_EXPR''"
  | "expr_kind_name KE_UnpackAssignExpr = ''UNPACK_ASSIGN_EXPR''"
  | "expr_kind_name KE_IndexAssignExpr = ''INDEX_ASSIGN_EXPR''"
  | "expr_kind_name KE_MutatingIndexExpr = ''MUTATING_INDEX_EXPR''"
  | "expr_kind_name KE_MutatingIndexAssignExpr = ''MUTATING_INDEX_ASSIGN_EXPR''"
  | "expr_kind_name KE_RangeExpr = ''RANGE_EXPR''"
  | "expr_kind_name KE_ListExpr = ''LIST_EXPR''"
  | "expr_kind_name KE_DictExpr = ''DICT_EXPR''"
  | "expr_kind_name KE_DictPair = ''DICT_PAIR''"

fun form_kind_name :: "form_kind \<Rightarrow> string" where
    "form_kind_name KF_ParenExpr = ''PAREN_EXPR''"
  | "form_kind_name KF_PostfixExpr = ''POSTFIX_EXPR''"
  | "form_kind_name KF_LazyBoolExpr = ''LAZY_BOOL_EXPR''"
  | "form_kind_name KF_NamedArgExpr = ''NAMED_ARG_EXPR''"
  | "form_kind_name KF_ArgList = ''ARG_LIST''"
  | "form_kind_name KF_FStringExpr = ''FSTRING_EXPR''"
  | "form_kind_name KF_CondExpr = ''COND_EXPR''"
  | "form_kind_name KF_CondDotExpr = ''COND_DOT_EXPR''"
  | "form_kind_name KF_CondChainExpr = ''COND_CHAIN_EXPR''"
  | "form_kind_name KF_WLoopExpr = ''W_LOOP_EXPR''"
  | "form_kind_name KF_NLoopExpr = ''N_LOOP_EXPR''"
  | "form_kind_name KF_BlockExpr = ''BLOCK_EXPR''"
  | "form_kind_name KF_FunctionExpr = ''FUNCTION_EXPR''"
  | "form_kind_name KF_ParamList = ''PARAM_LIST''"
  | "form_kind_name KF_Param = ''PARAM''"
  | "form_kind_name KF_ReturnExpr = ''RETURN_EXPR''"
  | "form_kind_name KF_DebugExpr = ''DEBUG_EXPR''"
  | "form_kind_name KF_PauseExpr = ''PAUSE_EXPR''"
  | "form_kind_name KF_TryExpr = ''TRY_EXPR''"
  | "form_kind_name KF_ImportExpr = ''IMPORT_EXPR''"
  | "form_kind_name KF_SymbolicExpr = ''SYMBOLIC_EXPR''"
  | "form_kind_name KF_BreakExpr = ''BREAK_EXPR''"
  | "form_kind_name KF_ContinueExpr = ''CONTINUE_EXPR''"
  | "form_kind_name KF_EllipsisExpr = ''ELLIPSIS_EXPR''"
  | "form_kind_name KF_PipeExpr = ''PIPE_EXPR''"
  | "form_kind_name KF_PipeTapExpr = ''PIPE_TAP_EXPR''"

fun kind_name :: "syntax_kind \<Rightarrow> string" where
    "kind_name (K_Trivia k) = trivia_kind_name k"
  | "kind_name (K_Literal k) = literal_kind_name k"
  | "kind_name (K_Word k) = word_kind_name k"
  | "kind_name (K_AtForm k) = at_kind_name k"
  | "kind_name (K_Arith k) = arith_kind_name k"
  | "kind_name (K_Aug k) = aug_kind_name k"
  | "kind_name (K_Compare k) = compare_kind_name k"
  | "kind_name (K_Sigil k) = sigil_kind_name k"
  | "kind_name (K_Punct k) = punct_kind_name k"
  | "kind_name K_LastToken = ''__LAST_TOKEN''"
  | "kind_name (K_Document k) = document_kind_name k"
  | "kind_name (K_Expr k) = expr_kind_name k"
  | "kind_name (K_Form k) = form_kind_name k"
  | "kind_name K_ErrorNode = ''ERROR''"
section \<open>Kinds of tokens\<close>

definition syntax_kind_of_arith :: "arith_token \<Rightarrow> syntax_kind" where
  "syntax_kind_of_arith a = (case a of
     A_Plus \<Rightarrow> K_Plus | A_Minus \<Rightarrow> K_Minus | A_Multiply \<Rightarrow> K_Star | A_Power \<Rightarrow> K_Power
   | A_PowerDot \<Rightarrow> K_PowerDot | A_Divide \<Rightarrow> K_Slash | A_DivideDot \<Rightarrow> K_SlashDot
   | A_Modulo \<Rightarrow> K_Percent | A_Matmul \<Rightarrow> K_Matmul | A_FloorDiv \<Rightarrow> K_FloorDiv)"

definition syntax_kind_of_aug :: "aug_token \<Rightarrow> syntax_kind" where
  "syntax_kind_of_aug g = (case g of
     G_PlusColon \<Rightarrow> K_PlusColon | G_MinusColon \<Rightarrow> K_MinusColon | G_MultiplyColon \<Rightarrow> K_StarColon
   | G_DivideColon \<Rightarrow> K_SlashColon | G_DivideDotColon \<Rightarrow> K_SlashDotColon
   | G_ModuloColon \<Rightarrow> K_PercentColon | G_PowerColon \<Rightarrow> K_PowerColon
   | G_PowerDotColon \<Rightarrow> K_PowerDotColon | G_CommaColon \<Rightarrow> K_CommaColon
   | G_FloorDivColon \<Rightarrow> K_FloorDivColon)"

definition syntax_kind_of_compare :: "compare_token \<Rightarrow> syntax_kind" where
  "syntax_kind_of_compare c = (case c of
     C_Equal \<Rightarrow> K_EqEq | C_EqualDot \<Rightarrow> K_EqDot | C_NotEqual \<Rightarrow> K_NotEq
   | C_NotEqualDot \<Rightarrow> K_NotEqDot | C_LessThan \<Rightarrow> K_Lt | C_LessThanOrEqual \<Rightarrow> K_Le
   | C_GreaterThan \<Rightarrow> K_Gt | C_GreaterThanOrEqual \<Rightarrow> K_Ge)"

definition syntax_kind_of_sigil :: "sigil_token \<Rightarrow> syntax_kind" where
  "syntax_kind_of_sigil s = (case s of
     S_Sharp \<Rightarrow> K_Hash | S_Pipe \<Rightarrow> K_Pipe | S_PipeDot \<Rightarrow> K_PipeDot | S_PipePipe \<Rightarrow> K_PipePipe
   | S_PipePipeDot \<Rightarrow> K_PipePipeDot | S_Range \<Rightarrow> K_RangeOp | S_RangeInclusive \<Rightarrow> K_RangeIncOp
   | S_Dollar \<Rightarrow> K_Dollar | S_DollarDot \<Rightarrow> K_DollarDot | S_DollarDollar \<Rightarrow> K_DollarDollar)"

definition syntax_kind_of_at :: "at_token \<Rightarrow> syntax_kind" where
  "syntax_kind_of_at a = (case a of
     W_AtBreak \<Rightarrow> K_AtBreak | W_AtContinue \<Rightarrow> K_AtContinue | W_AtReturn \<Rightarrow> K_AtReturn
   | W_AtDebug \<Rightarrow> K_AtDebug | W_AtPause \<Rightarrow> K_AtPause | W_AtSymbolic \<Rightarrow> K_AtSymbolic
   | W_AtTry \<Rightarrow> K_AtTry | W_AtImport \<Rightarrow> K_AtImport)"

definition syntax_kind_of_bracket :: "bracket_token \<Rightarrow> syntax_kind" where
  "syntax_kind_of_bracket b = (case b of
     B_LeftParen \<Rightarrow> K_LParen | B_RightParen \<Rightarrow> K_RParen | B_LeftBracket \<Rightarrow> K_LBrack
   | B_RightBracket \<Rightarrow> K_RBrack | B_LeftBrace \<Rightarrow> K_LBrace | B_RightBrace \<Rightarrow> K_RBrace
   | B_Semicolon \<Rightarrow> K_Semicolon | B_Comma \<Rightarrow> K_Comma)"

definition syntax_kind_of_token :: "token_type \<Rightarrow> syntax_kind" where
  "syntax_kind_of_token t = (case t of
     T_Identifier _ \<Rightarrow> K_Ident
   | T_Keyword k \<Rightarrow> (case k of Kw_WLoop \<Rightarrow> K_WLoopKw | Kw_NLoop \<Rightarrow> K_NLoopKw
         | Kw_Block \<Rightarrow> K_BlockKw | Kw_And \<Rightarrow> K_AndKw | Kw_Or \<Rightarrow> K_OrKw)
   | T_Integer _ \<Rightarrow> K_IntLit | T_BigInteger _ \<Rightarrow> K_BigIntLit | T_Float _ \<Rightarrow> K_FloatLit
   | T_Imaginary _ \<Rightarrow> K_ImagLit | T_Character _ \<Rightarrow> K_CharLit | T_String _ \<Rightarrow> K_StringLit
   | T_Tag _ \<Rightarrow> K_TagLit | T_Backtick \<Rightarrow> K_Backtick | T_Inf \<Rightarrow> K_InfLit
   | T_True \<Rightarrow> K_TrueKw | T_False \<Rightarrow> K_FalseKw | T_FormatString _ _ _ \<Rightarrow> K_FString
   | T_Apostrophe \<Rightarrow> K_Apostrophe | T_Ellipsis \<Rightarrow> K_Ellipsis
   | T_At a \<Rightarrow> syntax_kind_of_at a | T_AtDepth _ \<Rightarrow> K_AtDepth
   | T_Arith a \<Rightarrow> syntax_kind_of_arith a | T_Aug g \<Rightarrow> syntax_kind_of_aug g
   | T_Colon \<Rightarrow> K_Colon | T_Compare c \<Rightarrow> syntax_kind_of_compare c
   | T_Sigil s \<Rightarrow> syntax_kind_of_sigil s | T_Bracket b \<Rightarrow> syntax_kind_of_bracket b
   | T_Bang \<Rightarrow> K_Bang | T_Newline \<Rightarrow> K_Newline | T_Comment _ \<Rightarrow> K_Comment
   | T_Error \<Rightarrow> K_ErrorTok | T_Eof \<Rightarrow> K_ErrorTok)"

section \<open>Facts\<close>

lemma nth_length_takeWhile_neq:
  "x \<in> set xs \<Longrightarrow> length (takeWhile (\<lambda>y. y \<noteq> x) xs) < length xs \<and>
    xs ! length (takeWhile (\<lambda>y. y \<noteq> x) xs) = x"
  by (induction xs) auto

lemmas kind_cases =
  trivia_kind.nchotomy [rule_format]
  literal_kind.nchotomy [rule_format]
  word_kind.nchotomy [rule_format]
  at_kind.nchotomy [rule_format]
  arith_kind.nchotomy [rule_format]
  aug_kind.nchotomy [rule_format]
  compare_kind.nchotomy [rule_format]
  sigil_kind.nchotomy [rule_format]
  punct_kind.nchotomy [rule_format]
  document_kind.nchotomy [rule_format]
  expr_kind.nchotomy [rule_format]
  form_kind.nchotomy [rule_format]

lemma all_kinds_complete: "k \<in> set all_kinds"
  by (cases k) (simp_all add: all_kinds_def kind_cases)

lemma all_kinds_nth: "all_kinds ! kind_index k = k"
  unfolding kind_index_def by (rule conjunct2 [OF nth_length_takeWhile_neq [OF all_kinds_complete]])

lemma kind_index_inject: "kind_index j = kind_index k \<longleftrightarrow> j = k"
  by (metis all_kinds_nth)

instantiation syntax_kind :: linorder
begin

definition less_eq_syntax_kind :: "syntax_kind \<Rightarrow> syntax_kind \<Rightarrow> bool" where
  "less_eq_syntax_kind j k \<longleftrightarrow> kind_index j \<le> kind_index k"

definition less_syntax_kind :: "syntax_kind \<Rightarrow> syntax_kind \<Rightarrow> bool" where
  "less_syntax_kind j k \<longleftrightarrow> kind_index j < kind_index k"

instance
  by standard (auto simp: less_eq_syntax_kind_def less_syntax_kind_def kind_index_inject)

end

lemma kinds_distinct_names: "distinct (map kind_name all_kinds)"
  by (simp add: all_kinds_def)

lemma takeWhile_neq_less:
  "x \<in> set xs \<Longrightarrow> length (takeWhile (\<lambda>y. y \<noteq> x) xs) < n \<longleftrightarrow> x \<in> set (take n xs)"
proof (induction xs arbitrary: n)
  case (Cons a xs)
  then show ?case by (cases n) auto
qed simp

lemma kind_index_LastToken: "kind_index K_LastToken = 82"
  by (simp add: kind_index_def all_kinds_def)

definition token_group :: "syntax_kind \<Rightarrow> bool" where
  "token_group k \<longleftrightarrow> (case k of
     K_LastToken \<Rightarrow> False | K_Document _ \<Rightarrow> False | K_Expr _ \<Rightarrow> False | K_Form _ \<Rightarrow> False
   | K_ErrorNode \<Rightarrow> False | _ \<Rightarrow> True)"

lemma is_token_iff: "is_token k \<longleftrightarrow> token_group k"
proof -
  have "is_token k \<longleftrightarrow> k \<in> set (take 82 all_kinds)"
    unfolding is_token_def kind_index_LastToken
    unfolding kind_index_def by (rule takeWhile_neq_less [OF all_kinds_complete])
  also have "\<dots> \<longleftrightarrow> token_group k"
    by (cases k) (simp_all add: all_kinds_def kind_cases token_group_def)
  finally show ?thesis .
qed

lemma is_node_iff: "is_node k \<longleftrightarrow> \<not> token_group k \<and> k \<noteq> K_LastToken"
  using is_token_iff [of k] kind_index_inject [of k K_LastToken]
  by (auto simp: is_node_def is_token_def)

text \<open>The discriminant order splits the kinds as the module promises: a kind is a token
  kind, a node kind or the sentinel, and never two of these; trivia kinds are token kinds; two
  kinds with the same name are the same kind.\<close>

theorem kind_partition:
  "(is_token k \<longleftrightarrow> \<not> is_node k \<and> k \<noteq> K_LastToken) \<and> \<not> (is_trivia k \<and> is_node k) \<and>
   (kind_name j = kind_name k \<longleftrightarrow> j = k)"
proof -
  have "inj_on kind_name (set all_kinds)"
    using kinds_distinct_names by (simp add: distinct_map)
  then have "kind_name j = kind_name k \<longleftrightarrow> j = k"
    by (rule inj_on_eq_iff [OF _ all_kinds_complete all_kinds_complete])
  then show ?thesis
    by (auto simp: is_token_iff is_node_iff token_group_def is_trivia_def)
qed

text \<open>Every lexer token maps to a token kind, trivia kinds arise from newlines and comments
  only, and the error kind only from error tokens and the end of input.\<close>

theorem syntax_kind_of_token_kind:
  "is_token (syntax_kind_of_token t) \<and>
   (is_trivia (syntax_kind_of_token t) \<longleftrightarrow> t = T_Newline \<or> (\<exists>x. t = T_Comment x)) \<and>
   (syntax_kind_of_token t = K_ErrorTok \<longleftrightarrow> t = T_Error \<or> t = T_Eof)"
  by (cases t)
    (auto simp: is_token_iff token_group_def is_trivia_def syntax_kind_of_token_def
      syntax_kind_of_arith_def syntax_kind_of_aug_def syntax_kind_of_compare_def
      syntax_kind_of_sigil_def syntax_kind_of_at_def syntax_kind_of_bracket_def
      split: keyword.splits arith_token.splits aug_token.splits compare_token.splits
        sigil_token.splits at_token.splits bracket_token.splits)

end
