(* ===== verification/Green.thy ===== *)
theory Green
  imports Syntax_Kind
begin

text \<open>
  Immutable tree storage: \<open>wqpl/src/cst/green.rs\<close>. \<open>green\<close> is \<open>GreenChild\<close>: a token with
  its text or a node with its cached length. \<open>Arc\<close> sharing is invisible here: two trees are equal
  when they compare equal in the source. Lengths are 32-bit words; the constructors, which
  panic on longer texts, return \<open>None\<close> there. The sum of the children's lengths is taken in
  unbounded arithmetic (the source adds in 64 bits).
\<close>

section \<open>Trees\<close>

datatype green =
    GreenToken (green_kind: syntax_kind) (token_text: ustr)
  | GreenNode (green_kind: syntax_kind) (node_text_len: u32) (green_children: "green list")

definition as_node :: "green \<Rightarrow> green option" where
  "as_node c = (case c of GreenNode _ _ _ \<Rightarrow> Some c | GreenToken _ _ \<Rightarrow> None)"

definition as_token :: "green \<Rightarrow> green option" where
  "as_token c = (case c of GreenToken _ _ \<Rightarrow> Some c | GreenNode _ _ _ \<Rightarrow> None)"

fun text_len :: "green \<Rightarrow> u32" where
  "text_len (GreenToken k t) = word_of_nat (blen t)"
| "text_len (GreenNode k n cs) = n"

definition green_token_new :: "syntax_kind \<Rightarrow> ustr \<Rightarrow> green option" where
  "green_token_new k t = (if blen t < 2 ^ 32 then Some (GreenToken k t) else None)"

definition green_node_new :: "syntax_kind \<Rightarrow> green list \<Rightarrow> green option" where
  "green_node_new k cs =
     (let n = sum_list (map (\<lambda>c. unat (text_len c)) cs)
      in if n < 2 ^ 32 then Some (GreenNode k (word_of_nat n) cs) else None)"

fun write_text :: "green \<Rightarrow> ustr \<Rightarrow> ustr" where
  "write_text (GreenToken k t) out = out @ t"
| "write_text (GreenNode k n cs) out = fold write_text cs out"

definition green_text :: "green \<Rightarrow> ustr" where
  "green_text g = write_text g []"

section \<open>Text and length agree\<close>

text \<open>What the constructors establish: every cached length is the length of the covered text.\<close>

fun green_ok :: "green \<Rightarrow> bool" where
  "green_ok (GreenToken k t) \<longleftrightarrow> blen t < 2 ^ 32"
| "green_ok (GreenNode k n cs) \<longleftrightarrow>
     list_all green_ok cs \<and> unat n = sum_list (map (\<lambda>c. blen (green_text c)) cs)"

lemma write_text_append: "write_text g out = out @ green_text g"
proof (induction g arbitrary: out)
  case (GreenNode k n cs)
  have "fold write_text cs (xs @ ys) = xs @ fold write_text cs ys" for xs ys
    using GreenNode by (induction cs arbitrary: ys) auto
  from this [of out "[]"] show ?case by (simp add: green_text_def)
qed (simp add: green_text_def)

lemma green_text_simps [simp]:
  "green_text (GreenToken k t) = t"
  "green_text (GreenNode k n cs) = concat (map green_text cs)"
proof -
  have "fold write_text cs out = out @ concat (map green_text cs)" for out
    by (induction cs arbitrary: out) (simp_all add: write_text_append)
  then show "green_text (GreenNode k n cs) = concat (map green_text cs)"
    by (simp add: green_text_def)
qed (simp add: green_text_def)

lemma blen_concat: "blen (concat xs) = sum_list (map blen xs)"
  by (induction xs) simp_all

lemma unat_word_of_nat_32: "n < 2 ^ 32 \<Longrightarrow> unat (word_of_nat n :: u32) = n"
  by (simp add: unat_of_nat take_bit_nat_eq_self)

lemma green_ok_len: "green_ok g \<Longrightarrow> unat (text_len g) = blen (green_text g)"
  by (cases g) (simp_all add: unat_word_of_nat_32 blen_concat comp_def)

lemma green_ok_less: "green_ok g \<Longrightarrow> blen (green_text g) < 2 ^ 32"
proof -
  assume "green_ok g"
  moreover have "unat (text_len g) < 2 ^ LENGTH(32)" by (rule unsigned_less)
  ultimately show ?thesis using green_ok_len [of g] by simp
qed

lemma green_token_new_ok:
  "green_token_new k t = Some g \<Longrightarrow> green_ok g \<and> green_text g = t"
  by (auto simp: green_token_new_def split: if_splits)

lemma children_len:
  "list_all green_ok cs \<Longrightarrow>
   (\<Sum>c\<leftarrow>cs. unat (text_len c)) = blen (concat (map green_text cs))"
  by (induction cs) (simp_all add: green_ok_len)

lemma green_node_new_ok:
  assumes "list_all green_ok cs" "green_node_new k cs = Some g"
  shows "green_ok g" "green_text g = concat (map green_text cs)"
  using assms
  by (auto simp: green_node_new_def children_len Let_def unat_word_of_nat_32 blen_concat comp_def
      split: if_splits)

lemma green_node_new_Some:
  "list_all green_ok cs \<Longrightarrow>
   green_node_new k cs \<noteq> None \<longleftrightarrow> blen (concat (map green_text cs)) < 2 ^ 32"
  by (simp add: green_node_new_def children_len Let_def)

end
