(* ===== verification/Cst_Builder.thy ===== *)
theory Cst_Builder
  imports Green
begin

text \<open>
  The green tree builder: \<open>wqpl/src/cst/builder.rs\<close>. The stack of open nodes is a list with
  the innermost node first. Every \<open>expect\<close> and \<open>assert\<close> is a \<open>None\<close>. A run of the builder is a
  sequence of events; \<open>build_run\<close> is its step relation.
\<close>

section \<open>State and operations\<close>

record checkpoint =
  cp_parent_depth :: nat
  cp_children_at :: nat

record frame =
  fr_kind :: syntax_kind
  fr_children :: "green list"

record node_cache =
  nc_map :: "(green \<times> green) list"
  nc_limit :: nat

record builder =
  b_stack :: "frame list"
  b_finished :: "green list"
  b_cache :: "node_cache option"

definition new_builder :: builder where
  "new_builder = \<lparr>b_stack = [], b_finished = [], b_cache = None\<rparr>"

definition with_cache :: "nat \<Rightarrow> builder" where
  "with_cache limit =
     \<lparr>b_stack = [], b_finished = [], b_cache = Some \<lparr>nc_map = [], nc_limit = limit\<rparr>\<rparr>"

definition start_node :: "syntax_kind \<Rightarrow> builder \<Rightarrow> builder" where
  "start_node k b = b\<lparr>b_stack := \<lparr>fr_kind = k, fr_children = []\<rparr> # b_stack b\<rparr>"

text \<open>The match that every operation ends with: into the innermost open node, or the roots.\<close>

definition push_child :: "green \<Rightarrow> builder \<Rightarrow> builder" where
  "push_child c b =
     (case b_stack b of
        f # fs \<Rightarrow> b\<lparr>b_stack := f\<lparr>fr_children := fr_children f @ [c]\<rparr> # fs\<rparr>
      | [] \<Rightarrow> b\<lparr>b_finished := b_finished b @ [c]\<rparr>)"

definition push_token :: "syntax_kind \<Rightarrow> ustr \<Rightarrow> builder \<Rightarrow> builder option" where
  "push_token k t b = map_option (\<lambda>g. push_child g b) (green_token_new k t)"

definition append_node :: "green \<Rightarrow> builder \<Rightarrow> builder" where
  "append_node g b = push_child g b"

definition intern_node :: "green \<Rightarrow> builder \<Rightarrow> green \<times> builder" where
  "intern_node node b =
     (case b_cache b of
        None \<Rightarrow> (node, b)
      | Some c \<Rightarrow>
          (case map_of (nc_map c) node of
             Some existing \<Rightarrow> (existing, b)
           | None \<Rightarrow>
               if length (nc_map c) < nc_limit c
               then (node, b\<lparr>b_cache := Some (c\<lparr>nc_map := (node, node) # nc_map c\<rparr>)\<rparr>)
               else (node, b)))"

definition finish_node :: "builder \<Rightarrow> builder option" where
  "finish_node b =
     (case b_stack b of
        [] \<Rightarrow> None
      | f # fs \<Rightarrow>
          (case green_node_new (fr_kind f) (fr_children f) of
             None \<Rightarrow> None
           | Some g \<Rightarrow>
               (case intern_node g (b\<lparr>b_stack := fs\<rparr>) of
                  (node, b1) \<Rightarrow> Some (push_child node b1))))"

definition take_checkpoint :: "builder \<Rightarrow> checkpoint option" where
  "take_checkpoint b =
     (case b_stack b of
        [] \<Rightarrow> None
      | f # fs \<Rightarrow>
          Some \<lparr>cp_parent_depth = length (b_stack b) - 1,
                cp_children_at = length (fr_children f)\<rparr>)"

definition start_node_at :: "checkpoint \<Rightarrow> syntax_kind \<Rightarrow> builder \<Rightarrow> builder option" where
  "start_node_at cp k b =
     (case b_stack b of
        [] \<Rightarrow> None
      | f # fs \<Rightarrow>
          if length (b_stack b) - 1 = cp_parent_depth cp \<and>
             cp_children_at cp \<le> length (fr_children f)
          then Some (b\<lparr>b_stack :=
                 \<lparr>fr_kind = k, fr_children = drop (cp_children_at cp) (fr_children f)\<rparr> #
                 f\<lparr>fr_children := take (cp_children_at cp) (fr_children f)\<rparr> # fs\<rparr>)
          else None)"

definition finish_builder :: "builder \<Rightarrow> green option" where
  "finish_builder b =
     (if b_stack b = [] then
        (case b_finished b of
           [g] \<Rightarrow> (case g of GreenNode _ _ _ \<Rightarrow> Some g | GreenToken _ _ \<Rightarrow> None)
         | _ \<Rightarrow> None)
      else None)"

section \<open>Runs\<close>

text \<open>Events; \<open>Ev_start_at i k\<close> uses the \<open>i\<close>-th checkpoint taken so far.\<close>

datatype build_event =
    Ev_start syntax_kind
  | Ev_token syntax_kind ustr
  | Ev_append green
  | Ev_finish
  | Ev_checkpoint
  | Ev_start_at nat syntax_kind

fun exec_event :: "build_event \<Rightarrow> builder \<times> checkpoint list \<Rightarrow> (builder \<times> checkpoint list) option" where
  "exec_event (Ev_start k) (b, cps) = Some (start_node k b, cps)"
| "exec_event (Ev_token k t) (b, cps) = map_option (\<lambda>b'. (b', cps)) (push_token k t b)"
| "exec_event (Ev_append g) (b, cps) = Some (append_node g b, cps)"
| "exec_event Ev_finish (b, cps) = map_option (\<lambda>b'. (b', cps)) (finish_node b)"
| "exec_event Ev_checkpoint (b, cps) = map_option (\<lambda>cp. (b, cps @ [cp])) (take_checkpoint b)"
| "exec_event (Ev_start_at i k) (b, cps) =
     (if i < length cps then map_option (\<lambda>b'. (b', cps)) (start_node_at (cps ! i) k b) else None)"

inductive build_run ::
  "builder \<times> checkpoint list \<Rightarrow> build_event list \<Rightarrow> builder \<times> checkpoint list \<Rightarrow> bool" where
  build_done: "build_run s [] s"
| build_step: "exec_event e s = Some s1 \<Longrightarrow> build_run s1 es s2 \<Longrightarrow> build_run s (e # es) s2"

inductive_cases build_runE [elim!]: "build_run s [] t" "build_run s (e # es) t"

inductive_simps build_run_simps [simp]: "build_run s [] t" "build_run s (e # es) t"

fun event_text :: "build_event \<Rightarrow> ustr" where
  "event_text (Ev_token k t) = t"
| "event_text (Ev_append g) = green_text g"
| "event_text _ = []"

fun event_ok :: "build_event \<Rightarrow> bool" where
  "event_ok (Ev_append g) = green_ok g"
| "event_ok _ = True"

section \<open>Builders cover the text they are given\<close>

definition builder_text :: "builder \<Rightarrow> ustr" where
  "builder_text b =
     concat (map green_text (b_finished b)) @
     concat (map (\<lambda>f. concat (map green_text (fr_children f))) (rev (b_stack b)))"

definition cache_ok :: "builder \<Rightarrow> bool" where
  "cache_ok b \<longleftrightarrow>
     (case b_cache b of None \<Rightarrow> True | Some c \<Rightarrow> list_all (\<lambda>(k, v). k = v) (nc_map c))"

definition builder_ok :: "builder \<Rightarrow> bool" where
  "builder_ok b \<longleftrightarrow>
     list_all green_ok (b_finished b) \<and> list_all (\<lambda>f. list_all green_ok (fr_children f)) (b_stack b) \<and>
     cache_ok b"

lemma push_child_text: "builder_text (push_child g b) = builder_text b @ green_text g"
  by (cases "b_stack b") (simp_all add: push_child_def builder_text_def)

lemma push_child_ok: "builder_ok b \<Longrightarrow> green_ok g \<Longrightarrow> builder_ok (push_child g b)"
  by (cases "b_stack b") (simp_all add: push_child_def builder_ok_def cache_ok_def)

lemma intern_node_same:
  assumes "cache_ok b"
  shows "\<exists>c. intern_node g b = (g, b\<lparr>b_cache := c\<rparr>) \<and> cache_ok (b\<lparr>b_cache := c\<rparr>)"
proof (cases "b_cache b")
  case None
  then show ?thesis
    using assms by (intro exI [of _ None]) (simp add: intern_node_def cache_ok_def)
next
  case (Some c)
  have keys: "v = g" if "map_of (nc_map c) g = Some v" for v
    using map_of_SomeD [OF that] assms Some by (auto simp: cache_ok_def list_all_iff)
  have same: "b\<lparr>b_cache := Some c\<rparr> = b" using Some by simp
  show ?thesis
  proof (cases "map_of (nc_map c) g = None \<and> length (nc_map c) < nc_limit c")
    case True
    with Some assms show ?thesis
      by (intro exI [of _ "Some (c\<lparr>nc_map := (g, g) # nc_map c\<rparr>)"])
        (simp add: intern_node_def cache_ok_def)
  next
    case False
    with Some assms keys same show ?thesis
      by (intro exI [of _ "Some c"]) (auto simp: intern_node_def same split: option.splits)
  qed
qed

lemma builder_ok_update [simp]:
  "builder_ok (b\<lparr>b_cache := c\<rparr>) \<longleftrightarrow>
     list_all green_ok (b_finished b) \<and> list_all (\<lambda>f. list_all green_ok (fr_children f)) (b_stack b) \<and>
     cache_ok (b\<lparr>b_cache := c\<rparr>)"
  "builder_text (b\<lparr>b_cache := c\<rparr>) = builder_text b"
  by (simp_all add: builder_ok_def builder_text_def)

lemma push_token_text:
  assumes "builder_ok b" "push_token k t b = Some b'"
  shows "builder_ok b' \<and> builder_text b' = builder_text b @ t"
  using assms green_token_new_ok
  by (auto simp: push_token_def push_child_text push_child_ok)

lemma finish_node_text:
  assumes "builder_ok b" "finish_node b = Some b'"
  shows "builder_ok b' \<and> builder_text b' = builder_text b"
proof -
  obtain f fs g where f: "b_stack b = f # fs" "green_node_new (fr_kind f) (fr_children f) = Some g"
    using assms(2) by (auto simp: finish_node_def split: list.splits option.splits)
  have fok: "list_all green_ok (fr_children f)"
    and bok: "builder_ok (b\<lparr>b_stack := fs\<rparr>)"
    using assms(1) f(1) by (auto simp: builder_ok_def cache_ok_def)
  obtain c where c: "intern_node g (b\<lparr>b_stack := fs\<rparr>) = (g, b\<lparr>b_stack := fs, b_cache := c\<rparr>)"
    "cache_ok (b\<lparr>b_stack := fs, b_cache := c\<rparr>)"
    using intern_node_same [of "b\<lparr>b_stack := fs\<rparr>" g] bok by (auto simp: builder_ok_def)
  have "b' = push_child g (b\<lparr>b_stack := fs, b_cache := c\<rparr>)"
    using assms(2) f c by (simp add: finish_node_def)
  moreover have "builder_ok (b\<lparr>b_stack := fs, b_cache := c\<rparr>)"
    using bok c(2) by (simp add: builder_ok_def)
  moreover have "builder_text b = builder_text (b\<lparr>b_stack := fs\<rparr>) @ green_text g"
    using f(1) green_node_new_ok(2) [OF fok f(2)] by (simp add: builder_text_def)
  ultimately show ?thesis
    using green_node_new_ok(1) [OF fok f(2)] by (simp add: push_child_text push_child_ok)
qed

lemma start_node_at_text:
  assumes "builder_ok b" "start_node_at cp k b = Some b'"
  shows "builder_ok b' \<and> builder_text b' = builder_text b"
proof -
  obtain f fs where f: "b_stack b = f # fs"
    using assms(2) by (auto simp: start_node_at_def split: list.splits)
  let ?n = "cp_children_at cp"
  have "concat (map green_text (fr_children f)) =
      concat (map green_text (take ?n (fr_children f))) @ concat (map green_text (drop ?n (fr_children f)))"
    by (metis append_take_drop_id concat_append map_append)
  moreover have "list_all green_ok (fr_children f)" using assms(1) f by (simp add: builder_ok_def)
  then have "list_all green_ok (take ?n (fr_children f))" "list_all green_ok (drop ?n (fr_children f))"
    by (auto simp: list_all_iff intro: in_set_takeD in_set_dropD)
  ultimately show ?thesis
    using assms f
    by (auto simp: start_node_at_def builder_ok_def builder_text_def cache_ok_def split: if_splits)
qed

lemma exec_event_text:
  assumes "exec_event e (b, cps) = Some (b', cps')" "builder_ok b" "event_ok e"
  shows "builder_ok b' \<and> builder_text b' = builder_text b @ event_text e"
proof (cases e)
  case (Ev_start k)
  then show ?thesis
    using assms by (auto simp: start_node_def builder_ok_def builder_text_def cache_ok_def)
next
  case (Ev_token k t)
  then show ?thesis using assms push_token_text [of b k t b'] by auto
next
  case (Ev_append g)
  then show ?thesis using assms by (auto simp: append_node_def push_child_text push_child_ok)
next
  case Ev_finish
  then show ?thesis using assms finish_node_text [of b b'] by auto
next
  case Ev_checkpoint
  then show ?thesis using assms by auto
next
  case (Ev_start_at i k)
  then show ?thesis using assms start_node_at_text [of b "cps ! i" k b'] by (auto split: if_splits)
qed

lemma build_run_text:
  assumes "build_run s es s'" "builder_ok (fst s)" "list_all event_ok es"
  shows "builder_ok (fst s') \<and>
    builder_text (fst s') = builder_text (fst s) @ concat (map event_text es)"
  using assms
proof (induction rule: build_run.induct)
  case (build_step e s s1 es s2)
  obtain b cps b1 cps1 where s: "s = (b, cps)" "s1 = (b1, cps1)" by (metis surj_pair)
  with build_step exec_event_text [of e b cps b1 cps1] show ?case by auto
qed simp

lemma finish_builder_text:
  "builder_ok b \<Longrightarrow> finish_builder b = Some g \<Longrightarrow> green_ok g \<and> green_text g = builder_text b"
  by (auto simp: finish_builder_def builder_ok_def builder_text_def
      split: list.splits green.splits if_splits)

lemma initial_builders:
  "builder_ok new_builder" "builder_text new_builder = []"
  "builder_ok (with_cache n)" "builder_text (with_cache n) = []"
  by (simp_all add: new_builder_def with_cache_def builder_ok_def builder_text_def cache_ok_def)

text \<open>C8: The builder loses and invents no text: whatever sequence of node starts, tokens,
  appended trees, finishes, checkpoints and retroactive wraps is run, with or without the intern
  cache, a tree returned by \<open>finish\<close> covers exactly the token texts and appended trees in the
  order in which they were given, and every cached length in it is the length of its text.\<close>

theorem builder_covers_events:
  assumes "build_run (b0, []) es (b, cps)" "b0 = new_builder \<or> b0 = with_cache n"
    "list_all event_ok es" "finish_builder b = Some g"
  shows "green_text g = concat (map event_text es) \<and> green_ok g"
proof -
  have "builder_ok b0" "builder_text b0 = []" using assms(2) initial_builders by auto
  with build_run_text [OF assms(1)] assms(3) have
    "builder_ok b" "builder_text b = concat (map event_text es)" by simp_all
  with finish_builder_text [OF _ assms(4)] show ?thesis by simp
qed

definition sample_events :: "build_event list" where
  "sample_events =
     [Ev_start K_Root, Ev_checkpoint, Ev_token K_IntLit (lit ''1''), Ev_start_at 0 K_BinaryExpr,
      Ev_token K_Plus (lit ''+''), Ev_token K_IntLit (lit ''2''), Ev_finish, Ev_finish]"

definition sample_tree :: green where
  "sample_tree =
     GreenNode K_Root 3 [GreenNode K_BinaryExpr 3 [GreenToken K_IntLit (lit ''1''),
       GreenToken K_Plus (lit ''+''), GreenToken K_IntLit (lit ''2'')]]"

lemma sample_run:
  "\<exists>b cps. build_run (new_builder, []) sample_events (b, cps) \<and> finish_builder b = Some sample_tree"
  by (simp add: sample_events_def sample_tree_def new_builder_def start_node_def push_token_def
      push_child_def green_token_new_def finish_node_def green_node_new_def intern_node_def
      take_checkpoint_def start_node_at_def finish_builder_def lit_def len_utf8_def Let_def)

theorem builder_covers_events_witness: "green_text sample_tree = lit ''1+2'' \<and> green_ok sample_tree"
proof -
  obtain b cps where "build_run (new_builder, []) sample_events (b, cps)"
    "finish_builder b = Some sample_tree"
    using sample_run by blast
  from builder_covers_events [OF this(1) _ _ this(2)] show ?thesis
    by (simp add: sample_events_def lit_def)
qed

section \<open>Interning is invisible\<close>

text \<open>The run of a list of events as a function.\<close>

fun run_build ::
  "build_event list \<Rightarrow> builder \<times> checkpoint list \<Rightarrow> (builder \<times> checkpoint list) option" where
  "run_build [] s = Some s"
| "run_build (e # es) s = (case exec_event e s of None \<Rightarrow> None | Some s1 \<Rightarrow> run_build es s1)"

lemma build_run_iff: "build_run s es t \<longleftrightarrow> run_build es s = Some t"
  by (induction es arbitrary: s) (auto split: option.splits)

definition strip_cache :: "builder \<Rightarrow> builder" where
  "strip_cache b = b\<lparr>b_cache := None\<rparr>"

lemma push_child_strip: "push_child g (strip_cache b) = strip_cache (push_child g b)"
  by (cases "b_stack b") (simp_all add: push_child_def strip_cache_def)

lemma strip_cache_sel [simp]:
  "b_stack (strip_cache b) = b_stack b" "b_finished (strip_cache b) = b_finished b"
  "finish_builder (strip_cache b) = finish_builder b"
  "take_checkpoint (strip_cache b) = take_checkpoint b"
  "strip_cache (b\<lparr>b_cache := c\<rparr>) = strip_cache b"
  "(strip_cache b)\<lparr>b_stack := fs\<rparr> = strip_cache (b\<lparr>b_stack := fs\<rparr>)"
  by (simp_all add: strip_cache_def finish_builder_def take_checkpoint_def split: list.split)

lemma finish_node_strip:
  assumes "cache_ok b"
  shows "finish_node (strip_cache b) = map_option strip_cache (finish_node b)"
proof (cases "b_stack b")
  case (Cons f fs)
  have ok: "cache_ok (b\<lparr>b_stack := fs\<rparr>)" using assms by (simp add: cache_ok_def)
  show ?thesis
  proof (cases "green_node_new (fr_kind f) (fr_children f)")
    case (Some g)
    obtain c where "intern_node g (b\<lparr>b_stack := fs\<rparr>) = (g, b\<lparr>b_stack := fs, b_cache := c\<rparr>)"
      using intern_node_same [OF ok, of g] by auto
    moreover have "intern_node g (strip_cache b\<lparr>b_stack := fs\<rparr>) = (g, strip_cache (b\<lparr>b_stack := fs\<rparr>))"
      by (simp add: intern_node_def strip_cache_def)
    ultimately show ?thesis
      using Cons Some by (simp add: finish_node_def push_child_strip [symmetric])
  qed (simp add: finish_node_def Cons)
qed (simp add: finish_node_def)

lemma exec_event_strip:
  assumes "cache_ok b"
  shows "exec_event e (strip_cache b, cps) =
    map_option (\<lambda>(b', cps'). (strip_cache b', cps')) (exec_event e (b, cps))"
proof (cases e)
  case Ev_finish
  then show ?thesis
    using finish_node_strip [OF assms] by (simp add: option.map_comp comp_def)
next
  case (Ev_start_at i k)
  have "start_node_at cp k (strip_cache b) = map_option strip_cache (start_node_at cp k b)" for cp
    by (simp add: start_node_at_def split: list.split)
  with Ev_start_at show ?thesis by (simp add: option.map_comp comp_def)
qed (simp_all add: push_token_def append_node_def push_child_strip option.map_comp comp_def
    start_node_def)

lemma run_build_strip:
  assumes "builder_ok b" "list_all event_ok es"
  shows "run_build es (strip_cache b, cps) =
    map_option (\<lambda>(b', cps'). (strip_cache b', cps')) (run_build es (b, cps))"
  using assms
proof (induction es arbitrary: b cps)
  case (Cons e es)
  have "cache_ok b" using Cons.prems by (simp add: builder_ok_def)
  from exec_event_strip [OF this, of e cps] Cons exec_event_text [of e b cps] show ?case
    by (cases "exec_event e (b, cps)") auto
qed simp

text \<open>C9: Interning is invisible: a builder with the intern cache, of any size limit, refines the
  plain builder. On every sequence of events the cached builder panics exactly when the plain one
  does, and both return equal trees; only sharing differs.\<close>

theorem builder_cache_refinement:
  assumes "list_all event_ok es"
  shows "map_option (\<lambda>(b, cps). finish_builder b) (run_build es (with_cache n, [])) =
    map_option (\<lambda>(b, cps). finish_builder b) (run_build es (new_builder, []))"
proof -
  have "strip_cache (with_cache n) = new_builder"
    by (simp add: strip_cache_def with_cache_def new_builder_def)
  with run_build_strip [OF initial_builders(3) assms, of n "[]"] show ?thesis
    by (cases "run_build es (with_cache n, [])") auto
qed

theorem builder_cache_refinement_witness:
  "map_option (\<lambda>(b, cps). finish_builder b) (run_build sample_events (with_cache 1, [])) =
    Some (Some sample_tree)"
proof -
  have ok: "list_all event_ok sample_events" by (simp add: sample_events_def)
  obtain b cps where "run_build sample_events (new_builder, []) = Some (b, cps)"
    "finish_builder b = Some sample_tree"
    using sample_run unfolding build_run_iff by blast
  with builder_cache_refinement [OF ok, of 1] show ?thesis by simp
qed

end
