(* ===== verification/Flat_Cst.thy ===== *)
theory Flat_Cst
  imports Cst_Builder Lexer_Correct
begin

text \<open>
  The adapter from token streams to trees: \<open>wqpl/src/cst/lex.rs\<close>. \<open>None\<close> is a panic: a
  slice of the source off a character boundary, or a tree of four gibibytes.

  The round trip is proved in the \<open>token_source\<close> locale, for any lexing function whose
  streams tile the source, and instantiated for both entry points of the lexer.
\<close>

section \<open>Building\<close>

definition is_eof :: "token_type \<Rightarrow> bool" where
  "is_eof t \<longleftrightarrow> t = T_Eof"

text \<open>The loop over the tokens, with the byte cursor; behind it, trailing whitespace.\<close>

definition push_trailing :: "ustr \<Rightarrow> nat \<Rightarrow> builder \<Rightarrow> builder option" where
  "push_trailing source cursor b =
     (if cursor < blen source then
        (case str_from source cursor of
           None \<Rightarrow> None
         | Some trailing \<Rightarrow> push_token K_Whitespace trailing b)
      else Some b)"

definition push_gap :: "ustr \<Rightarrow> nat \<Rightarrow> nat \<Rightarrow> builder \<Rightarrow> builder option" where
  "push_gap source cursor start b =
     (if cursor < start then
        (case str_slice source cursor start of
           None \<Rightarrow> None
         | Some gap \<Rightarrow> push_token K_Whitespace gap b)
      else Some b)"

fun push_tokens :: "ustr \<Rightarrow> nat \<Rightarrow> token list \<Rightarrow> builder \<Rightarrow> builder option" where
  "push_tokens source cursor [] b = push_trailing source cursor b"
| "push_tokens source cursor (tok # toks) b =
     (if is_eof (tok_type tok) then push_trailing source cursor b
      else
        (case push_gap source cursor (tok_start tok) b of
           None \<Rightarrow> None
         | Some b1 \<Rightarrow>
             (case str_slice source (tok_start tok) (tok_end tok) of
                None \<Rightarrow> None
              | Some text \<Rightarrow>
                  (case push_token (syntax_kind_of_token (tok_type tok)) text b1 of
                     None \<Rightarrow> None
                   | Some b2 \<Rightarrow> push_tokens source (tok_end tok) toks b2))))"

definition push_with_trivia :: "builder \<Rightarrow> ustr \<Rightarrow> token list \<Rightarrow> builder option" where
  "push_with_trivia b source toks = push_tokens source 0 toks b"

definition build_flat_cst_from_tokens :: "ustr \<Rightarrow> token list \<Rightarrow> green option" where
  "build_flat_cst_from_tokens source toks =
     (case push_with_trivia (start_node K_Root new_builder) source toks of
        None \<Rightarrow> None
      | Some b \<Rightarrow>
          (case finish_node b of None \<Rightarrow> None | Some b1 \<Rightarrow> finish_builder b1))"

text \<open>Lex, then build: a lexing failure, a panic of the adapter (\<open>None\<close>), or the tree.\<close>

definition build_flat_cst :: "lex_env \<Rightarrow> ustr \<Rightarrow> lex_fail + green option" where
  "build_flat_cst L source =
     (case tokenize L source of
        Inl e \<Rightarrow> Inl e
      | Inr toks \<Rightarrow> Inr (build_flat_cst_from_tokens source toks))"

definition build_flat_cst_recovery :: "lex_env \<Rightarrow> ustr \<Rightarrow> lex_fail + green option" where
  "build_flat_cst_recovery L source =
     (case tokenize_recovery L source of
        Inl e \<Rightarrow> Inl e
      | Inr toks \<Rightarrow> Inr (build_flat_cst_from_tokens source toks))"

section \<open>The tree of a tiling\<close>

text \<open>The leaves that a tiling of \<open>rest\<close> at byte \<open>pos\<close> gives.\<close>

definition gap_leaf :: "ustr \<Rightarrow> green list" where
  "gap_leaf gap = (if gap = [] then [] else [GreenToken K_Whitespace gap])"

fun flat_leaves :: "ustr \<Rightarrow> nat \<Rightarrow> token list \<Rightarrow> green list" where
  "flat_leaves rest pos [] = gap_leaf rest"
| "flat_leaves rest pos (t # ts) =
     (if tok_type t = T_Eof then gap_leaf rest
      else case byte_split (tok_start t - pos) rest of
             None \<Rightarrow> []
           | Some (gap, r) \<Rightarrow>
               (case byte_split (tok_end t - tok_start t) r of
                  None \<Rightarrow> []
                | Some (body, r') \<Rightarrow>
                    gap_leaf gap @ [GreenToken (syntax_kind_of_token (tok_type t)) body] @
                    flat_leaves r' (tok_end t) ts))"

definition open_root :: "green list \<Rightarrow> builder" where
  "open_root cs = \<lparr>b_stack = [\<lparr>fr_kind = K_Root, fr_children = cs\<rparr>], b_finished = [], b_cache = None\<rparr>"

lemma push_token_root:
  "blen t < 2 ^ 32 \<Longrightarrow> push_token k t (open_root cs) = Some (open_root (cs @ [GreenToken k t]))"
  by (simp add: push_token_def green_token_new_def push_child_def open_root_def)

lemma push_gap_root:
  assumes "source = pre @ gap @ rest" "blen source < 2 ^ 32"
  shows "push_gap source (blen pre) (blen pre + blen gap) (open_root cs) =
    Some (open_root (cs @ gap_leaf gap))"
proof (cases "gap = []")
  case False
  have "str_slice source (blen pre) (blen pre + blen gap) = Some gap"
    unfolding assms(1) by (rule str_slice_append)
  with False assms show ?thesis
    by (simp add: push_gap_def gap_leaf_def push_token_root)
qed (simp add: push_gap_def gap_leaf_def)

lemma push_trailing_root:
  assumes "source = pre @ rest" "blen source < 2 ^ 32"
  shows "push_trailing source (blen pre) (open_root cs) = Some (open_root (cs @ gap_leaf rest))"
  using assms
  by (cases "rest = []") (simp_all add: push_trailing_def gap_leaf_def push_token_root)

lemma push_tokens_tiles:
  assumes "source = pre @ rest" "blen source < 2 ^ 32" "tiles rest (blen pre) toks"
  shows "push_tokens source (blen pre) toks (open_root cs) =
    Some (open_root (cs @ flat_leaves rest (blen pre) toks))"
  using assms
proof (induction toks arbitrary: pre rest cs)
  case (Cons t ts)
  from Cons.prems(3) obtain gap body r where t: "rest = gap @ body @ r"
    "tok_start t = blen pre + blen gap" "tok_end t = tok_start t + blen body"
    "if tok_type t = T_Eof then ts = [] \<and> body = [] \<and> r = [] else tiles r (tok_end t) ts"
    unfolding tiles_Cons_iff by (auto split: if_splits)
  show ?case
  proof (cases "tok_type t = T_Eof")
    case True
    with push_trailing_root [OF Cons.prems(1,2)] show ?thesis by (simp add: is_eof_def)
  next
    case False
    let ?pre1 = "pre @ gap @ body"
    have pos: "tok_end t = blen ?pre1" using t(2,3) by simp
    have "str_slice source (tok_start t) (tok_end t) = Some body"
      using Cons.prems(1) t str_slice_append [of "pre @ gap" body r] by simp
    moreover have "push_gap source (blen pre) (tok_start t) (open_root cs) =
        Some (open_root (cs @ gap_leaf gap))"
      unfolding t(2) using Cons.prems t(1) by (intro push_gap_root) auto
    moreover have "blen body < 2 ^ 32" using Cons.prems(1,2) t(1) by simp
    moreover have "source = ?pre1 @ r" "tiles r (blen ?pre1) ts"
      using Cons.prems(1) t False pos by simp_all
    note Cons.IH [OF this(1) Cons.prems(2) this(2)]
    ultimately show ?thesis
      using False t(1,2,3) pos
      by (simp add: is_eof_def push_token_root add.assoc)
  qed
qed simp

lemma flat_leaves_tiles:
  assumes "tiles rest pos toks" "blen rest < 2 ^ 32"
  shows "concat (map green_text (flat_leaves rest pos toks)) = rest \<and>
    list_all green_ok (flat_leaves rest pos toks)"
  using assms
proof (induction rest pos toks rule: tiles.induct)
  case (2 rest pos t ts)
  from "2.prems"(1) obtain gap body r where t: "rest = gap @ body @ r"
    "tok_start t = pos + blen gap" "tok_end t = tok_start t + blen body"
    "if tok_type t = T_Eof then ts = [] \<and> body = [] \<and> r = [] else tiles r (tok_end t) ts"
    unfolding tiles_Cons_iff by (auto split: if_splits)
  then show ?case
    using "2.IH" "2.prems"(2) by (auto simp: gap_leaf_def)
qed simp

lemma build_flat_cst_tiles:
  assumes "tiles source 0 toks" "blen source < 2 ^ 32"
  shows "build_flat_cst_from_tokens source toks =
    Some (GreenNode K_Root (word_of_nat (blen source)) (flat_leaves source 0 toks))"
proof -
  have "push_with_trivia (start_node K_Root new_builder) source toks =
      Some (open_root (flat_leaves source 0 toks))"
    using push_tokens_tiles [of source "[]" source toks "[]"] assms
    by (simp add: push_with_trivia_def start_node_def new_builder_def open_root_def)
  moreover have "green_node_new K_Root (flat_leaves source 0 toks) =
      Some (GreenNode K_Root (word_of_nat (blen source)) (flat_leaves source 0 toks))"
    using flat_leaves_tiles [OF assms] assms(2)
    by (simp add: green_node_new_def children_len Let_def)
  ultimately show ?thesis
    by (simp add: build_flat_cst_from_tokens_def open_root_def finish_node_def intern_node_def
        push_child_def finish_builder_def)
qed

section \<open>Round trip for every token source\<close>

context token_source
begin

definition flat_cst :: "lex_env \<Rightarrow> ustr \<Rightarrow> lex_fail + green option" where
  "flat_cst L source =
     (case lexf L source of
        Inl e \<Rightarrow> Inl e
      | Inr toks \<Rightarrow> Inr (build_flat_cst_from_tokens source toks))"

lemma flat_cst_round_trip:
  assumes "xid_closed L" "blen source < 2 ^ 32"
  shows "case flat_cst L source of
      Inr r \<Rightarrow> (\<exists>g. r = Some g \<and> green_text g = source \<and> green_kind g = K_Root \<and> green_ok g \<and>
                  unat (text_len g) = blen source)
    | Inl e \<Rightarrow> \<exists>w. e = LexError w"
proof (cases "lexf L source")
  case (Inl e)
  then show ?thesis
    using lexf_safe [OF assms(1), of source] by (cases e) (auto simp: flat_cst_def)
next
  case (Inr toks)
  note tiling = lexf_tiles [OF assms(1) Inr]
  note leaves = flat_leaves_tiles [OF tiling assms(2)]
  from leaves have "blen source = (\<Sum>c\<leftarrow>flat_leaves source 0 toks. blen (green_text c))"
    using blen_concat [of "map green_text (flat_leaves source 0 toks)"] by (simp add: comp_def)
  with build_flat_cst_tiles [OF tiling assms(2)] leaves Inr assms(2) show ?thesis
    by (simp add: flat_cst_def unat_word_of_nat_32)
qed

end

lemma flat_cst_eqs:
  "strict.flat_cst = build_flat_cst" "recovering.flat_cst = build_flat_cst_recovery"
  by (simp_all add: fun_eq_iff strict.flat_cst_def recovering.flat_cst_def build_flat_cst_def
      build_flat_cst_recovery_def)

text \<open>C2: The flat tree is lossless: for every source below four gibibytes, \<open>build_flat_cst\<close>
  returns a lexing error or a tree; it never panics; and the text of the tree is the source, byte
  for byte, with the cached length equal to the source's.\<close>

theorem build_flat_cst_round_trip:
  assumes "xid_closed L" "blen source < 2 ^ 32"
  shows "case build_flat_cst L source of
      Inr r \<Rightarrow> (\<exists>g. r = Some g \<and> green_text g = source \<and> green_kind g = K_Root \<and> green_ok g \<and>
                  unat (text_len g) = blen source)
    | Inl e \<Rightarrow> \<exists>w. e = LexError w"
  using strict.flat_cst_round_trip [OF assms] by (simp only: flat_cst_eqs)

theorem build_flat_cst_round_trip_witness:
  "\<exists>g. build_flat_cst ascii_lex_env (lit ''a +:b'') = Inr (Some g) \<and> green_text g = lit ''a +:b''"
proof -
  have "blen (lit ''a +:b'') < 2 ^ 32" by (simp add: lit_def len_utf8_def)
  from build_flat_cst_round_trip [OF ascii_xid_closed this] show ?thesis
    by (auto simp: build_flat_cst_def sample_tokenize)
qed

lemma recovery_tree:
  assumes "xid_closed L" "blen source < 2 ^ 32"
  shows "\<exists>g. build_flat_cst_recovery L source = Inr (Some g) \<and> green_text g = source \<and>
    green_kind g = K_Root \<and> green_ok g \<and> as_node g \<noteq> None"
proof -
  obtain toks where toks: "tokenize_recovery L source = Inr toks" "tiles source 0 toks"
    using tokenize_recovery_spec [OF assms(1), of source] by blast
  from recovering.flat_cst_round_trip [OF assms] toks build_flat_cst_tiles [OF toks(2) assms(2)]
  show ?thesis by (auto simp: flat_cst_eqs build_flat_cst_recovery_def as_node_def)
qed

text \<open>C12: The error-tolerant tree always exists and is lossless: \<open>build_flat_cst_recovery\<close>
  returns a tree for every source below four gibibytes, valid or not, and its text is the source.\<close>

theorem build_flat_cst_recovery_round_trip:
  assumes "xid_closed L" "blen source < 2 ^ 32"
  shows "\<exists>g. build_flat_cst_recovery L source = Inr (Some g) \<and> green_text g = source \<and> green_ok g"
  using recovery_tree [OF assms] by blast

theorem build_flat_cst_recovery_round_trip_witness:
  "\<exists>g. build_flat_cst_recovery ascii_lex_env (lit ''a @ `9'') = Inr (Some g) \<and>
     green_text g = lit ''a @ `9'' \<and> green_ok g"
  by (rule build_flat_cst_recovery_round_trip [OF ascii_xid_closed])
    (simp add: lit_def len_utf8_def)

end
