(* ===== verification/Red.thy ===== *)
theory Red
  imports Green
begin

text \<open>
  Positioned views of a tree: \<open>wqpl/src/cst/red.rs\<close>. A red node holds its green node, its
  parent, its index and its absolute byte offset, both 32-bit words that wrap. Iterators are
  modelled by \<open>cwt_next\<close>, one call of \<open>next\<close>, and by the list of what they yield; the stacks
  of the descendant iterators hold what each open iterator has still to yield.
\<close>

section \<open>Ranges\<close>

record text_range =
  tr_start :: u32
  tr_end :: u32

definition range_new :: "u32 \<Rightarrow> u32 \<Rightarrow> text_range" where
  "range_new s e = \<lparr>tr_start = s, tr_end = e\<rparr>"

definition range_empty :: "u32 \<Rightarrow> text_range" where
  "range_empty at = \<lparr>tr_start = at, tr_end = at\<rparr>"

definition range_len :: "text_range \<Rightarrow> u32" where
  "range_len r = tr_end r - tr_start r"

definition range_is_empty :: "text_range \<Rightarrow> bool" where
  "range_is_empty r \<longleftrightarrow> tr_start r = tr_end r"

definition range_contains :: "text_range \<Rightarrow> u32 \<Rightarrow> bool" where
  "range_contains r offset \<longleftrightarrow> tr_start r \<le> offset \<and> offset < tr_end r"

definition range_contains_inclusive :: "text_range \<Rightarrow> u32 \<Rightarrow> bool" where
  "range_contains_inclusive r offset \<longleftrightarrow> tr_start r \<le> offset \<and> offset \<le> tr_end r"

section \<open>Red nodes and tokens\<close>

datatype syntax_node =
  SyntaxNode (sn_green: green) (sn_parent: "syntax_node option") (sn_index: u32) (sn_offset: u32)

record syntax_token =
  st_parent :: syntax_node
  st_green :: green
  st_index :: u32
  st_offset :: u32

datatype syntax_element = ENode syntax_node | EToken syntax_token

definition new_root :: "green \<Rightarrow> syntax_node" where
  "new_root g = SyntaxNode g None 0 0"

definition node_children :: "green \<Rightarrow> green list" where
  "node_children g = (case g of GreenNode _ _ cs \<Rightarrow> cs | GreenToken _ _ \<Rightarrow> [])"

definition node_range :: "syntax_node \<Rightarrow> text_range" where
  "node_range n = range_new (sn_offset n) (sn_offset n + text_len (sn_green n))"

definition token_range :: "syntax_token \<Rightarrow> text_range" where
  "token_range t = range_new (st_offset t) (st_offset t + text_len (st_green t))"

definition node_text :: "syntax_node \<Rightarrow> ustr" where
  "node_text n = green_text (sn_green n)"

definition red_token_text :: "syntax_token \<Rightarrow> ustr" where
  "red_token_text t = green_text (st_green t)"

fun elem_kind :: "syntax_element \<Rightarrow> syntax_kind" where
  "elem_kind (ENode n) = green_kind (sn_green n)"
| "elem_kind (EToken t) = green_kind (st_green t)"

fun elem_range :: "syntax_element \<Rightarrow> text_range" where
  "elem_range (ENode n) = node_range n"
| "elem_range (EToken t) = token_range t"

fun elem_green :: "syntax_element \<Rightarrow> green" where
  "elem_green (ENode n) = sn_green n"
| "elem_green (EToken t) = st_green t"

fun elem_parent :: "syntax_element \<Rightarrow> syntax_node option" where
  "elem_parent (ENode n) = sn_parent n"
| "elem_parent (EToken t) = Some (st_parent t)"

fun elem_index :: "syntax_element \<Rightarrow> u32" where
  "elem_index (ENode n) = sn_index n"
| "elem_index (EToken t) = st_index t"

fun elem_offset :: "syntax_element \<Rightarrow> u32" where
  "elem_offset (ENode n) = sn_offset n"
| "elem_offset (EToken t) = st_offset t"

section \<open>Children\<close>

definition make_element :: "syntax_node \<Rightarrow> u32 \<Rightarrow> u32 \<Rightarrow> green \<Rightarrow> syntax_element" where
  "make_element parent index offset g =
     (case g of
        GreenNode _ _ _ \<Rightarrow> ENode (SyntaxNode g (Some parent) index offset)
      | GreenToken _ _ \<Rightarrow>
          EToken \<lparr>st_parent = parent, st_green = g, st_index = index, st_offset = offset\<rparr>)"

record children_iter =
  ci_parent :: syntax_node
  ci_index :: u32
  ci_offset :: u32

definition children_iter :: "syntax_node \<Rightarrow> children_iter" where
  "children_iter n = \<lparr>ci_parent = n, ci_index = 0, ci_offset = sn_offset n\<rparr>"

definition cwt_next :: "children_iter \<Rightarrow> (syntax_element \<times> children_iter) option" where
  "cwt_next it =
     (let cs = node_children (sn_green (ci_parent it)); i = unat (ci_index it)
      in if i < length cs then
           Some (make_element (ci_parent it) (ci_index it) (ci_offset it) (cs ! i),
                 it\<lparr>ci_offset := ci_offset it + text_len (cs ! i), ci_index := ci_index it + 1\<rparr>)
         else None)"

text \<open>What the iterator yields from an index and offset on.\<close>

fun elements_from :: "syntax_node \<Rightarrow> u32 \<Rightarrow> u32 \<Rightarrow> green list \<Rightarrow> syntax_element list" where
  "elements_from parent index offset [] = []"
| "elements_from parent index offset (g # gs) =
     make_element parent index offset g #
     elements_from parent (index + 1) (offset + text_len g) gs"

definition children_with_tokens :: "syntax_node \<Rightarrow> syntax_element list" where
  "children_with_tokens n = elements_from n 0 (sn_offset n) (node_children (sn_green n))"

definition child_nodes :: "syntax_node \<Rightarrow> syntax_node list" where
  "child_nodes n = [m. ENode m \<leftarrow> children_with_tokens n]"

definition child_tokens :: "syntax_node \<Rightarrow> syntax_token list" where
  "child_tokens n = [t. EToken t \<leftarrow> children_with_tokens n]"

section \<open>Sizes, for termination\<close>

fun gsize :: "green \<Rightarrow> nat" where
  "gsize (GreenToken k t) = 1"
| "gsize (GreenNode k n cs) = 1 + sum_list (map gsize cs)"

definition esize :: "syntax_element \<Rightarrow> nat" where
  "esize e = gsize (elem_green e)"

lemma gsize_pos [simp]: "0 < gsize g"
  by (cases g) simp_all

lemma esize_pos [simp]: "0 < esize e"
  by (simp add: esize_def)

lemma elem_green_make [simp]: "elem_green (make_element p i off g) = g"
  by (cases g) (simp_all add: make_element_def)

lemma esize_elements: "sum_list (map esize (elements_from p i off gs)) = sum_list (map gsize gs)"
  by (induction p i off gs rule: elements_from.induct) (simp_all add: esize_def)

lemma esize_children: "sum_list (map esize (children_with_tokens n)) < gsize (sn_green n)"
  by (cases "sn_green n") (simp_all add: children_with_tokens_def esize_elements node_children_def)

lemma esize_children2: "Suc (2 * sum_list (map esize (children_with_tokens n))) < 2 * gsize (sn_green n)"
  using esize_children [of n] by linarith

lemma esize_child:
  assumes "ENode m \<in> set (children_with_tokens n)"
  shows "gsize (sn_green m) < gsize (sn_green n)"
proof -
  have "esize (ENode m) \<le> sum_list (map esize (children_with_tokens n))"
    by (rule member_le_sum_list) (use assms in \<open>auto intro: imageI\<close>)
  with esize_children [of n] show ?thesis by (simp add: esize_def)
qed

section \<open>First, last and covering token\<close>

function first_token :: "syntax_node \<Rightarrow> syntax_token option"
  and first_in :: "syntax_element list \<Rightarrow> syntax_token option" where
  "first_token n = first_in (children_with_tokens n)"
| "first_in [] = None"
| "first_in (EToken t # es) = Some t"
| "first_in (ENode n # es) =
     (case first_token n of Some t \<Rightarrow> Some t | None \<Rightarrow> first_in es)"
  by pat_completeness auto
termination
  by (relation "measure (\<lambda>x. case x of Inl n \<Rightarrow> 2 * gsize (sn_green n)
      | Inr es \<Rightarrow> 2 * sum_list (map esize es) + 1)")
    (use esize_children2 in \<open>auto simp: esize_def\<close>)

text \<open>\<open>last_in\<close> walks the children from the last to the first.\<close>

function last_token :: "syntax_node \<Rightarrow> syntax_token option"
  and last_in :: "syntax_element list \<Rightarrow> syntax_token option" where
  "last_token n = last_in (rev (children_with_tokens n))"
| "last_in [] = None"
| "last_in (EToken t # es) = Some t"
| "last_in (ENode n # es) =
     (case last_token n of Some t \<Rightarrow> Some t | None \<Rightarrow> last_in es)"
  by pat_completeness auto
termination
  by (relation "measure (\<lambda>x. case x of Inl n \<Rightarrow> 2 * gsize (sn_green n)
      | Inr es \<Rightarrow> 2 * sum_list (map esize es) + 1)")
    (use esize_children2 in \<open>auto simp: esize_def rev_map [symmetric]\<close>)

function token_at_offset :: "syntax_node \<Rightarrow> u32 \<Rightarrow> syntax_token option" where
  "token_at_offset n offset =
     (if \<not> range_contains_inclusive (node_range n) offset then None
      else case find (\<lambda>e. range_contains (elem_range e) offset) (children_with_tokens n) of
             Some (EToken t) \<Rightarrow> Some t
           | Some (ENode m) \<Rightarrow> token_at_offset m offset
           | None \<Rightarrow> if offset = tr_end (node_range n) then last_token n else None)"
  by pat_completeness auto
termination
  by (relation "measure (\<lambda>(n, off). gsize (sn_green n))")
    (auto simp: find_Some_iff intro!: esize_child dest: nth_mem)

declare first_token.simps [simp del] last_token.simps [simp del] token_at_offset.simps [simp del]

end
