(* ===== verification/Red_Facts.thy ===== *)
theory Red_Facts
  imports Red
begin

text \<open>
  Traversals of the red tree and their correctness: the stack-based descendant iterators yield
  the pre-order traversal, every element's range is exactly its text in the source, and the
  token lookups return the tokens they promise.
\<close>

section \<open>Descendant iterators\<close>

text \<open>One call of \<open>Descendants::next\<close> and of \<open>DescendantsWithTokens::next\<close>.\<close>

function desc_next :: "syntax_element list list \<Rightarrow> (syntax_node \<times> syntax_element list list) option" where
  "desc_next [] = None"
| "desc_next ([] # st) = desc_next st"
| "desc_next ((ENode n # es) # st) = Some (n, children_with_tokens n # es # st)"
| "desc_next ((EToken t # es) # st) = desc_next (es # st)"
  by pat_completeness auto
termination
  by (relation "measure (\<lambda>st. sum_list (map length st) + length st)") auto

function desc_tok_next ::
  "syntax_element list list \<Rightarrow> (syntax_element \<times> syntax_element list list) option" where
  "desc_tok_next [] = None"
| "desc_tok_next ([] # st) = desc_tok_next st"
| "desc_tok_next ((ENode n # es) # st) = Some (ENode n, children_with_tokens n # es # st)"
| "desc_tok_next ((EToken t # es) # st) = Some (EToken t, es # st)"
  by pat_completeness auto
termination
  by (relation "measure (\<lambda>st. length st)") auto

definition stack_size :: "syntax_element list list \<Rightarrow> nat" where
  "stack_size st = sum_list (map (\<lambda>es. sum_list (map esize es)) st)"

lemma stack_size_simps [simp]:
  "stack_size [] = 0" "stack_size (es # st) = sum_list (map esize es) + stack_size st"
  by (simp_all add: stack_size_def)

lemma desc_next_less: "desc_next st = Some (n, st') \<Longrightarrow> stack_size st' < stack_size st"
proof (induction st rule: desc_next.induct)
  case (3 n es st)
  then show ?case using esize_children [of n] by (auto simp: esize_def)
qed (auto intro: less_le_trans)

lemma desc_tok_next_less: "desc_tok_next st = Some (e, st') \<Longrightarrow> stack_size st' < stack_size st"
proof (induction st rule: desc_tok_next.induct)
  case (3 n es st)
  then show ?case using esize_children [of n] by (auto simp: esize_def)
qed auto

function drain_nodes :: "syntax_element list list \<Rightarrow> syntax_node list" where
  "drain_nodes st =
     (case desc_next st of None \<Rightarrow> [] | Some (n, st') \<Rightarrow> n # drain_nodes st')"
  by pat_completeness auto
termination
  by (relation "measure stack_size") (auto dest: desc_next_less)

function drain_elements :: "syntax_element list list \<Rightarrow> syntax_element list" where
  "drain_elements st =
     (case desc_tok_next st of None \<Rightarrow> [] | Some (e, st') \<Rightarrow> e # drain_elements st')"
  by pat_completeness auto
termination
  by (relation "measure stack_size") (auto dest: desc_tok_next_less)

declare drain_nodes.simps [simp del] drain_elements.simps [simp del]

definition descendants :: "syntax_node \<Rightarrow> syntax_node list" where
  "descendants n = drain_nodes [children_with_tokens n]"

definition descendants_with_tokens :: "syntax_node \<Rightarrow> syntax_element list" where
  "descendants_with_tokens n = drain_elements [children_with_tokens n]"

text \<open>The reference: pre-order by recursion.\<close>

function preorder :: "syntax_element list \<Rightarrow> syntax_element list" where
  "preorder [] = []"
| "preorder (EToken t # es) = EToken t # preorder es"
| "preorder (ENode n # es) = ENode n # preorder (children_with_tokens n) @ preorder es"
  by pat_completeness auto
termination
proof (relation "measure (\<lambda>es. sum_list (map esize es))")
  fix n es
  show "(children_with_tokens n, ENode n # es) \<in> measure (\<lambda>es. sum_list (map esize es))"
    using esize_children [of n] by (simp add: esize_def)
qed auto

definition only_nodes :: "syntax_element list \<Rightarrow> syntax_node list" where
  "only_nodes es = [n. ENode n \<leftarrow> es]"

definition only_tokens :: "syntax_element list \<Rightarrow> syntax_token list" where
  "only_tokens es = [t. EToken t \<leftarrow> es]"

lemma only_simps [simp]:
  "only_nodes [] = []" "only_nodes (ENode n # es) = n # only_nodes es"
  "only_nodes (EToken t # es) = only_nodes es" "only_nodes (es @ fs) = only_nodes es @ only_nodes fs"
  "only_tokens [] = []" "only_tokens (ENode n # es) = only_tokens es"
  "only_tokens (EToken t # es) = t # only_tokens es"
  "only_tokens (es @ fs) = only_tokens es @ only_tokens fs"
  by (simp_all add: only_nodes_def only_tokens_def)

lemma preorder_append: "preorder (es @ fs) = preorder es @ preorder fs"
  by (induction es rule: preorder.induct) auto

lemma desc_next_preorder:
  "only_nodes (concat (map preorder st)) =
    (case desc_next st of None \<Rightarrow> [] | Some (n, st') \<Rightarrow> n # only_nodes (concat (map preorder st')))"
  by (induction st rule: desc_next.induct) auto

lemma desc_tok_next_preorder:
  "concat (map preorder st) =
    (case desc_tok_next st of None \<Rightarrow> [] | Some (e, st') \<Rightarrow> e # concat (map preorder st'))"
  by (induction st rule: desc_tok_next.induct) auto

lemma drain_elements_preorder: "drain_elements st = concat (map preorder st)"
proof (induction st rule: drain_elements.induct)
  case (1 st)
  then show ?case
    by (subst drain_elements.simps, subst desc_tok_next_preorder)
      (auto split: option.split)
qed

lemma drain_nodes_preorder: "drain_nodes st = only_nodes (concat (map preorder st))"
proof (induction st rule: drain_nodes.induct)
  case (1 st)
  then show ?case
    by (subst drain_nodes.simps, subst desc_next_preorder) (auto split: option.split)
qed

lemma descendants_with_tokens_eq: "descendants_with_tokens n = preorder (children_with_tokens n)"
  by (simp add: descendants_with_tokens_def drain_elements_preorder)

text \<open>The stack machines behind the descendant iterators terminate and yield the pre-order
  traversal: \<open>descendants_with_tokens\<close> every element below a node, parents before children and
  left before right, and \<open>descendants\<close> the nodes among them in the same order.\<close>

theorem descendants_preorder:
  "descendants_with_tokens n = preorder (children_with_tokens n) \<and>
   descendants n = only_nodes (preorder (children_with_tokens n))"
  by (simp add: descendants_with_tokens_eq descendants_def drain_nodes_preorder)

section \<open>Children\<close>

text \<open>\<open>k\<close> calls of \<open>next\<close>: what they yield and the iterator behind them.\<close>

fun cwt_take :: "nat \<Rightarrow> children_iter \<Rightarrow> syntax_element list" where
  "cwt_take 0 it = []"
| "cwt_take (Suc k) it = (case cwt_next it of None \<Rightarrow> [] | Some (e, it') \<Rightarrow> e # cwt_take k it')"

lemma cwt_take_from:
  assumes "node_children (sn_green p) = done1 @ gs" "unat i = length done1"
    "length (done1 @ gs) < 2 ^ 32" "length gs \<le> k"
  shows "cwt_take k \<lparr>ci_parent = p, ci_index = i, ci_offset = off\<rparr> = elements_from p i off gs"
  using assms
proof (induction gs arbitrary: done1 i off k)
  case Nil
  then show ?case by (cases k) (simp_all add: cwt_next_def Let_def)
next
  case (Cons g gs)
  obtain k' where k: "k = Suc k'" using Cons.prems(4) by (cases k) auto
  have "unat (i + 1) = length (done1 @ [g])"
    using Cons.prems(2,3) by (simp add: unat_word_ariths(1))
  from Cons.IH [OF _ this, of k' "off + text_len g"] Cons.prems k show ?case
    by (simp add: cwt_next_def Let_def nth_append)
qed

lemma elements_from_nth:
  "k < length gs \<Longrightarrow> \<exists>off'. elements_from p i off gs ! k = make_element p (i + word_of_nat k) off' (gs ! k)"
proof (induction gs arbitrary: i off k)
  case (Cons g gs)
  show ?case
  proof (cases k)
    case (Suc j)
    with Cons.IH [of j "i + 1" "off + text_len g"] Cons.prems show ?thesis
      by (simp add: algebra_simps)
  qed auto
qed simp

lemma length_elements_from [simp]: "length (elements_from p i off gs) = length gs"
  by (induction gs arbitrary: i off) simp_all

lemma make_element_sel [simp]:
  "elem_parent (make_element p i off g) = Some p" "elem_index (make_element p i off g) = i"
  "elem_offset (make_element p i off g) = off"
  by (cases g; simp add: make_element_def)+

text \<open>The child iterator is exact: as long as a node has fewer than \<open>2 ^ 32\<close> children, calling
  \<open>next\<close> until it is exhausted yields one element per green child, in order, and each of them
  points back to its parent, its index and its green child.\<close>

theorem children_iterator_exact:
  assumes "length (node_children (sn_green n)) < 2 ^ 32" "length (node_children (sn_green n)) \<le> fuel"
    "k < length (node_children (sn_green n))"
  shows "cwt_take fuel (children_iter n) = children_with_tokens n \<and>
    length (children_with_tokens n) = length (node_children (sn_green n)) \<and>
    elem_parent (children_with_tokens n ! k) = Some n \<and>
    unat (elem_index (children_with_tokens n ! k)) = k \<and>
    elem_green (children_with_tokens n ! k) = node_children (sn_green n) ! k"
proof -
  have "cwt_take fuel (children_iter n) = children_with_tokens n"
    using cwt_take_from [of n "[]" _ 0 fuel "sn_offset n"] assms(1,2)
    by (simp add: children_iter_def children_with_tokens_def)
  moreover obtain off where "children_with_tokens n ! k =
      make_element n (word_of_nat k) off (node_children (sn_green n) ! k)"
    using elements_from_nth [OF assms(3), of n 0 "sn_offset n"]
    by (auto simp: children_with_tokens_def)
  moreover have "unat (word_of_nat k :: u32) = k"
    using assms(1,3) by (intro unat_word_of_nat_32) simp
  ultimately show ?thesis by (simp add: children_with_tokens_def)
qed

definition sample_red :: syntax_node where
  "sample_red = new_root (GreenNode K_Root 4 [GreenNode K_BinaryExpr 3 [GreenToken K_IntLit (lit ''1''),
       GreenToken K_Plus (lit ''+''), GreenToken K_IntLit (lit ''2'')], GreenToken K_Newline [10]])"

theorem children_iterator_exact_witness:
  "elem_parent (children_with_tokens sample_red ! 1) = Some sample_red \<and>
   unat (elem_index (children_with_tokens sample_red ! 1)) = 1 \<and>
   elem_green (children_with_tokens sample_red ! 1) = GreenToken K_Newline [10]"
  using children_iterator_exact [of sample_red 2 1]
  by (simp add: sample_red_def new_root_def node_children_def)

section \<open>Positions\<close>

definition located :: "ustr \<Rightarrow> u32 \<Rightarrow> green \<Rightarrow> bool" where
  "located src off g \<longleftrightarrow>
     green_ok g \<and> str_slice src (unat off) (unat off + blen (green_text g)) = Some (green_text g)"

fun elem_shape :: "syntax_element \<Rightarrow> bool" where
  "elem_shape (ENode n) \<longleftrightarrow> as_node (sn_green n) \<noteq> None"
| "elem_shape (EToken t) \<longleftrightarrow> as_token (st_green t) \<noteq> None"

definition red_ok :: "ustr \<Rightarrow> syntax_element \<Rightarrow> bool" where
  "red_ok src e \<longleftrightarrow> elem_shape e \<and> located src (elem_offset e) (elem_green e)"

lemma elem_shape_make [simp]: "elem_shape (make_element p i off g)"
  by (cases g) (simp_all add: make_element_def as_node_def as_token_def)

lemma elem_range_eq:
  "elem_range e = range_new (elem_offset e) (elem_offset e + text_len (elem_green e))"
  by (cases e) (simp_all add: node_range_def token_range_def)

lemma located_end:
  assumes "located src off g" "blen src < 2 ^ 32"
  shows "unat (off + text_len g) = unat off + blen (green_text g)"
    "unat off + blen (green_text g) \<le> blen src"
proof -
  have "green_ok g" using assms(1) by (simp add: located_def)
  show le: "unat off + blen (green_text g) \<le> blen src"
    using assms(1) unfolding located_def str_slice_Some_iff by auto
  show "unat (off + text_len g) = unat off + blen (green_text g)"
    using le assms(2) green_ok_len [OF \<open>green_ok g\<close>] by (simp add: unat_word_ariths(1))
qed

lemma elements_located:
  assumes "src = pre @ concat (map green_text gs) @ post" "unat off = blen pre" "blen src < 2 ^ 32"
    "list_all green_ok gs"
  shows "list_all (red_ok src) (elements_from p i off gs)"
  using assms
proof (induction gs arbitrary: pre i off)
  case (Cons g gs)
  have loc: "located src off g"
    using Cons.prems str_slice_append [of pre "green_text g" "concat (map green_text gs) @ post"]
    by (simp add: located_def)
  have "unat (off + text_len g) = blen (pre @ green_text g)"
    using located_end [OF loc Cons.prems(3)] Cons.prems(2) by simp
  with Cons.IH [of "pre @ green_text g" "off + text_len g" "i + 1"] Cons.prems loc show ?case
    by (simp add: red_ok_def)
qed simp

lemma children_located:
  assumes "red_ok src (ENode n)" "blen src < 2 ^ 32"
  shows "list_all (red_ok src) (children_with_tokens n)"
proof -
  obtain k l cs where g: "sn_green n = GreenNode k l cs"
    using assms(1) by (cases "sn_green n") (auto simp: red_ok_def as_node_def)
  obtain pre post where "src = pre @ green_text (sn_green n) @ post" "blen pre = unat (sn_offset n)"
    using assms(1) unfolding red_ok_def located_def str_slice_Some_iff by auto
  with g assms show ?thesis
    unfolding children_with_tokens_def
    by (intro elements_located [of _ pre _ post]) (simp_all add: node_children_def red_ok_def located_def)
qed

lemma preorder_located:
  assumes "blen src < 2 ^ 32" "list_all (red_ok src) es"
  shows "list_all (red_ok src) (preorder es)"
  using assms(2) children_located [OF _ assms(1)]
  by (induction es rule: preorder.induct) (auto simp: list_all_append)

lemma root_located:
  assumes "green_ok g" "as_node g \<noteq> None"
  shows "red_ok (green_text g) (ENode (new_root g))"
  using assms str_slice_append [of "[]" "green_text g" "[]"]
  by (simp add: red_ok_def located_def new_root_def)

lemma element_range:
  assumes "green_ok g" "as_node g \<noteq> None" "e \<in> set (descendants_with_tokens (new_root g))"
  shows "str_slice (green_text g) (unat (tr_start (elem_range e))) (unat (tr_end (elem_range e)))
    = Some (green_text (elem_green e))"
proof -
  note small = green_ok_less [OF assms(1)]
  have "list_all (red_ok (green_text g)) (descendants_with_tokens (new_root g))"
    unfolding descendants_with_tokens_eq
    by (rule preorder_located [OF small children_located [OF root_located [OF assms(1,2)] small]])
  then have "located (green_text g) (elem_offset e) (elem_green e)"
    using assms(3) by (auto simp: list_all_iff red_ok_def)
  with located_end [OF this small] show ?thesis
    by (simp add: elem_range_eq range_new_def located_def)
qed

text \<open>C11: Red offsets are exact and never wrap: in the red tree over any well-formed green tree,
  the range of every node and token, at whatever depth, is the byte range of its own text in the
  text of the whole tree.\<close>

theorem descendants_ranges:
  assumes "green_ok g" "as_node g \<noteq> None" "e \<in> set (descendants_with_tokens (new_root g))"
  shows "str_slice (green_text g) (unat (tr_start (elem_range e))) (unat (tr_end (elem_range e)))
    = Some (green_text (elem_green e))"
  by (rule element_range [OF assms])

lemma sample_red_ok:
  "green_ok (sn_green sample_red)" "as_node (sn_green sample_red) \<noteq> None"
  "new_root (sn_green sample_red) = sample_red"
  "green_text (sn_green sample_red) = lit ''1+2'' @ [10]"
  by (simp_all add: sample_red_def new_root_def as_node_def lit_def len_utf8_def)

lemma sample_descendants:
  "map elem_kind (descendants_with_tokens sample_red) =
    [K_BinaryExpr, K_IntLit, K_Plus, K_IntLit, K_Newline]"
  by (simp add: descendants_with_tokens_eq sample_red_def new_root_def children_with_tokens_def
      node_children_def make_element_def)

theorem descendants_ranges_witness:
  "\<exists>e\<in>set (descendants_with_tokens sample_red). elem_kind e = K_Plus \<and>
     str_slice (lit ''1+2'' @ [10]) (unat (tr_start (elem_range e))) (unat (tr_end (elem_range e)))
       = Some (green_text (elem_green e))"
proof -
  have "K_Plus \<in> set (map elem_kind (descendants_with_tokens sample_red))"
    unfolding sample_descendants by simp
  then obtain e where e: "e \<in> set (descendants_with_tokens sample_red)" "elem_kind e = K_Plus" by auto
  from descendants_ranges [OF sample_red_ok(1,2), unfolded sample_red_ok(3,4), OF e(1)] e
  show ?thesis by blast
qed

section \<open>Leaves\<close>

definition leaf_tokens :: "syntax_node \<Rightarrow> syntax_token list" where
  "leaf_tokens n = only_tokens (descendants_with_tokens n)"

definition hd_opt :: "'a list \<Rightarrow> 'a option" where
  "hd_opt xs = (case xs of [] \<Rightarrow> None | x # _ \<Rightarrow> Some x)"

lemma hd_opt_append: "hd_opt (xs @ ys) = (case hd_opt xs of None \<Rightarrow> hd_opt ys | Some x \<Rightarrow> Some x)"
  by (cases xs) (simp_all add: hd_opt_def)

lemma hd_opt_simps [simp]: "hd_opt [] = None" "hd_opt (x # xs) = Some x"
  by (simp_all add: hd_opt_def)

lemma first_token_leaves:
  "first_token n = hd_opt (only_tokens (preorder (children_with_tokens n)))"
  "first_in es = hd_opt (only_tokens (preorder es))"
proof (induction n and es rule: first_token_first_in.induct)
  case (1 n)
  then show ?case by (simp add: first_token.simps)
qed (simp_all add: hd_opt_append split: option.split)

lemma last_token_leaves:
  "last_token n = hd_opt (rev (only_tokens (preorder (children_with_tokens n))))"
  "last_in es = hd_opt (rev (only_tokens (preorder (rev es))))"
proof (induction n and es rule: last_token_last_in.induct)
  case (1 n)
  then show ?case by (simp add: last_token.simps)
qed (simp_all add: preorder_append hd_opt_append split: option.split)

text \<open>\<open>first_token\<close> and \<open>last_token\<close> are the ends of the token sequence below a node:
  the first and the last leaf in source order, and nothing exactly when the subtree has no token.\<close>

theorem first_last_token:
  "first_token n = hd_opt (leaf_tokens n) \<and> last_token n = hd_opt (rev (leaf_tokens n)) \<and>
   (first_token n = None \<longleftrightarrow> leaf_tokens n = [])"
  unfolding leaf_tokens_def descendants_with_tokens_eq
  by (auto simp: first_token_leaves last_token_leaves hd_opt_def split: list.splits)

section \<open>Lookup by offset\<close>

lemma find_elements:
  assumes "src = pre @ concat (map green_text gs) @ post" "unat off = blen pre" "blen src < 2 ^ 32"
    "list_all green_ok gs" "unat off \<le> unat x" "unat x < unat off + blen (concat (map green_text gs))"
  shows "find (\<lambda>e. range_contains (elem_range e) x) (elements_from p i off gs) \<noteq> None"
  using assms
proof (induction gs arbitrary: pre i off)
  case (Cons g gs)
  have loc: "located src off g"
    using elements_located [OF Cons.prems(1-4), of p i] by (simp add: red_ok_def)
  note off' = located_end(1) [OF loc Cons.prems(3)]
  let ?e = "make_element p i off g"
  show ?case
  proof (cases "range_contains (elem_range ?e) x")
    case False
    then have "unat off + blen (green_text g) \<le> unat x"
      using Cons.prems(5) off'
      by (simp add: range_contains_def elem_range_eq range_new_def word_le_nat_alt word_less_nat_alt)
    with Cons.IH [of "pre @ green_text g" "off + text_len g" "i + 1"] Cons.prems off' False
    show ?thesis by simp
  qed simp
qed simp

lemma preorder_member: "e \<in> set es \<Longrightarrow> e \<in> set (preorder es)"
  by (induction es rule: preorder.induct) auto

lemma preorder_child: "ENode m \<in> set es \<Longrightarrow> set (preorder (children_with_tokens m)) \<subseteq> set (preorder es)"
  by (induction es rule: preorder.induct) auto

lemma token_at_offset_inside:
  assumes "red_ok src (ENode n)" "blen src < 2 ^ 32" "range_contains (node_range n) x"
  shows "\<exists>t. token_at_offset n x = Some t \<and> EToken t \<in> set (preorder (children_with_tokens n)) \<and>
    range_contains (token_range t) x"
  using assms
proof (induction n x rule: token_at_offset.induct)
  case (1 n x)
  note small = "1.prems"(2)
  obtain k l cs where g: "sn_green n = GreenNode k l cs"
    using "1.prems"(1) by (cases "sn_green n") (auto simp: red_ok_def as_node_def)
  have loc: "located src (sn_offset n) (sn_green n)" using "1.prems"(1) by (simp add: red_ok_def)
  obtain pre post where src: "src = pre @ green_text (sn_green n) @ post" "blen pre = unat (sn_offset n)"
    using loc unfolding located_def str_slice_Some_iff by auto
  have bounds: "unat (sn_offset n) \<le> unat x" "unat x < unat (sn_offset n) + blen (green_text (sn_green n))"
    using "1.prems"(3) located_end(1) [OF loc small]
    by (simp_all add: range_contains_def node_range_def range_new_def word_le_nat_alt word_less_nat_alt)
  have incl: "range_contains_inclusive (node_range n) x"
    using "1.prems"(3) by (auto simp: range_contains_def range_contains_inclusive_def)
  have "find (\<lambda>e. range_contains (elem_range e) x) (children_with_tokens n) \<noteq> None"
    unfolding children_with_tokens_def
    using src bounds small loc g
    by (intro find_elements [of src pre _ post]) (simp_all add: node_children_def located_def)
  then obtain e where e: "find (\<lambda>e. range_contains (elem_range e) x) (children_with_tokens n) = Some e"
    by blast
  then have mem: "e \<in> set (children_with_tokens n)" and hit: "range_contains (elem_range e) x"
    by (auto simp: find_Some_iff)
  show ?case
  proof (cases e)
    case (EToken t)
    with incl e mem hit show ?thesis
      by (subst (1) token_at_offset.simps) (auto intro: preorder_member)
  next
    case (ENode m)
    have "red_ok src (ENode m)"
      using children_located [OF "1.prems"(1) small] mem ENode by (auto simp: list_all_iff)
    moreover have "range_contains (node_range m) x" using hit ENode by simp
    ultimately obtain t where "token_at_offset m x = Some t"
      "EToken t \<in> set (preorder (children_with_tokens m))" "range_contains (token_range t) x"
      using "1.IH" [of e m] incl e ENode small by auto
    with incl e ENode mem preorder_child [of m "children_with_tokens n"] show ?thesis
      by (subst (1) token_at_offset.simps) auto
  qed
qed

text \<open>C10: Offset lookup is exact on every well-formed tree: inside the text it returns a token of
  the tree whose range contains the offset, at the very end the last token, and beyond it
  nothing.\<close>

theorem token_at_offset_exact:
  assumes "green_ok g" "as_node g \<noteq> None"
  shows "(if unat x < blen (green_text g)
     then \<exists>t. token_at_offset (new_root g) x = Some t \<and> t \<in> set (leaf_tokens (new_root g)) \<and>
            range_contains (token_range t) x
     else if unat x = blen (green_text g) then token_at_offset (new_root g) x = last_token (new_root g)
     else token_at_offset (new_root g) x = None)"
proof -
  let ?r = "new_root g"
  note small = green_ok_less [OF assms(1)]
  have range: "node_range ?r = range_new 0 (text_len g)" by (simp add: node_range_def new_root_def)
  have len: "unat (text_len g) = blen (green_text g)" by (rule green_ok_len [OF assms(1)])
  have no_hit: "find (\<lambda>e. range_contains (elem_range e) x) (children_with_tokens ?r) = None"
    if "blen (green_text g) \<le> unat x"
  proof -
    have "\<not> range_contains (elem_range e) x" if "e \<in> set (children_with_tokens ?r)" for e
    proof -
      have "located (green_text g) (elem_offset e) (elem_green e)"
        using children_located [OF root_located [OF assms] small] that
        by (auto simp: list_all_iff red_ok_def)
      from located_end [OF this small] \<open>blen (green_text g) \<le> unat x\<close> show ?thesis
        by (simp add: range_contains_def elem_range_eq range_new_def word_less_nat_alt)
    qed
    then show ?thesis by (simp add: find_None_iff)
  qed
  have tok: "EToken t \<in> set es \<Longrightarrow> t \<in> set (only_tokens es)" for t es
    by (induction es) (auto simp: only_tokens_def)
  have incl: "range_contains_inclusive (node_range ?r) x \<longleftrightarrow> unat x \<le> blen (green_text g)"
    by (simp add: range range_contains_inclusive_def range_new_def word_le_nat_alt len)
  consider "unat x < blen (green_text g)" | "unat x = blen (green_text g)" | "blen (green_text g) < unat x"
    by linarith
  then show ?thesis
  proof cases
    case 1
    then have "range_contains (node_range ?r) x"
      by (simp add: range range_contains_def range_new_def word_less_nat_alt len)
    from token_at_offset_inside [OF root_located [OF assms] small this] 1 tok show ?thesis
      by (auto simp: leaf_tokens_def descendants_with_tokens_eq)
  next
    case 2
    then have "x = tr_end (node_range ?r)" by (simp add: range range_new_def word_unat_eq_iff len)
    with 2 no_hit incl show ?thesis by (subst token_at_offset.simps) simp
  next
    case 3
    with incl show ?thesis by (subst token_at_offset.simps) simp
  qed
qed

theorem token_at_offset_exact_witness:
  "(\<exists>t. token_at_offset sample_red 1 = Some t \<and> t \<in> set (leaf_tokens sample_red) \<and>
      range_contains (token_range t) 1) \<and>
   token_at_offset sample_red 4 = last_token sample_red \<and> token_at_offset sample_red 5 = None"
  using token_at_offset_exact [OF sample_red_ok(1,2), of 1] token_at_offset_exact [OF sample_red_ok(1,2), of 4]
    token_at_offset_exact [OF sample_red_ok(1,2), of 5]
  by (simp add: sample_red_ok lit_def len_utf8_def)

section \<open>Leaf texts\<close>

lemma elements_texts: "concat (map (\<lambda>e. green_text (elem_green e)) (elements_from p i off gs)) =
  concat (map green_text gs)"
  by (induction gs arbitrary: i off) simp_all

lemma children_texts:
  "as_node (sn_green n) \<noteq> None \<Longrightarrow>
   concat (map (\<lambda>e. green_text (elem_green e)) (children_with_tokens n)) = node_text n"
  by (cases "sn_green n")
    (simp_all add: children_with_tokens_def elements_texts node_children_def node_text_def as_node_def)

lemma children_shape: "list_all elem_shape (children_with_tokens n)"
proof -
  have "list_all elem_shape (elements_from p i off gs)" for p i off gs
    by (induction gs arbitrary: i off) simp_all
  then show ?thesis by (simp add: children_with_tokens_def)
qed

lemma leaf_texts:
  "list_all elem_shape es \<Longrightarrow>
   concat (map red_token_text (only_tokens (preorder es))) =
   concat (map (\<lambda>e. green_text (elem_green e)) es)"
  by (induction es rule: preorder.induct)
    (simp_all add: children_shape children_texts node_text_def red_token_text_def)

lemma root_leaf_texts:
  "as_node g \<noteq> None \<Longrightarrow> concat (map red_token_text (leaf_tokens (new_root g))) = green_text g"
  using leaf_texts [OF children_shape, of "new_root g"] children_texts [of "new_root g"]
  by (simp add: leaf_tokens_def descendants_with_tokens_eq node_text_def new_root_def)

end
