(* ===== verification/Operators.thy ===== *)
theory Operators
  imports Prelude
begin

text \<open>Operators of the syntax tree and the bytecode: \<open>wqpl/src/ast/operator.rs\<close>.\<close>

datatype binary_operator =
    Bin_Add | Bin_Subtract | Bin_Multiply | Bin_Power | Bin_PowerDot | Bin_Divide | Bin_DivideDot
  | Bin_Modulo | Bin_Matmul
  | Bin_Equal | Bin_EqualDot | Bin_NotEqual | Bin_NotEqualDot | Bin_Lt | Bin_Lte | Bin_Gt | Bin_Gte
  | Bin_Cat | Bin_BitAnd | Bin_BitOr | Bin_Shl | Bin_Shr | Bin_BitXor | Bin_FloorDiv

datatype bool_operator = Bool_And | Bool_Or

datatype unary_operator = Un_Negate | Un_Count | Un_Not

definition binary_op_display :: "binary_operator \<Rightarrow> string" where
  "binary_op_display op = (case op of
     Bin_Add \<Rightarrow> ''+'' | Bin_Subtract \<Rightarrow> ''-'' | Bin_Multiply \<Rightarrow> ''*'' | Bin_Power \<Rightarrow> ''^''
   | Bin_PowerDot \<Rightarrow> ''^.'' | Bin_Divide \<Rightarrow> ''/'' | Bin_DivideDot \<Rightarrow> ''/.'' | Bin_Modulo \<Rightarrow> ''%''
   | Bin_Matmul \<Rightarrow> ''**''
   | Bin_Equal \<Rightarrow> ''='' | Bin_EqualDot \<Rightarrow> ''=.'' | Bin_NotEqual \<Rightarrow> ''~'' | Bin_NotEqualDot \<Rightarrow> ''~.''
   | Bin_BitAnd \<Rightarrow> ''band'' | Bin_BitOr \<Rightarrow> ''bor'' | Bin_Shl \<Rightarrow> ''shl'' | Bin_Shr \<Rightarrow> ''shr''
   | Bin_BitXor \<Rightarrow> ''bxor'' | Bin_FloorDiv \<Rightarrow> ''/%''
   | Bin_Lt \<Rightarrow> ''<'' | Bin_Lte \<Rightarrow> ''<='' | Bin_Gt \<Rightarrow> ''>'' | Bin_Gte \<Rightarrow> ''>='' | Bin_Cat \<Rightarrow> '','')"

definition bool_op_display :: "bool_operator \<Rightarrow> string" where
  "bool_op_display op = (case op of Bool_And \<Rightarrow> ''and'' | Bool_Or \<Rightarrow> ''or'')"

definition unary_op_display :: "unary_operator \<Rightarrow> string" where
  "unary_op_display op = (case op of Un_Negate \<Rightarrow> ''-'' | Un_Count \<Rightarrow> ''#'' | Un_Not \<Rightarrow> ''~'')"

end
