(* ===== verification/Inst.thy ===== *)
theory Inst
  imports Operators
begin

text \<open>
  Bytecode: \<open>wqpl/src/vm/inst.rs\<close> and the function payloads of \<open>wqpl/src/value/func.rs\<close>.
  \<open>instruction\<close> has one value per variant of \<open>Instruction\<close>: the variants that contain values or
  other instructions are constructors of the recursive datatype, the others are grouped in six
  enumerations; every variant is named \<open>I_<Variant>\<close>. Of \<open>Value\<close> the passes and the interpreter core inspect numbers, booleans, lists and
  compiled functions only; all other variants are \<open>V_Other\<close> with their content of type \<open>'o\<close>.
  Debug provenance, which the passes only copy, is left out; so are \<open>Arc\<close> and \<open>Box\<close>, and the
  fields of a function without code are one record for functions and closures (a closure always
  has its debug arrays).
\<close>

section \<open>Operands and targets\<close>

datatype capture =
    Cap_Local u16 | Cap_LocalShared u16 | Cap_FromCapture u16 | Cap_Global ustr "(nat \<times> nat) option"

record debug_stmt_mark =
  mk_pc :: nat
  mk_start :: nat
  mk_end :: nat

record named_arg_meta =
  na_pos_count :: u16
  na_named :: "(u16 \<times> ustr) list"

datatype mutation_op = M_Pop | M_Remove | M_Insert | M_InsertAt

datatype store_target = ST_Local u16 | ST_Capture u16 | ST_Var ustr

datatype unpack_segment = Seg_Index i64 | Seg_Key ustr

type_synonym unpack_plan = "unpack_segment list list"

section \<open>Instructions without nested values\<close>

datatype load_inst =
    L_OwnedConst nat | L_Var ustr | L_VarExists ustr | L_Capture u16 | L_Self | L_Local u16
  | L_Unpack nat

datatype store_inst =
    S_Var ustr | S_VarKeep ustr | S_Local u16 | S_LocalKeep u16 | S_CaptureKeep u16 | S_Capture u16

datatype call_inst =
    C_BuiltinId u16 u16 | C_BuiltinDiscardId u16 u16
  | C_Local u16 nat | C_User ustr nat | C_TailLocal u16 nat | C_TailUser ustr nat
  | C_Anon nat | C_TailAnon nat | C_Postfix nat | C_TailPostfix nat | C_Import ustr ustr

datatype index_inst =
    X_Index | X_IndexMany nat | X_CheckAtomPathIndex
  | X_LoadLocal u16 | X_LoadCapture u16 | X_LoadVar ustr
  | X_ManyLoadLocal u16 nat | X_ManyLoadCapture u16 nat | X_ManyLoadVar ustr nat
  | X_AssignVar ustr | X_AssignLocal u16 | X_AssignCapture u16
  | X_ManyAssignVar ustr nat | X_ManyAssignLocal u16 nat | X_ManyAssignCapture u16 nat
  | X_AssignVarDrop ustr | X_AssignLocalDrop u16 | X_AssignCaptureDrop u16
  | X_ManyAssignVarDrop ustr nat | X_ManyAssignLocalDrop u16 nat | X_ManyAssignCaptureDrop u16 nat

datatype jump_inst =
    J_Jump nat | J_IfFalse nat | J_NLoopEnter u16 u16 u16 nat | J_NLoopNext u16 u16 nat
  | J_IfGE nat | J_IfLEZLocal u16 nat | J_IfNamedProvided u16 u8 nat
  | J_BoolAndLazy nat | J_BoolOrLazy nat

datatype misc_inst =
    P_Unpack unpack_plan | P_EndUnpack | P_CmpChain "binary_operator list" | P_Cat nat
  | P_BoolCombine bool_operator | P_MakeList nat | P_MakeDict nat | P_MakeRange bool bool
  | P_IndexMutate store_target mutation_op | P_Pop | P_Return | P_TraceBegin | P_Debug | P_Pause
  | P_Try nat

section \<open>Values, functions and instructions\<close>

text \<open>The fields of a function that contain no code.\<close>

record function_meta =
  fm_params :: "ustr list option"
  fm_named_params :: "ustr list option"
  fm_locals :: u16
  fm_isolated_module :: bool
  fm_dbg_chunk :: "nat option"
  fm_dbg_stmt_spans :: "(nat \<times> nat) list option"
  fm_dbg_source_base_offset :: nat
  fm_dbg_local_names :: "ustr list option"

type_synonym pc_spans = "(nat \<times> nat) option list"

datatype 'o instruction =
    I_LoadConst "'o val"
  | I_LoadClosure "'o closure_payload"
  | I_LoadCallTarget "'o operand"
  | I_BinaryOp binary_operator "'o operand" "'o operand"
  | I_CatAssign store_target "'o operand"
  | I_UnaryOp unary_operator "'o operand"
  | I_JumpIfCmpFalse binary_operator "'o operand" "'o operand" nat
  | I_NamedCall "'o instruction" named_arg_meta
  | I_Load load_inst | I_Store store_inst | I_Call call_inst | I_Ix index_inst
  | I_Branch jump_inst | I_Misc misc_inst
and 'o val =
    V_Int i64
  | V_BigInt int
  | V_Float f64
  | V_Bool bool
  | V_List "'o val list"
  | V_Function "'o function_data"
  | V_Other 'o
and 'o operand =
    O_Stack | O_Const "'o val" | O_Local u16 | O_Capture u16 | O_Var ustr | O_Self
and 'o function_data =
    FunctionData (fd_meta: function_meta) (fd_instructions: "'o instruction list")
      (fd_pc_spans: "pc_spans option") (fd_stmt_marks: "debug_stmt_mark list option")
and 'o closure_payload =
    ClosurePayload (cp_meta: function_meta) (cp_captures: "capture list")
      (cp_instructions: "'o instruction list") (cp_pc_spans: pc_spans)
      (cp_stmt_marks: "debug_stmt_mark list")

abbreviation I_StoreVar :: "ustr \<Rightarrow> 'o instruction" where "I_StoreVar x \<equiv> I_Store (S_Var x)"
abbreviation I_StoreVarKeep :: "ustr \<Rightarrow> 'o instruction" where "I_StoreVarKeep x \<equiv> I_Store (S_VarKeep x)"
abbreviation I_StoreLocal :: "u16 \<Rightarrow> 'o instruction" where "I_StoreLocal s \<equiv> I_Store (S_Local s)"
abbreviation I_StoreLocalKeep :: "u16 \<Rightarrow> 'o instruction" where "I_StoreLocalKeep s \<equiv> I_Store (S_LocalKeep s)"
abbreviation I_StoreCapture :: "u16 \<Rightarrow> 'o instruction" where "I_StoreCapture s \<equiv> I_Store (S_Capture s)"
abbreviation I_StoreCaptureKeep :: "u16 \<Rightarrow> 'o instruction" where "I_StoreCaptureKeep s \<equiv> I_Store (S_CaptureKeep s)"
abbreviation I_LoadLocal :: "u16 \<Rightarrow> 'o instruction" where "I_LoadLocal s \<equiv> I_Load (L_Local s)"
abbreviation I_Index :: "'o instruction" where "I_Index \<equiv> I_Ix X_Index"
abbreviation I_Jump :: "nat \<Rightarrow> 'o instruction" where "I_Jump t \<equiv> I_Branch (J_Jump t)"
abbreviation I_JumpIfFalse :: "nat \<Rightarrow> 'o instruction" where "I_JumpIfFalse t \<equiv> I_Branch (J_IfFalse t)"
abbreviation I_JumpIfGE :: "nat \<Rightarrow> 'o instruction" where "I_JumpIfGE t \<equiv> I_Branch (J_IfGE t)"
abbreviation I_JumpIfLEZLocal :: "u16 \<Rightarrow> nat \<Rightarrow> 'o instruction" where
  "I_JumpIfLEZLocal s t \<equiv> I_Branch (J_IfLEZLocal s t)"
abbreviation I_Pop :: "'o instruction" where "I_Pop \<equiv> I_Misc P_Pop"
abbreviation I_Return :: "'o instruction" where "I_Return \<equiv> I_Misc P_Return"
abbreviation I_Try :: "nat \<Rightarrow> 'o instruction" where "I_Try n \<equiv> I_Misc (P_Try n)"

section \<open>Helpers of \<open>Instruction\<close>\<close>

definition with_named_args :: "'o instruction \<Rightarrow> named_arg_meta option \<Rightarrow> 'o instruction" where
  "with_named_args i meta = (case meta of Some m \<Rightarrow> I_NamedCall i m | None \<Rightarrow> i)"

definition call_instruction :: "'o instruction \<Rightarrow> 'o instruction" where
  "call_instruction i = (case i of I_NamedCall call _ \<Rightarrow> call | _ \<Rightarrow> i)"

fun is_trace_interesting :: "'o instruction \<Rightarrow> bool" where
  "is_trace_interesting (I_NamedCall call m) = is_trace_interesting call"
| "is_trace_interesting (I_BinaryOp _ _ _) = True"
| "is_trace_interesting (I_CatAssign _ _) = True"
| "is_trace_interesting (I_UnaryOp _ _) = True"
| "is_trace_interesting (I_Load l) = (case l of
     L_Var _ \<Rightarrow> True | L_Local _ \<Rightarrow> True | L_Capture _ \<Rightarrow> True | _ \<Rightarrow> False)"
| "is_trace_interesting (I_Call c) = (case c of
     C_BuiltinId _ _ \<Rightarrow> True | C_BuiltinDiscardId _ _ \<Rightarrow> True | C_User _ _ \<Rightarrow> True
   | C_Anon _ \<Rightarrow> True | C_Local _ _ \<Rightarrow> True | C_Postfix _ \<Rightarrow> True | _ \<Rightarrow> False)"
| "is_trace_interesting (I_Ix x) = (case x of
     X_CheckAtomPathIndex \<Rightarrow> False
   | X_AssignVarDrop _ \<Rightarrow> False | X_AssignLocalDrop _ \<Rightarrow> False | X_AssignCaptureDrop _ \<Rightarrow> False
   | X_ManyAssignVarDrop _ _ \<Rightarrow> False | X_ManyAssignLocalDrop _ _ \<Rightarrow> False
   | X_ManyAssignCaptureDrop _ _ \<Rightarrow> False | _ \<Rightarrow> True)"
| "is_trace_interesting (I_Misc p) = (case p of
     P_BoolCombine _ \<Rightarrow> True | P_CmpChain _ \<Rightarrow> True | P_Cat _ \<Rightarrow> True | P_IndexMutate _ _ \<Rightarrow> True
   | _ \<Rightarrow> False)"
| "is_trace_interesting _ = False"

text \<open>The length of a \<open>Try\<close>, as the passes read it by \<open>if let Instruction::Try(len)\<close>.\<close>

definition try_len :: "'o instruction \<Rightarrow> nat option" where
  "try_len i = (case i of I_Misc p \<Rightarrow> (case p of P_Try n \<Rightarrow> Some n | _ \<Rightarrow> None) | _ \<Rightarrow> None)"

definition jump_operand :: "jump_inst \<Rightarrow> nat" where
  "jump_operand j = (case j of
     J_Jump t \<Rightarrow> t | J_IfFalse t \<Rightarrow> t | J_NLoopEnter _ _ _ t \<Rightarrow> t | J_NLoopNext _ _ t \<Rightarrow> t
   | J_IfGE t \<Rightarrow> t | J_IfLEZLocal _ t \<Rightarrow> t | J_IfNamedProvided _ _ t \<Rightarrow> t
   | J_BoolAndLazy t \<Rightarrow> t | J_BoolOrLazy t \<Rightarrow> t)"

definition set_jump_operand :: "nat \<Rightarrow> jump_inst \<Rightarrow> jump_inst" where
  "set_jump_operand t j = (case j of
     J_Jump _ \<Rightarrow> J_Jump t | J_IfFalse _ \<Rightarrow> J_IfFalse t | J_NLoopEnter a b c _ \<Rightarrow> J_NLoopEnter a b c t
   | J_NLoopNext a b _ \<Rightarrow> J_NLoopNext a b t | J_IfGE _ \<Rightarrow> J_IfGE t | J_IfLEZLocal s _ \<Rightarrow> J_IfLEZLocal s t
   | J_IfNamedProvided s b _ \<Rightarrow> J_IfNamedProvided s b t
   | J_BoolAndLazy _ \<Rightarrow> J_BoolAndLazy t | J_BoolOrLazy _ \<Rightarrow> J_BoolOrLazy t)"

fun jump_target :: "'o instruction \<Rightarrow> nat option" where
  "jump_target (I_NamedCall call _) = jump_target call"
| "jump_target (I_Branch j) = Some (jump_operand j)"
| "jump_target (I_JumpIfCmpFalse _ _ _ t) = Some t"
| "jump_target _ = None"

text \<open>The target of an instruction that is itself a jump, and the instruction with another target.\<close>

definition branch_target :: "'o instruction \<Rightarrow> nat option" where
  "branch_target ins = (case ins of
     I_Branch j \<Rightarrow> Some (jump_operand j) | I_JumpIfCmpFalse _ _ _ t \<Rightarrow> Some t | _ \<Rightarrow> None)"

definition retarget :: "nat \<Rightarrow> 'o instruction \<Rightarrow> 'o instruction" where
  "retarget t ins = (case ins of
     I_Branch j \<Rightarrow> I_Branch (set_jump_operand t j)
   | I_JumpIfCmpFalse op l r _ \<Rightarrow> I_JumpIfCmpFalse op l r t
   | _ \<Rightarrow> ins)"

section \<open>Instruction classes\<close>

datatype inst_class =
    IC_Load | IC_Store | IC_Call | IC_Jump | IC_Stack | IC_Op | IC_Indexing | IC_Construct | IC_Try

fun classify :: "'o instruction \<Rightarrow> inst_class \<times> bool" where
  "classify (I_NamedCall call m) = classify call"
| "classify (I_LoadConst _) = (IC_Load, False)"
| "classify (I_LoadClosure _) = (IC_Load, False)"
| "classify (I_LoadCallTarget _) = (IC_Load, False)"
| "classify (I_Load l) = (IC_Load, l = L_Self)"
| "classify (I_Store _) = (IC_Store, False)"
| "classify (I_CatAssign _ _) = (IC_Store, False)"
| "classify (I_Call _) = (IC_Call, False)"
| "classify (I_Branch _) = (IC_Jump, False)"
| "classify (I_JumpIfCmpFalse _ _ _ _) = (IC_Jump, False)"
| "classify (I_UnaryOp _ _) = (IC_Op, False)"
| "classify (I_BinaryOp _ _ _) = (IC_Op, False)"
| "classify (I_Ix _) = (IC_Indexing, False)"
| "classify (I_Misc p) = (case p of
     P_IndexMutate _ _ \<Rightarrow> (IC_Store, False)
   | P_CmpChain _ \<Rightarrow> (IC_Op, False) | P_BoolCombine _ \<Rightarrow> (IC_Op, False)
   | P_MakeList _ \<Rightarrow> (IC_Construct, False) | P_MakeDict _ \<Rightarrow> (IC_Construct, False)
   | P_MakeRange _ _ \<Rightarrow> (IC_Construct, False) | P_Cat _ \<Rightarrow> (IC_Construct, False)
   | P_Try _ \<Rightarrow> (IC_Try, False)
   | _ \<Rightarrow> (IC_Stack, False))"

end
