(* ===== verification/Tce.thy ===== *)
theory Tce
  imports Inst
begin

text \<open>
  Tail-call rewriting: \<open>wqpl/src/compile/tce.rs\<close>. A call directly before a return becomes its
  tail variant, in every function body, except inside the body of a \<open>Try\<close>, whose frame the
  callee must not leave. The top-level code itself is not rewritten, only the functions in it.
\<close>

section \<open>The pass\<close>

fun tail_call_instruction :: "'o instruction \<Rightarrow> 'o instruction option" where
  "tail_call_instruction (I_Call c) = (case c of
     C_Local slot argc \<Rightarrow> Some (I_Call (C_TailLocal slot argc))
   | C_User name argc \<Rightarrow> Some (I_Call (C_TailUser name argc))
   | C_Anon argc \<Rightarrow> Some (I_Call (C_TailAnon argc))
   | C_Postfix argc \<Rightarrow> Some (I_Call (C_TailPostfix argc))
   | _ \<Rightarrow> None)"
| "tail_call_instruction (I_NamedCall call meta) =
     map_option (\<lambda>c. I_NamedCall c meta) (tail_call_instruction call)"
| "tail_call_instruction _ = None"

text \<open>The instruction that the loop writes at \<open>idx\<close> when a return follows.\<close>

definition tail_or_same :: "'o instruction \<Rightarrow> 'o instruction" where
  "tail_or_same i = (case tail_call_instruction i of Some t \<Rightarrow> t | None \<Rightarrow> i)"

definition is_return :: "'o instruction \<Rightarrow> bool" where
  "is_return i \<longleftrightarrow> (case i of I_Misc p \<Rightarrow> (case p of P_Return \<Rightarrow> True | _ \<Rightarrow> False) | _ \<Rightarrow> False)"

function tce_loop :: "nat \<Rightarrow> 'o instruction list \<Rightarrow> 'o instruction list" where
  "tce_loop idx code =
     (if idx < length code - 1 then
        (case try_len (code ! idx) of
           Some n \<Rightarrow> tce_loop (idx + (n + 1)) code
         | None \<Rightarrow>
             if is_return (code ! (idx + 1))
             then tce_loop (idx + 1) (code[idx := tail_or_same (code ! idx)])
             else tce_loop (idx + 1) code)
      else code)"
  by pat_completeness auto
termination
  by (relation "measure (\<lambda>(idx, code). length code - idx)") auto

declare tce_loop.simps [simp del]

definition rewrite_tail_calls_in_slice :: "'o instruction list \<Rightarrow> 'o instruction list" where
  "rewrite_tail_calls_in_slice code = (if length code < 2 then code else tce_loop 0 code)"

fun rewrite_in_value :: "'o val \<Rightarrow> 'o val"
  and rewrite_in_instruction :: "'o instruction \<Rightarrow> 'o instruction"
  and rewrite_in_function :: "'o function_data \<Rightarrow> 'o function_data"
  and rewrite_in_closure :: "'o closure_payload \<Rightarrow> 'o closure_payload" where
  "rewrite_in_value (V_Function f) = V_Function (rewrite_in_function f)"
| "rewrite_in_value v = v"
| "rewrite_in_instruction (I_LoadConst v) = I_LoadConst (rewrite_in_value v)"
| "rewrite_in_instruction (I_LoadClosure c) = I_LoadClosure (rewrite_in_closure c)"
| "rewrite_in_instruction i = i"
| "rewrite_in_function (FunctionData m is ps ms) =
     FunctionData m (rewrite_tail_calls_in_slice (map rewrite_in_instruction is)) ps ms"
| "rewrite_in_closure (ClosurePayload m cs is ps ms) =
     ClosurePayload m cs (rewrite_tail_calls_in_slice (map rewrite_in_instruction is)) ps ms"

definition rewrite_tail_calls :: "'o instruction list \<Rightarrow> 'o instruction list" where
  "rewrite_tail_calls is = map rewrite_in_instruction is"

section \<open>The loop, position by position\<close>

text \<open>A position is skipped when it lies in the body of a \<open>Try\<close> that the walk from \<open>idx\<close> meets.\<close>

function skipped :: "nat \<Rightarrow> 'o instruction list \<Rightarrow> nat \<Rightarrow> bool" where
  "skipped idx code k =
     (if idx < length code then
        (case try_len (code ! idx) of
           Some n \<Rightarrow> idx < k \<and> k \<le> idx + n \<or> skipped (idx + (n + 1)) code k
         | None \<Rightarrow> skipped (idx + 1) code k)
      else False)"
  by pat_completeness auto
termination
  by (relation "measure (\<lambda>(idx, code, k). length code - idx)") auto

declare skipped.simps [simp del]

lemma skipped_before: "skipped idx code k \<Longrightarrow> idx < k"
proof (induction idx code k rule: skipped.induct)
  case (1 idx code k)
  then show ?case
    by (subst (asm) skipped.simps) (auto split: if_splits option.splits)
qed

definition tail_call_at :: "'o instruction list \<Rightarrow> nat \<Rightarrow> 'o instruction" where
  "tail_call_at code k =
     (if k + 1 < length code \<and> is_return (code ! (k + 1)) then tail_or_same (code ! k) else code ! k)"

lemma tail_keeps_shape:
  "try_len (tail_or_same i) = try_len i" "is_return (tail_or_same i) = is_return i"
proof -
  have "tail_call_instruction i = Some t \<Longrightarrow> try_len i = None \<and> try_len t = None \<and>
      is_return i = False \<and> is_return t = False" for t
    by (cases i) (auto simp: try_len_def is_return_def split: call_inst.splits)
  then show "try_len (tail_or_same i) = try_len i" "is_return (tail_or_same i) = is_return i"
    by (auto simp: tail_or_same_def split: option.split)
qed

lemma skipped_cong:
  assumes "length code' = length code" "\<forall>k < length code. try_len (code' ! k) = try_len (code ! k)"
  shows "skipped idx code' k = skipped idx code k"
  using assms
proof (induction idx code k rule: skipped.induct)
  case (1 idx code k)
  then show ?case by (subst (1 2) skipped.simps) (simp split: option.split)
qed

lemma tce_loop_length: "length (tce_loop idx code) = length code"
proof (induction idx code rule: tce_loop.induct)
  case (1 idx code)
  then show ?case by (subst tce_loop.simps) (simp split: option.split)
qed

lemma tail_or_same_try: "try_len i = Some n \<Longrightarrow> tail_or_same i = i"
  by (cases i) (simp_all add: try_len_def tail_or_same_def)

lemma tce_loop_nth:
  "k < length code \<Longrightarrow>
   tce_loop idx code ! k =
     (if k < idx \<or> skipped idx code k then code ! k else tail_call_at code k)"
proof (induction idx code rule: tce_loop.induct)
  case (1 idx code)
  show ?case
  proof (cases "idx < length code - 1")
    case False
    then have "\<not> k < idx \<Longrightarrow> tail_call_at code k = code ! k"
      using "1.prems" False by (auto simp: tail_call_at_def)
    with False show ?thesis by (subst tce_loop.simps) simp
  next
    case True
    then have lt: "idx < length code" by simp
    show ?thesis
    proof (cases "try_len (code ! idx)")
      case (Some n)
      have "tail_call_at code idx = code ! idx"
        using tail_or_same_try [OF Some] by (simp add: tail_call_at_def)
      with "1.IH"(3) [OF True Some "1.prems"] True lt Some show ?thesis
        by (subst tce_loop.simps, subst skipped.simps) (auto dest: skipped_before simp: le_less not_le less_Suc_eq)
    next
      case None
      have sk: "skipped idx code k = skipped (idx + 1) code k"
        using None lt by (subst skipped.simps) simp
      show ?thesis
      proof (cases "is_return (code ! (idx + 1))")
        case ret: True
        let ?code = "code[idx := tail_or_same (code ! idx)]"
        have "skipped (idx + 1) ?code k = skipped (idx + 1) code k"
          using lt by (intro skipped_cong) (auto simp: nth_list_update tail_keeps_shape)
        moreover have "tail_call_at ?code k = tail_call_at code k" if "idx < k"
          using that by (simp add: tail_call_at_def)
        moreover have "tail_call_at code idx = ?code ! idx" "\<not> skipped (idx + 1) code idx"
          using True ret by (auto simp: tail_call_at_def dest: skipped_before)
        ultimately show ?thesis
          using "1.IH"(1) [OF True None ret] "1.prems" True None ret sk
          by (subst tce_loop.simps) (auto simp: less_Suc_eq)
      next
        case noret: False
        then have "tail_call_at code idx = code ! idx" by (simp add: tail_call_at_def)
        with "1.IH"(2) [OF True None noret "1.prems"] True None noret sk show ?thesis
          by (subst tce_loop.simps) (auto simp: less_Suc_eq)
      qed
    qed
  qed
qed

lemma slice_nth:
  assumes "k < length code"
  shows "rewrite_tail_calls_in_slice code ! k =
    (if skipped 0 code k then code ! k else tail_call_at code k)"
proof (cases "length code < 2")
  case True
  then have "tail_call_at code k = code ! k" using assms by (simp add: tail_call_at_def)
  with True show ?thesis by (simp add: rewrite_tail_calls_in_slice_def)
qed (simp add: rewrite_tail_calls_in_slice_def tce_loop_nth [OF assms])

lemma slice_length [simp]: "length (rewrite_tail_calls_in_slice code) = length code"
  by (simp add: rewrite_tail_calls_in_slice_def tce_loop_length)

section \<open>Properties\<close>

text \<open>Try bodies are nested properly: one that starts inside another also ends inside it.\<close>

definition try_nested :: "'o instruction list \<Rightarrow> bool" where
  "try_nested code \<longleftrightarrow>
     (\<forall>i < length code. \<forall>j < length code.
        (case (try_len (code ! i), try_len (code ! j)) of
           (Some n, Some m) \<Rightarrow> (if i < j \<and> j \<le> i + n then j + m \<le> i + n else True)
         | _ \<Rightarrow> True))"

definition in_try_body :: "'o instruction list \<Rightarrow> nat \<Rightarrow> bool" where
  "in_try_body code k \<longleftrightarrow>
     (\<exists>i < length code. case try_len (code ! i) of Some n \<Rightarrow> i < k \<and> k \<le> i + n | None \<Rightarrow> False)"

definition covers :: "'o instruction list \<Rightarrow> nat \<Rightarrow> nat \<Rightarrow> bool" where
  "covers code k i \<longleftrightarrow>
     i < length code \<and> (case try_len (code ! i) of Some n \<Rightarrow> i < k \<and> k \<le> i + n | None \<Rightarrow> False)"

lemma skipped_iff:
  assumes "try_nested code"
  shows "skipped idx code k \<longleftrightarrow> (\<exists>i\<ge>idx. covers code k i)"
  using assms
proof (induction "length code - idx" arbitrary: idx rule: less_induct)
  case less
  show ?case
  proof (cases "idx < length code")
    case True
    show ?thesis
    proof (cases "try_len (code ! idx)")
      case None
      then have "\<not> covers code k idx" by (simp add: covers_def)
      then have "(\<exists>i\<ge>idx. covers code k i) \<longleftrightarrow> (\<exists>i\<ge>idx + 1. covers code k i)"
        by (metis Suc_eq_plus1 Suc_leD le_eq_less_or_eq less_eq_Suc_le)
      with less.hyps [of "idx + 1"] less.prems True None show ?thesis
        by (subst skipped.simps) simp
    next
      case (Some n)
      have inner: "covers code k idx" if cov: "idx \<le> i" "i \<le> idx + n" "covers code k i" for i
      proof (cases "i = idx")
        case False
        obtain m where m: "try_len (code ! i) = Some m" "i < length code" "i < k" "k \<le> i + m"
          using cov(3) by (auto simp: covers_def split: option.splits)
        have "i + m \<le> idx + n"
          using less.prems m(1,2) cov(1,2) False True Some unfolding try_nested_def by fastforce
        with m cov False Some True show ?thesis by (simp add: covers_def)
      qed (use cov in simp)
      have "(\<exists>i\<ge>idx. covers code k i) \<longleftrightarrow> covers code k idx \<or> (\<exists>i\<ge>idx + (n + 1). covers code k i)"
      proof
        assume "\<exists>i\<ge>idx. covers code k i"
        then obtain i where i: "idx \<le> i" "covers code k i" by blast
        then show "covers code k idx \<or> (\<exists>i\<ge>idx + (n + 1). covers code k i)"
          using inner [of i] by (cases "i \<le> idx + n") auto
      qed (auto intro: Suc_leD add_leD1 le_trans [OF le_add1])
      with less.hyps [of "idx + (n + 1)"] less.prems True Some show ?thesis
        by (subst skipped.simps) (simp add: covers_def)
    qed
  next
    case False
    then show ?thesis by (subst skipped.simps) (auto simp: covers_def)
  qed
qed

lemma skipped_in_try_body:
  "try_nested code \<Longrightarrow> skipped 0 code k = in_try_body code k"
  by (simp add: skipped_iff in_try_body_def covers_def)

text \<open>C13: Tail-call rewriting changes exactly the calls it may: in code whose \<open>Try\<close> bodies are
  nested properly, the rewritten code has the same length, every instruction inside a try body is
  unchanged, and outside of them an instruction becomes its tail variant when it is a call directly
  followed by a return, and is unchanged otherwise.\<close>

theorem tail_call_positions:
  assumes "try_nested code" "k < length code"
  shows "length (rewrite_tail_calls_in_slice code) = length code \<and>
    rewrite_tail_calls_in_slice code ! k =
      (if in_try_body code k then code ! k
       else if k + 1 < length code \<and> is_return (code ! (k + 1)) then tail_or_same (code ! k)
       else code ! k)"
  using assms by (simp add: slice_nth skipped_in_try_body tail_call_at_def)

theorem tail_call_positions_witness:
  "rewrite_tail_calls_in_slice
     ([I_Try 2, I_Call (C_Anon 1), I_Return, I_Call (C_Local 3 0), I_Return] :: unit instruction list) ! 1 = I_Call (C_Anon 1) \<and>
   rewrite_tail_calls_in_slice
     ([I_Try 2, I_Call (C_Anon 1), I_Return, I_Call (C_Local 3 0), I_Return] :: unit instruction list) ! 3 = I_Call (C_TailLocal 3 0)"
proof -
  let ?code = "[I_Try 2, I_Call (C_Anon 1), I_Return, I_Call (C_Local 3 0), I_Return] :: unit instruction list"
  have nested: "try_nested ?code"
    by (simp add: try_nested_def try_len_def All_less_Suc eval_nat_numeral)
  have body: "in_try_body ?code 1" "\<not> in_try_body ?code 3"
    by (simp_all add: in_try_body_def try_len_def Ex_less_Suc eval_nat_numeral)
  show ?thesis
    using tail_call_positions [OF nested, of 1] tail_call_positions [OF nested, of 3] body
    by (simp add: is_return_def tail_or_same_def)
qed

lemma tail_or_same_idem: "tail_or_same (tail_or_same i) = tail_or_same i"
proof -
  have "tail_call_instruction i = Some t \<Longrightarrow> tail_call_instruction t = None" for t
    by (induction i arbitrary: t rule: tail_call_instruction.induct) (auto split: call_inst.splits)
  then show ?thesis by (auto simp: tail_or_same_def split: option.split)
qed

lemma slice_keeps_shape:
  "k < length code \<Longrightarrow> try_len (rewrite_tail_calls_in_slice code ! k) = try_len (code ! k) \<and>
     is_return (rewrite_tail_calls_in_slice code ! k) = is_return (code ! k)"
  by (simp add: slice_nth tail_call_at_def tail_keeps_shape)

lemma slice_idem:
  "rewrite_tail_calls_in_slice (rewrite_tail_calls_in_slice code) = rewrite_tail_calls_in_slice code"
proof (rule nth_equalityI)
  fix k assume "k < length (rewrite_tail_calls_in_slice (rewrite_tail_calls_in_slice code))"
  then have k: "k < length code" by simp
  have sk: "skipped 0 (rewrite_tail_calls_in_slice code) k = skipped 0 code k"
    by (rule skipped_cong) (simp_all add: slice_keeps_shape)
  have "tail_call_at (rewrite_tail_calls_in_slice code) k =
      (if k + 1 < length code \<and> is_return (code ! (k + 1))
       then tail_or_same (rewrite_tail_calls_in_slice code ! k)
       else rewrite_tail_calls_in_slice code ! k)"
    by (cases "k + 1 < length code") (simp_all add: tail_call_at_def slice_keeps_shape)
  then show "rewrite_tail_calls_in_slice (rewrite_tail_calls_in_slice code) ! k =
      rewrite_tail_calls_in_slice code ! k"
    using slice_nth [of k "rewrite_tail_calls_in_slice code"] slice_nth [OF k] sk k
    by (simp add: tail_call_at_def tail_or_same_idem)
qed simp

lemma rewrite_in_instruction_tail:
  "rewrite_in_instruction (tail_or_same i) = tail_or_same (rewrite_in_instruction i)"
proof (cases "tail_call_instruction i")
  case None
  moreover have "tail_call_instruction (rewrite_in_instruction i) = None"
    using None by (cases i) simp_all
  ultimately show ?thesis by (simp add: tail_or_same_def)
next
  case (Some t)
  then show ?thesis
    by (cases i) (auto simp: tail_or_same_def split: call_inst.splits)
qed

lemma rewrite_in_instruction_shape:
  "try_len (rewrite_in_instruction i) = try_len i" "is_return (rewrite_in_instruction i) = is_return i"
  by (cases i; simp add: try_len_def is_return_def)+

lemma map_rewrite_slice:
  "map rewrite_in_instruction (rewrite_tail_calls_in_slice code) =
   rewrite_tail_calls_in_slice (map rewrite_in_instruction code)"
proof (rule nth_equalityI)
  fix k assume "k < length (map rewrite_in_instruction (rewrite_tail_calls_in_slice code))"
  then have k: "k < length code" by simp
  have "skipped 0 (map rewrite_in_instruction code) k = skipped 0 code k"
    by (rule skipped_cong) (simp_all add: rewrite_in_instruction_shape)
  with k show "map rewrite_in_instruction (rewrite_tail_calls_in_slice code) ! k =
      rewrite_tail_calls_in_slice (map rewrite_in_instruction code) ! k"
    by (cases "k + 1 < length code")
      (simp_all add: slice_nth tail_call_at_def rewrite_in_instruction_shape rewrite_in_instruction_tail)
qed simp

lemma rewrite_idem:
  fixes v :: "'o val" and i :: "'o instruction" and f :: "'o function_data" and c :: "'o closure_payload"
  shows
  "rewrite_in_value (rewrite_in_value v) = rewrite_in_value v"
  "rewrite_in_instruction (rewrite_in_instruction i) = rewrite_in_instruction i"
  "rewrite_in_function (rewrite_in_function f) = rewrite_in_function f"
  "rewrite_in_closure (rewrite_in_closure c) = rewrite_in_closure c"
proof (induction v and i and f and c rule: rewrite_in_value_rewrite_in_instruction_rewrite_in_function_rewrite_in_closure.induct)
qed (auto simp: map_rewrite_slice slice_idem comp_def cong: map_cong)

text \<open>Tail-call rewriting is idempotent on whole programs, nested functions and closures
  included: a second run changes nothing.\<close>

theorem rewrite_tail_calls_idempotent:
  "rewrite_tail_calls (rewrite_tail_calls code) = rewrite_tail_calls code"
  by (simp add: rewrite_tail_calls_def rewrite_idem)

end
