(* ===== verification/Fuse.thy ===== *)
theory Fuse
  imports Inst "HOL-Library.Product_Lexorder"
begin

text \<open>
  The peephole pass: \<open>wqpl/src/compile/fuse.rs\<close>. One round (\<open>fuse_once\<close>) first runs on the functions
  and closures nested in the code, then walks the code and fuses neighbouring instructions, and
  at last moves jump targets, try bodies and debug positions to the new indices; \<open>fuse\<close> repeats
  rounds until nothing changes. Indexing \<open>old_to_new\<close> out of range and the failing \<open>expect\<close>
  panic in the source: the value is \<open>None\<close> here. The counters of \<open>Stats\<close> are never read and left
  out. Positions are natural numbers: no code has \<open>2 ^ 64\<close> instructions, and a try length that
  saturates lies beyond the end of the code as the unbounded sum does.
\<close>

section \<open>Patterns\<close>

definition is_branch_comparison :: "binary_operator \<Rightarrow> bool" where
  "is_branch_comparison op \<longleftrightarrow>
     op \<in> {Bin_Equal, Bin_EqualDot, Bin_NotEqual, Bin_NotEqualDot, Bin_Lt, Bin_Lte, Bin_Gt, Bin_Gte}"

text \<open>The pairs that end in a \<open>Pop\<close>: \<open>Some None\<close> when both instructions go, \<open>Some (Some i)\<close> when \<open>i\<close>
  replaces them.\<close>

fun fuse_pop_pair :: "'o instruction \<Rightarrow> 'o instruction \<Rightarrow> 'o instruction option option" where
  "fuse_pop_pair (I_LoadConst _) (I_Misc P_Pop) = Some None"
| "fuse_pop_pair (I_Store s) (I_Misc P_Pop) = (case s of
     S_LocalKeep slot \<Rightarrow> Some (Some (I_StoreLocal slot))
   | S_VarKeep name \<Rightarrow> Some (Some (I_StoreVar name))
   | S_CaptureKeep slot \<Rightarrow> Some (Some (I_StoreCapture slot))
   | _ \<Rightarrow> None)"
| "fuse_pop_pair (I_Ix x) (I_Misc P_Pop) = (case x of
     X_AssignLocal slot \<Rightarrow> Some (Some (I_Ix (X_AssignLocalDrop slot)))
   | X_ManyAssignLocal slot argc \<Rightarrow> Some (Some (I_Ix (X_ManyAssignLocalDrop slot argc)))
   | X_AssignCapture slot \<Rightarrow> Some (Some (I_Ix (X_AssignCaptureDrop slot)))
   | X_ManyAssignCapture slot argc \<Rightarrow> Some (Some (I_Ix (X_ManyAssignCaptureDrop slot argc)))
   | X_AssignVar name \<Rightarrow> Some (Some (I_Ix (X_AssignVarDrop name)))
   | X_ManyAssignVar name argc \<Rightarrow> Some (Some (I_Ix (X_ManyAssignVarDrop name argc)))
   | _ \<Rightarrow> None)"
| "fuse_pop_pair _ _ = None"

text \<open>A comparison before a \<open>JumpIfFalse\<close>, in the order of the three tests of the source.\<close>

fun fuse_branch_pair :: "'o instruction \<Rightarrow> 'o instruction \<Rightarrow> 'o instruction option" where
  "fuse_branch_pair (I_BinaryOp op left right) (I_Branch (J_IfFalse pos)) =
     (case (op, left, right) of
        (Bin_Gt, O_Local slot, O_Const (V_Int k)) \<Rightarrow>
          Some (if k = 0 then I_JumpIfLEZLocal slot pos
                else I_JumpIfCmpFalse op left right pos)
      | (Bin_Lt, O_Stack, O_Stack) \<Rightarrow> Some (I_JumpIfGE pos)
      | _ \<Rightarrow>
          if is_branch_comparison op then Some (I_JumpIfCmpFalse op left right pos) else None)"
| "fuse_branch_pair _ _ = None"

definition load_index_pair :: "'o instruction \<Rightarrow> 'o instruction \<Rightarrow> bool" where
  "load_index_pair a b \<longleftrightarrow>
     (case a of I_Load (L_Local _) \<Rightarrow> (case b of I_Ix X_Index \<Rightarrow> True | _ \<Rightarrow> False) | _ \<Rightarrow> False)"

definition fusable_at :: "'o instruction list \<Rightarrow> nat \<Rightarrow> bool" where
  "fusable_at code i \<longleftrightarrow>
     (i + 1 < length code \<and>
        (fuse_pop_pair (code ! i) (code ! (i + 1)) \<noteq> None \<or>
         load_index_pair (code ! i) (code ! (i + 1)))) \<or>
     (i + 1 < length code \<and> fuse_branch_pair (code ! i) (code ! (i + 1)) \<noteq> None) \<or>
     code ! i = I_JumpIfFalse (i + 1) \<or>
     code ! i = I_Jump (i + 1)"

definition has_fusable_patterns :: "'o instruction list \<Rightarrow> bool" where
  "has_fusable_patterns code \<longleftrightarrow> list_ex (fusable_at code) [0..<length code]"

section \<open>The walk over one code list\<close>

fun mark_boundaries :: "nat \<Rightarrow> 'o instruction list \<Rightarrow> bool list \<Rightarrow> bool list" where
  "mark_boundaries index [] b = b"
| "mark_boundaries index (i # is) b =
     mark_boundaries (index + 1) is
       (case try_len i of
          Some len \<Rightarrow> (let e = index + 1 + len in if e < length b then b[e := True] else b)
        | None \<Rightarrow> b)"

definition try_boundaries :: "'o instruction list \<Rightarrow> bool list" where
  "try_boundaries old = mark_boundaries 0 old (replicate (length old + 1) False)"

text \<open>One round of the loop at position \<open>i\<close>: what is pushed, whether two instructions are consumed,
  and whether \<open>changed_any\<close> is set.\<close>

definition fuse_at :: "bool list \<Rightarrow> 'o instruction list \<Rightarrow> nat \<Rightarrow> 'o instruction option \<times> bool \<times> bool" where
  "fuse_at tb old i =
     (let pair = i + 1 < length old \<and> \<not> tb ! (i + 1) in
      case (if pair then fuse_pop_pair (old ! i) (old ! (i + 1)) else None) of
        Some r \<Rightarrow> (r, True, True)
      | None \<Rightarrow>
          if old ! i = I_Jump (i + 1) then (None, False, True)
          else if old ! i = I_JumpIfFalse (i + 1) then (Some I_Pop, False, True)
          else
            (case (if pair then fuse_branch_pair (old ! i) (old ! (i + 1)) else None) of
               Some ins \<Rightarrow> (Some ins, True, True)
             | None \<Rightarrow> (Some (old ! i), False, False)))"

record 'o walk =
  wk_out :: "'o instruction list"
  wk_origin :: "nat list"
  wk_keep :: "bool list"
  wk_changed :: bool

definition walk_push :: "nat \<Rightarrow> 'o instruction option \<times> bool \<times> bool \<Rightarrow> 'o walk \<Rightarrow> 'o walk" where
  "walk_push i r w =
     (case r of (pushed, two, ch) \<Rightarrow>
        \<lparr>wk_out = wk_out w @ (case pushed of Some ins \<Rightarrow> [ins] | None \<Rightarrow> []),
         wk_origin = wk_origin w @ (case pushed of Some _ \<Rightarrow> [i] | None \<Rightarrow> []),
         wk_keep = (let k = (wk_keep w)[i := pushed \<noteq> None] in if two then k[i + 1 := False] else k),
         wk_changed = (wk_changed w \<or> ch)\<rparr>)"

function fuse_walk :: "bool list \<Rightarrow> 'o instruction list \<Rightarrow> nat \<Rightarrow> 'o walk \<Rightarrow> 'o walk" where
  "fuse_walk tb old i w =
     (if i < length old then
        (let r = fuse_at tb old i in
         fuse_walk tb old (i + (if fst (snd r) then 2 else 1)) (walk_push i r w))
      else w)"
  by pat_completeness auto
termination
  by (relation "measure (\<lambda>(tb, old, i, w). length old - i)") auto

declare fuse_walk.simps [simp del]

section \<open>Remapping\<close>

text \<open>The first kept index at or after each index, \<open>n\<close> when there is none.\<close>

fun next_kept_from :: "nat \<Rightarrow> nat \<Rightarrow> bool list \<Rightarrow> nat list" where
  "next_kept_from n i [] = [n]"
| "next_kept_from n i (k # ks) =
     (let rest = next_kept_from n (i + 1) ks in (if k then i else hd rest) # rest)"

fun fill_kept :: "nat \<Rightarrow> nat list \<Rightarrow> int list \<Rightarrow> int list" where
  "fill_kept new_idx [] m = m"
| "fill_kept new_idx (orig # os) m = fill_kept (new_idx + 1) os (m[orig := int new_idx])"

definition old_to_new :: "nat \<Rightarrow> bool list \<Rightarrow> nat list \<Rightarrow> nat list option" where
  "old_to_new n keep origin =
     (let next_kept = next_kept_from n 0 keep;
          kept_to_new = fill_kept 0 origin (replicate n (-1)) in
      those (map (\<lambda>old_idx.
        let nk = next_kept ! old_idx in
        if nk < n then (if kept_to_new ! nk < 0 then None else Some (nat (kept_to_new ! nk)))
        else Some (length origin)) [0..<n + 1]))"

definition index_opt :: "'a list \<Rightarrow> nat \<Rightarrow> 'a option" where
  "index_opt xs i = (if i < length xs then Some (xs ! i) else None)"

definition remap_jump :: "nat list \<Rightarrow> jump_inst \<Rightarrow> jump_inst option" where
  "remap_jump m j = map_option (\<lambda>t. set_jump_operand t j) (index_opt m (jump_operand j))"

definition remap_instruction ::
  "nat \<Rightarrow> nat list \<Rightarrow> nat \<Rightarrow> nat \<Rightarrow> 'o instruction \<Rightarrow> 'o instruction option" where
  "remap_instruction n m orig new_idx ins = (case ins of
     I_Branch j \<Rightarrow> map_option I_Branch (remap_jump m j)
   | I_JumpIfCmpFalse op l r t \<Rightarrow> map_option (I_JumpIfCmpFalse op l r) (index_opt m t)
   | I_Misc p \<Rightarrow>
       (case p of
          P_Try len \<Rightarrow> map_option (\<lambda>new_end. I_Try (new_end - (new_idx + 1)))
                        (index_opt m (min (orig + 1 + len) n))
        | _ \<Rightarrow> Some ins)
   | _ \<Rightarrow> Some ins)"

definition remap_code ::
  "nat \<Rightarrow> nat list \<Rightarrow> nat list \<Rightarrow> 'o instruction list \<Rightarrow> 'o instruction list option" where
  "remap_code n m origin out =
     those (map (\<lambda>new_idx. remap_instruction n m (origin ! new_idx) new_idx (out ! new_idx))
       [0..<length out])"

definition remap_spans :: "nat list \<Rightarrow> pc_spans \<Rightarrow> pc_spans" where
  "remap_spans origin spans = map (\<lambda>orig. if orig < length spans then spans ! orig else None) origin"

definition mark_key :: "debug_stmt_mark \<Rightarrow> nat \<times> nat \<times> nat" where
  "mark_key mark = (mk_pc mark, mk_start mark, mk_end mark)"

definition remap_marks :: "nat \<Rightarrow> nat list \<Rightarrow> nat \<Rightarrow> debug_stmt_mark list \<Rightarrow> debug_stmt_mark list" where
  "remap_marks n m out_len marks =
     remdups_adj (sort_key mark_key
       (List.map_filter (\<lambda>mark.
          let new_pc = m ! min (mk_pc mark) n in
          if new_pc < out_len then Some (mark\<lparr>mk_pc := new_pc\<rparr>) else None) marks))"

type_synonym 'o fused = "'o instruction list \<times> pc_spans \<times> debug_stmt_mark list \<times> bool"

text \<open>A round on one code list whose nested functions are done.\<close>

definition fuse_level ::
  "bool \<Rightarrow> 'o instruction list \<Rightarrow> pc_spans \<Rightarrow> debug_stmt_mark list \<Rightarrow> 'o fused option" where
  "fuse_level changed old spans marks =
     (let n = length old in
      if n = 0 then Some ([], spans, marks, changed)
      else
        let w = fuse_walk (try_boundaries old) old 0
                  \<lparr>wk_out = [], wk_origin = [], wk_keep = replicate n True, wk_changed = changed\<rparr> in
        if wk_changed w then
          (case old_to_new n (wk_keep w) (wk_origin w) of
             None \<Rightarrow> None
           | Some m \<Rightarrow>
               (case remap_code n m (wk_origin w) (wk_out w) of
                  None \<Rightarrow> None
                | Some code \<Rightarrow>
                    Some (code, remap_spans (wk_origin w) spans,
                          remap_marks n m (length code) marks, True)))
        else Some (old, spans, marks, False))"

text \<open>Nested functions: copied, fused and written back only when they hold a pattern.\<close>

fun fuse_instruction :: "'o instruction \<Rightarrow> ('o instruction \<times> bool) option"
  and fuse_value :: "'o val \<Rightarrow> ('o val \<times> bool) option"
  and fuse_function :: "'o function_data \<Rightarrow> ('o function_data \<times> bool) option"
  and fuse_closure :: "'o closure_payload \<Rightarrow> ('o closure_payload \<times> bool) option" where
  "fuse_instruction (I_LoadConst v) = map_option (\<lambda>(v', c). (I_LoadConst v', c)) (fuse_value v)"
| "fuse_instruction (I_LoadClosure p) = map_option (\<lambda>(p', c). (I_LoadClosure p', c)) (fuse_closure p)"
| "fuse_instruction i = Some (i, False)"
| "fuse_value (V_Function f) = map_option (\<lambda>(f', c). (V_Function f', c)) (fuse_function f)"
| "fuse_value v = Some (v, False)"
| "fuse_function (FunctionData m is spans marks) =
     (if has_fusable_patterns is then
        (case those (map fuse_instruction is) of
           None \<Rightarrow> None
         | Some rs \<Rightarrow>
             map_option (\<lambda>(is', spans', marks', c).
                 if c then (FunctionData m is' (Some spans') (Some marks'), True)
                 else (FunctionData m is spans marks, False))
               (fuse_level (list_ex snd rs) (map fst rs)
                  (case spans of Some s \<Rightarrow> s | None \<Rightarrow> []) (case marks of Some k \<Rightarrow> k | None \<Rightarrow> [])))
      else Some (FunctionData m is spans marks, False))"
| "fuse_closure (ClosurePayload m caps is spans marks) =
     (if has_fusable_patterns is then
        (case those (map fuse_instruction is) of
           None \<Rightarrow> None
         | Some rs \<Rightarrow>
             map_option (\<lambda>(is', spans', marks', c).
                 if c then (ClosurePayload m caps is' spans' marks', True)
                 else (ClosurePayload m caps is spans marks, False))
               (fuse_level (list_ex snd rs) (map fst rs) spans marks))
      else Some (ClosurePayload m caps is spans marks, False))"

definition fuse_once ::
  "'o instruction list \<Rightarrow> pc_spans \<Rightarrow> debug_stmt_mark list \<Rightarrow> 'o fused option" where
  "fuse_once code spans marks =
     (case those (map fuse_instruction code) of
        None \<Rightarrow> None
      | Some rs \<Rightarrow> fuse_level (list_ex snd rs) (map fst rs) spans marks)"

end
