(* ===== verification/Fuse_Facts.thy ===== *)
theory Fuse_Facts
  imports Fuse
begin

text \<open>
  Facts about one round of the peephole pass: which positions the walk visits, what it pushes for
  them, and what \<open>old_to_new\<close> computes.
\<close>

section \<open>The positions the walk visits\<close>

definition fused_pair :: "bool list \<Rightarrow> 'o instruction list \<Rightarrow> nat \<Rightarrow> bool" where
  "fused_pair tb old i = fst (snd (fuse_at tb old i))"

definition pushed_at :: "bool list \<Rightarrow> 'o instruction list \<Rightarrow> nat \<Rightarrow> 'o instruction option" where
  "pushed_at tb old i = fst (fuse_at tb old i)"

definition fuses_at :: "bool list \<Rightarrow> 'o instruction list \<Rightarrow> nat \<Rightarrow> bool" where
  "fuses_at tb old i = snd (snd (fuse_at tb old i))"

function walk_steps :: "bool list \<Rightarrow> 'o instruction list \<Rightarrow> nat \<Rightarrow> nat list" where
  "walk_steps tb old i =
     (if i < length old then i # walk_steps tb old (i + (if fused_pair tb old i then 2 else 1)) else [])"
  by pat_completeness auto
termination
  by (relation "measure (\<lambda>(tb, old, i). length old - i)") auto

declare walk_steps.simps [simp del]

definition kept_steps :: "bool list \<Rightarrow> 'o instruction list \<Rightarrow> nat \<Rightarrow> nat list" where
  "kept_steps tb old i = filter (\<lambda>j. pushed_at tb old j \<noteq> None) (walk_steps tb old i)"

lemma fuse_at_split:
  "fuse_at tb old i = (pushed_at tb old i, fused_pair tb old i, fuses_at tb old i)"
  by (simp add: pushed_at_def fused_pair_def fuses_at_def)

lemma fused_pair_bound:
  "fused_pair tb old i \<Longrightarrow> i + 1 < length old \<and> \<not> tb ! (i + 1)"
  by (simp add: fused_pair_def fuse_at_def Let_def split: if_splits option.splits)

lemma walk_steps_range: "j \<in> set (walk_steps tb old i) \<Longrightarrow> i \<le> j \<and> j < length old"
proof (induction tb old i rule: walk_steps.induct)
  case (1 tb old i)
  then show ?case by (subst (asm) walk_steps.simps) (auto split: if_splits)
qed

lemma walk_steps_sorted: "sorted_wrt (<) (walk_steps tb old i)"
proof (induction tb old i rule: walk_steps.induct)
  case (1 tb old i)
  then show ?case
    by (subst walk_steps.simps) (auto dest: walk_steps_range)
qed

lemma fuse_walk_out:
  "wk_out (fuse_walk tb old i w) = wk_out w @ map (\<lambda>j. the (pushed_at tb old j)) (kept_steps tb old i)"
  "wk_origin (fuse_walk tb old i w) = wk_origin w @ kept_steps tb old i"
  "wk_changed (fuse_walk tb old i w) = (wk_changed w \<or> list_ex (fuses_at tb old) (walk_steps tb old i))"
proof (induction tb old i w rule: fuse_walk.induct)
  case (1 tb old i w)
  note unfold = fuse_walk.simps [of tb old i w] walk_steps.simps [of tb old i]
  { case 1 then show ?case using "1.IH"(1)
      by (auto simp: unfold fuse_at_split walk_push_def kept_steps_def Let_def split: option.split) }
  { case 2 then show ?case using "1.IH"(2)
      by (auto simp: unfold fuse_at_split walk_push_def kept_steps_def Let_def split: option.split) }
  { case 3 then show ?case using "1.IH"(3)
      by (auto simp: unfold fuse_at_split walk_push_def Let_def) }
qed

lemma fuse_walk_keep:
  assumes "length (wk_keep w) = length old" "\<forall>j. i \<le> j \<and> j < length old \<longrightarrow> wk_keep w ! j"
  shows "length (wk_keep (fuse_walk tb old i w)) = length old \<and>
    (\<forall>j < length old. wk_keep (fuse_walk tb old i w) ! j =
       (if j < i then wk_keep w ! j else j \<in> set (kept_steps tb old i)))"
  using assms
proof (induction tb old i w rule: fuse_walk.induct)
  case (1 tb old i w)
  show ?case
  proof (cases "i < length old")
    case False
    then show ?thesis using "1.prems" by (subst (1 2) fuse_walk.simps) auto
  next
    case True
    let ?k = "i + (if fused_pair tb old i then 2 else 1)"
    let ?w = "walk_push i (fuse_at tb old i) w"
    have keep: "wk_keep ?w =
        (let k = (wk_keep w)[i := pushed_at tb old i \<noteq> None] in
         if fused_pair tb old i then k[i + 1 := False] else k)"
      by (simp add: walk_push_def fuse_at_split)
    have "length (wk_keep ?w) = length old" "\<forall>j. ?k \<le> j \<and> j < length old \<longrightarrow> wk_keep ?w ! j"
      using "1.prems" by (auto simp: keep Let_def nth_list_update)
    then have ih: "length (wk_keep (fuse_walk tb old ?k ?w)) = length old \<and>
      (\<forall>j < length old. wk_keep (fuse_walk tb old ?k ?w) ! j =
         (if j < ?k then wk_keep ?w ! j else j \<in> set (kept_steps tb old ?k)))"
      by (rule "1.IH" [OF True refl, folded fused_pair_def])
    have steps: "walk_steps tb old i = i # walk_steps tb old ?k"
      using True by (subst walk_steps.simps) simp
    have later: "j \<in> set (kept_steps tb old ?k) \<Longrightarrow> ?k \<le> j" for j
      by (auto simp: kept_steps_def dest: walk_steps_range)
    have walk: "fuse_walk tb old i w = fuse_walk tb old ?k ?w"
      using True by (subst fuse_walk.simps) (simp add: fuse_at_split)
    show ?thesis
    proof (intro conjI allI impI)
      fix j assume j: "j < length old"
      have keep_j: "wk_keep ?w ! j =
          (if j = i then pushed_at tb old i \<noteq> None
           else if j = i + 1 \<and> fused_pair tb old i then False else wk_keep w ! j)"
        using "1.prems"(1) j True by (simp add: keep Let_def nth_list_update)
      have "wk_keep (fuse_walk tb old i w) ! j =
          (if j < ?k then wk_keep ?w ! j else j \<in> set (kept_steps tb old ?k))"
        using ih walk j by simp
      also have "\<dots> = (if j < i then wk_keep w ! j
          else (j = i \<and> pushed_at tb old i \<noteq> None) \<or> j \<in> set (kept_steps tb old ?k))"
        using later [of j] unfolding keep_j
        by (cases "j \<in> set (kept_steps tb old ?k)"; cases "fused_pair tb old i"; cases "j < i"; cases "j = i"; cases "j = i + 1") simp_all
      also have "((j = i \<and> pushed_at tb old i \<noteq> None) \<or> j \<in> set (kept_steps tb old ?k)) =
          (j \<in> set (kept_steps tb old i))"
        using steps by (auto simp: kept_steps_def)
      finally show "wk_keep (fuse_walk tb old i w) ! j =
          (if j < i then wk_keep w ! j else j \<in> set (kept_steps tb old i))" .
    qed (use ih walk in simp)
  qed
qed

section \<open>\<open>old_to_new\<close>\<close>

text \<open>The new index of an old one: the number of instructions pushed for earlier positions.\<close>

definition new_index :: "nat list \<Rightarrow> nat \<Rightarrow> nat" where
  "new_index origin k = length (takeWhile (\<lambda>j. j < k) origin)"

lemma new_index_le: "new_index origin k \<le> length origin"
  by (simp add: new_index_def length_takeWhile_le)

lemma new_index_first: "\<forall>j \<in> set os. k \<le> j \<Longrightarrow> new_index os k = 0"
  by (cases os) (auto simp: new_index_def)

lemma new_index_nth:
  assumes "sorted_wrt (<) origin" "q < length origin"
  shows "new_index origin (origin ! q) = q"
  using assms
proof (induction origin arbitrary: q)
  case (Cons a os)
  then show ?case
    by (cases q) (auto simp: new_index_def)
qed simp

lemma new_index_less_iff:
  assumes "sorted_wrt (<) origin" "q < length origin"
  shows "q < new_index origin k \<longleftrightarrow> origin ! q < k"
  using assms
proof (induction origin arbitrary: q)
  case (Cons a os)
  then show ?case
    by (cases q) (auto simp: new_index_def dest: less_trans [OF bspec [OF _ nth_mem]])
qed simp

lemma new_index_mono:
  assumes "k \<le> l" shows "new_index origin k \<le> new_index origin l"
  unfolding new_index_def using assms by (induction origin) auto

lemma next_kept_length [simp]: "length (next_kept_from n i ks) = length ks + 1"
  by (induction ks arbitrary: i) (auto simp: Let_def)

fun kept_from :: "nat \<Rightarrow> bool list \<Rightarrow> nat list" where
  "kept_from i [] = []"
| "kept_from i (k # ks) = (if k then [i] else []) @ kept_from (i + 1) ks"

lemma kept_from_ge: "j \<in> set (kept_from i ks) \<Longrightarrow> i \<le> j"
  by (induction i ks rule: kept_from.induct) (auto split: if_splits)

lemma kept_from_sorted: "sorted_wrt (<) (kept_from i ks)"
  by (induction i ks rule: kept_from.induct) (auto dest: kept_from_ge)

lemma kept_from_set: "set (kept_from i ks) = {i + j |j. j < length ks \<and> ks ! j}"
proof (induction i ks rule: kept_from.induct)
  case (2 i k ks)
  have "{i + j |j. j < length (k # ks) \<and> (k # ks) ! j} =
      (if k then {i} else {}) \<union> {i + 1 + j |j. j < length ks \<and> ks ! j}"
    by (auto simp: less_Suc_eq_0_disj)
  with 2 show ?case by auto
qed simp

text \<open>\<open>next_kept\<close> looks up the first kept index.\<close>

lemma next_kept_nth:
  "k \<le> length ks \<Longrightarrow> next_kept_from n i ks ! k =
    (let os = kept_from i ks; q = new_index os (i + k) in if q < length os then os ! q else n)"
proof (induction ks arbitrary: i k)
  case Nil
  then show ?case by (simp add: new_index_def)
next
  case (Cons b ks)
  have none: "new_index (kept_from (i + 1) ks) i = 0" "new_index (kept_from (i + 1) ks) (i + 1) = 0"
    using kept_from_ge [of _ "i + 1" ks] by (auto intro!: new_index_first dest: Suc_leD)
  have "next_kept_from n (i + 1) ks \<noteq> []"
    using next_kept_length [of n "i + 1" ks] by (metis Suc_eq_plus1 list.size(3) nat.distinct(1))
  then have hd: "hd (next_kept_from n (i + 1) ks) = next_kept_from n (i + 1) ks ! 0"
    by (rule hd_conv_nth)
  show ?case
  proof (cases k)
    case 0
    then show ?thesis
      using none Cons.IH [of 0 "i + 1"] hd by (cases b) (auto simp: Let_def new_index_def)
  next
    case (Suc l)
    then have "new_index (kept_from i (b # ks)) (i + k) =
        (if b then 1 else 0) + new_index (kept_from (i + 1) ks) (i + 1 + l)"
      by (simp add: new_index_def)
    then show ?thesis using Cons.IH [of l "i + 1"] Cons.prems Suc by (auto simp: Let_def)
  qed
qed

lemma fill_kept_nth:
  assumes "sorted_wrt (<) origin" "\<forall>j \<in> set origin. j < length m"
  shows "length (fill_kept q origin m) = length m" (is ?L)
    "r < length origin \<Longrightarrow> fill_kept q origin m ! (origin ! r) = int (q + r)"
proof -
  have keep: "j \<notin> set os \<Longrightarrow> fill_kept q os m ! j = m ! j" for j q m os
    by (induction q os m rule: fill_kept.induct) auto
  have len: "length (fill_kept q os m) = length m" for q os m
    by (induction q os m rule: fill_kept.induct) auto
  show ?L by (rule len)
  show "r < length origin \<Longrightarrow> fill_kept q origin m ! (origin ! r) = int (q + r)"
    using assms
  proof (induction q origin m arbitrary: r rule: fill_kept.induct)
    case (2 q j os m)
    then show ?case by (cases r) (auto simp: keep)
  qed simp
qed

lemma old_to_new_eq:
  assumes "sorted_wrt (<) origin" "length keep = n" "set origin = {j. j < n \<and> keep ! j}"
  shows "old_to_new n keep origin = Some (map (new_index origin) [0..<n + 1])"
proof -
  have origin: "origin = kept_from 0 keep"
    using assms kept_from_set [of 0 keep] kept_from_sorted [of 0 keep]
    by (intro strict_sorted_equal) auto
  have "(let nk = next_kept_from n 0 keep ! k in
        if nk < n then
          (if fill_kept 0 origin (replicate n (-1)) ! nk < 0 then None
           else Some (nat (fill_kept 0 origin (replicate n (-1)) ! nk)))
        else Some (length origin)) = Some (new_index origin k)" if "k \<le> n" for k
  proof -
    have nk: "next_kept_from n 0 keep ! k =
        (if new_index origin k < length origin then origin ! new_index origin k else n)"
      using next_kept_nth [of k keep n 0] assms(2) that origin by (simp add: Let_def)
    show ?thesis
    proof (cases "new_index origin k < length origin")
      case True
      then have "origin ! new_index origin k < n" using assms(3) nth_mem by blast
      then show ?thesis
        using fill_kept_nth(2) [OF assms(1), of "replicate n (-1)" "new_index origin k" 0] nk True assms(3)
        by simp
    next
      case False
      then show ?thesis using nk new_index_le [of origin k] by simp
    qed
  qed
  then have "map (\<lambda>k. let nk = next_kept_from n 0 keep ! k in
        if nk < n then
          (if fill_kept 0 origin (replicate n (-1)) ! nk < 0 then None
           else Some (nat (fill_kept 0 origin (replicate n (-1)) ! nk)))
        else Some (length origin)) [0..<n + 1] = map (\<lambda>k. Some (new_index origin k)) [0..<n + 1]"
    by (intro map_cong) auto
  moreover have "those (map (\<lambda>k. Some (f k)) ks) = Some (map f ks)" for f :: "nat \<Rightarrow> nat" and ks
    by (induction ks) auto
  ultimately show ?thesis by (simp only: old_to_new_def Let_def)
qed

end
