(* ===== verification/Fuse_Correct.thy ===== *)
theory Fuse_Correct
  imports Fuse_Facts
begin

text \<open>
  The peephole pass terminates without a panic on code whose jumps stay inside the code, keeps
  that property, and leaves code in which no position fuses any more. The measure counts
  instructions, nested functions included, and each conditional jump once more, since a
  conditional jump to the next instruction becomes a \<open>Pop\<close>.
\<close>

section \<open>Well-formed code\<close>

definition target_ok :: "nat \<Rightarrow> 'o instruction \<Rightarrow> bool" where
  "target_ok n ins \<longleftrightarrow> (case branch_target ins of Some t \<Rightarrow> t \<le> n | None \<Rightarrow> True)"

fun ok_instruction :: "'o instruction \<Rightarrow> bool"
  and ok_value :: "'o val \<Rightarrow> bool"
  and ok_function :: "'o function_data \<Rightarrow> bool"
  and ok_closure :: "'o closure_payload \<Rightarrow> bool" where
  "ok_instruction (I_LoadConst v) = ok_value v"
| "ok_instruction (I_LoadClosure c) = ok_closure c"
| "ok_instruction i = True"
| "ok_value (V_Function f) = ok_function f"
| "ok_value v = True"
| "ok_function (FunctionData m is spans marks) =
     (\<forall>i \<in> set is. target_ok (length is) i \<and> ok_instruction i)"
| "ok_closure (ClosurePayload m caps is spans marks) =
     (\<forall>i \<in> set is. target_ok (length is) i \<and> ok_instruction i)"

definition code_ok :: "'o instruction list \<Rightarrow> bool" where
  "code_ok code \<longleftrightarrow> (\<forall>i \<in> set code. target_ok (length code) i \<and> ok_instruction i)"

fun weight_instruction :: "'o instruction \<Rightarrow> nat"
  and weight_value :: "'o val \<Rightarrow> nat"
  and weight_function :: "'o function_data \<Rightarrow> nat"
  and weight_closure :: "'o closure_payload \<Rightarrow> nat" where
  "weight_instruction (I_LoadConst v) = 1 + weight_value v"
| "weight_instruction (I_LoadClosure c) = 1 + weight_closure c"
| "weight_instruction (I_Branch j) = (case j of J_IfFalse _ \<Rightarrow> 2 | _ \<Rightarrow> 1)"
| "weight_instruction i = 1"
| "weight_value (V_Function f) = weight_function f"
| "weight_value v = 0"
| "weight_function (FunctionData m is spans marks) = sum_list (map weight_instruction is)"
| "weight_closure (ClosurePayload m caps is spans marks) = sum_list (map weight_instruction is)"

definition code_weight :: "'o instruction list \<Rightarrow> nat" where
  "code_weight code = sum_list (map weight_instruction code)"

section \<open>One pushed instruction\<close>

lemma fuse_pop_pair_cases:
  assumes "fuse_pop_pair a b = Some r"
  shows "b = I_Pop \<and> (case r of None \<Rightarrow> True | Some ins \<Rightarrow>
     branch_target ins = None \<and> try_len ins = None \<and> ok_instruction ins \<and> weight_instruction ins = 1)"
  using assms
  by (cases "(a, b)" rule: fuse_pop_pair.cases)
    (auto simp: branch_target_def try_len_def split: store_inst.splits index_inst.splits)

lemma fuse_branch_pair_cases:
  assumes "fuse_branch_pair a b = Some ins"
  shows "branch_target ins = branch_target b \<and> try_len ins = None \<and> try_len a = None \<and>
    ok_instruction ins \<and> weight_instruction ins = 1 \<and> weight_instruction a = 1"
  using assms
  by (cases "(a, b)" rule: fuse_branch_pair.cases)
    (auto simp: branch_target_def try_len_def jump_operand_def
      split: binary_operator.splits operand.splits val.splits if_splits)

lemma weight_pos: "0 < weight_instruction i"
  by (cases i) (auto split: jump_inst.splits)

text \<open>The weight of the instructions that position \<open>i\<close> consumes.\<close>

definition consumed_weight :: "bool list \<Rightarrow> 'o instruction list \<Rightarrow> nat \<Rightarrow> nat" where
  "consumed_weight tb old i = weight_instruction (old ! i) +
     (if fused_pair tb old i then weight_instruction (old ! (i + 1)) else 0)"

definition pushed_weight :: "bool list \<Rightarrow> 'o instruction list \<Rightarrow> nat \<Rightarrow> nat" where
  "pushed_weight tb old i =
     (case pushed_at tb old i of Some ins \<Rightarrow> weight_instruction ins | None \<Rightarrow> 0)"

lemmas at_defs = pushed_at_def fused_pair_def fuses_at_def fuse_at_def Let_def

lemma fuse_at_weight:
  "if fuses_at tb old i then pushed_weight tb old i < consumed_weight tb old i
   else pushed_at tb old i = Some (old ! i) \<and> \<not> fused_pair tb old i"
proof -
  have "0 < weight_instruction (old ! i)" "0 < weight_instruction (old ! (i + 1))"
    by (rule weight_pos)+
  then show ?thesis
    by (auto simp: at_defs pushed_weight_def consumed_weight_def
      dest!: fuse_pop_pair_cases fuse_branch_pair_cases split: option.splits if_splits)
qed

lemma pushed_ok:
  assumes "code_ok old" "i < length old" "pushed_at tb old i = Some ins"
  shows "target_ok (length old) ins \<and> ok_instruction ins"
proof -
  have nth: "target_ok (length old) (old ! j) \<and> ok_instruction (old ! j)" if "j < length old" for j
    using assms(1) that by (auto simp: code_ok_def)
  show ?thesis
  proof (cases "fused_pair tb old i")
    case True
    then have "i + 1 < length old" using fused_pair_bound by blast
    with nth [OF this] nth [OF assms(2)] assms(3) True show ?thesis
      by (auto simp: at_defs target_ok_def dest!: fuse_pop_pair_cases fuse_branch_pair_cases
        split: option.splits if_splits)
  next
    case False
    with nth [OF assms(2)] assms(3) show ?thesis
      by (auto simp: at_defs target_ok_def branch_target_def split: option.splits if_splits)
  qed
qed

lemma walk_weight:
  "sum_list (map (pushed_weight tb old) (walk_steps tb old i))
     + (if list_ex (fuses_at tb old) (walk_steps tb old i) then 1 else 0)
   \<le> code_weight (drop i old)"
proof (induction tb old i rule: walk_steps.induct)
  case (1 tb old i)
  show ?case
  proof (cases "i < length old")
    case False
    then show ?thesis by (subst (1 2) walk_steps.simps) simp
  next
    case True
    let ?k = "i + (if fused_pair tb old i then 2 else 1)"
    have "code_weight (drop i old) = consumed_weight tb old i + code_weight (drop ?k old)"
    proof (cases "fused_pair tb old i")
      case pair: True
      then have "i + 1 < length old" using fused_pair_bound by blast
      then have "drop i old = old ! i # old ! (i + 1) # drop (i + 2) old"
        by (simp add: Cons_nth_drop_Suc)
      with pair show ?thesis by (simp add: code_weight_def consumed_weight_def)
    next
      case False
      with True show ?thesis
        by (simp add: code_weight_def consumed_weight_def Cons_nth_drop_Suc [symmetric])
    qed
    moreover have "walk_steps tb old i = i # walk_steps tb old ?k"
      using True by (subst walk_steps.simps) simp
    moreover have "if fuses_at tb old i then pushed_weight tb old i < consumed_weight tb old i
        else pushed_weight tb old i \<le> consumed_weight tb old i"
      using fuse_at_weight [of tb old i]
      by (auto simp: pushed_weight_def consumed_weight_def split: if_splits)
    ultimately show ?thesis using "1.IH" [OF True] by (auto split: if_splits)
  qed
qed

lemma kept_weight:
  "code_weight (map (\<lambda>j. the (pushed_at tb old j)) (kept_steps tb old i)) =
   sum_list (map (pushed_weight tb old) (walk_steps tb old i))"
proof -
  have "code_weight (map (\<lambda>j. the (pushed_at tb old j)) (filter (\<lambda>j. pushed_at tb old j \<noteq> None) js)) =
      sum_list (map (pushed_weight tb old) js)" for js
    by (induction js) (auto simp: code_weight_def pushed_weight_def)
  then show ?thesis by (simp add: kept_steps_def)
qed

lemma no_fuse_walk:
  assumes "\<not> list_ex (fuses_at tb old) (walk_steps tb old i)"
  shows "walk_steps tb old i = [i..<length old]"
  using assms
proof (induction tb old i rule: walk_steps.induct)
  case (1 tb old i)
  then show ?case
    using fuse_at_weight [of tb old i]
    by (subst walk_steps.simps) (auto simp: walk_steps.simps [of tb old i] upt_conv_Cons split: if_splits)
qed

section \<open>One round on one code list\<close>

abbreviation kept_of :: "'o instruction list \<Rightarrow> nat list" where
  "kept_of old \<equiv> kept_steps (try_boundaries old) old 0"

abbreviation pushed_of :: "'o instruction list \<Rightarrow> 'o instruction list" where
  "pushed_of old \<equiv> map (\<lambda>j. the (pushed_at (try_boundaries old) old j)) (kept_of old)"

abbreviation fuses_some :: "'o instruction list \<Rightarrow> bool" where
  "fuses_some old \<equiv> list_ex (fuses_at (try_boundaries old) old) (walk_steps (try_boundaries old) old 0)"

definition index_map :: "'o instruction list \<Rightarrow> nat list" where
  "index_map old = map (new_index (kept_of old)) [0..<length old + 1]"

lemma index_map_length [simp]: "length (index_map old) = length old + 1"
  by (simp add: index_map_def)

lemma index_map_nth: "k \<le> length old \<Longrightarrow> index_map old ! k = new_index (kept_of old) k"
  by (simp add: index_map_def less_Suc_eq_le del: upt_Suc)

lemma kept_steps_sorted: "sorted_wrt (<) (kept_steps tb old i)"
  unfolding kept_steps_def by (rule sorted_wrt_filter [OF walk_steps_sorted])

lemma kept_steps_range: "j \<in> set (kept_steps tb old i) \<Longrightarrow> i \<le> j \<and> j < length old"
  by (auto simp: kept_steps_def dest: walk_steps_range)

lemma kept_pushed: "j \<in> set (kept_steps tb old i) \<Longrightarrow> \<exists>ins. pushed_at tb old j = Some ins"
  by (auto simp: kept_steps_def)

lemma fuse_level_eq:
  assumes "old \<noteq> []"
  shows "fuse_level changed old spans marks =
    (if changed \<or> fuses_some old then
       map_option (\<lambda>code. (code, remap_spans (kept_of old) spans,
           remap_marks (length old) (index_map old) (length code) marks, True))
         (remap_code (length old) (index_map old) (kept_of old) (pushed_of old))
     else Some (old, spans, marks, False))"
proof -
  define w where "w = fuse_walk (try_boundaries old) old 0
     \<lparr>wk_out = [], wk_origin = [], wk_keep = replicate (length old) True, wk_changed = changed\<rparr>"
  have fields: "wk_out w = pushed_of old" "wk_origin w = kept_of old"
      "wk_changed w = (changed \<or> fuses_some old)"
    unfolding w_def by (simp_all add: fuse_walk_out)
  have keep: "length (wk_keep w) = length old"
      "\<forall>j < length old. wk_keep w ! j = (j \<in> set (kept_of old))"
    using fuse_walk_keep [of "\<lparr>wk_out = [], wk_origin = [], wk_keep = replicate (length old) True,
        wk_changed = changed\<rparr>" old 0 "try_boundaries old"]
    unfolding w_def by simp_all
  have "old_to_new (length old) (wk_keep w) (kept_of old) = Some (index_map old)"
    using keep kept_steps_range [of _ "try_boundaries old" old 0]
    unfolding index_map_def by (intro old_to_new_eq kept_steps_sorted) auto
  then show ?thesis
    using assms fields unfolding fuse_level_def Let_def w_def [symmetric]
    by (simp split: option.split)
qed

lemma remap_jump_shape:
  "remap_jump m j = Some j' \<Longrightarrow> jump_operand j < length m \<and> jump_operand j' = m ! jump_operand j \<and>
     weight_instruction (I_Branch j' :: 'o instruction) = weight_instruction (I_Branch j :: 'o instruction)"
  by (cases j) (auto simp: remap_jump_def set_jump_operand_def jump_operand_def index_opt_def split: if_splits)

lemma remap_instruction_shape:
  assumes "remap_instruction n m orig q ins = Some ins'"
  shows "weight_instruction ins' = weight_instruction ins"
    "branch_target ins' = map_option (\<lambda>t. m ! t) (branch_target ins)"
    "ok_instruction ins' = ok_instruction ins"
  using assms
  by (cases ins; fastforce simp: remap_instruction_def branch_target_def index_opt_def
      dest: remap_jump_shape split: misc_inst.splits if_splits option.splits)+

lemma remap_instruction_target:
  "remap_instruction n m orig q ins = Some ins' \<Longrightarrow> branch_target ins = Some t \<Longrightarrow> t < length m"
  by (cases ins) (auto simp: remap_instruction_def branch_target_def index_opt_def
      dest: remap_jump_shape split: if_splits)

lemma remap_instruction_total:
  assumes "length m = n + 1" "target_ok n ins"
  shows "\<exists>ins'. remap_instruction n m orig q ins = Some ins'"
  using assms
  by (cases ins) (auto simp: remap_instruction_def remap_jump_def branch_target_def target_ok_def
      index_opt_def split: misc_inst.splits)

lemma those_total: "\<forall>x \<in> set xs. \<exists>y. f x = Some y \<Longrightarrow> \<exists>ys. those (map f xs) = Some ys"
  by (induction xs) auto

lemma remap_code_spec:
  assumes "remap_code n m os out = Some code"
  shows "length code = length out"
    "q < length out \<Longrightarrow> remap_instruction n m (os ! q) q (out ! q) = Some (code ! q)"
proof -
  have eq: "map (\<lambda>q. remap_instruction n m (os ! q) q (out ! q)) [0..<length out] = map Some code"
    using assms by (simp add: remap_code_def those_eq_Some_iff)
  show len: "length code = length out" using arg_cong [OF eq, of length] by simp
  show "remap_instruction n m (os ! q) q (out ! q) = Some (code ! q)" if "q < length out"
    using arg_cong [OF eq, of "\<lambda>xs. xs ! q"] that len by simp
qed

lemma remap_code_weight:
  assumes "remap_code n m os out = Some code"
  shows "code_weight code = code_weight out"
proof -
  have "map weight_instruction code = map weight_instruction out"
    using remap_code_spec [OF assms] by (intro nth_equalityI) (auto dest: remap_instruction_shape)
  then show ?thesis by (simp add: code_weight_def)
qed

lemma remap_code_ok:
  assumes "remap_code n (map f [0..<n + 1]) os out = Some code"
    and "\<forall>ins \<in> set out. target_ok n ins \<and> ok_instruction ins" "\<forall>k. f k \<le> length out"
  shows "code_ok code"
  unfolding code_ok_def
proof
  fix ins' assume "ins' \<in> set code"
  then obtain q where q: "q < length out" "ins' = code ! q"
    using remap_code_spec(1) [OF assms(1)] by (auto simp: in_set_conv_nth)
  note remap = remap_code_spec(2) [OF assms(1) q(1)]
  have "target_ok n (out ! q)" "ok_instruction (out ! q)" using assms(2) q(1) by auto
  then show "target_ok (length code) ins' \<and> ok_instruction ins'"
    using remap_instruction_shape(2,3) [OF remap] q(2) assms(3) remap_code_spec(1) [OF assms(1)]
    by (auto simp: target_ok_def less_Suc_eq_le simp del: upt_Suc split: option.splits)
qed

lemma remap_code_total:
  assumes "\<forall>ins \<in> set out. target_ok n ins" "length m = n + 1"
  shows "\<exists>code. remap_code n m os out = Some code"
proof -
  have "\<exists>ins'. remap_instruction n m (os ! q) q (out ! q) = Some ins'" if "q < length out" for q
    using assms(1) that by (intro remap_instruction_total [OF assms(2)]) simp
  then show ?thesis unfolding remap_code_def by (intro those_total) auto
qed

lemma pushed_of_ok:
  assumes "code_ok old"
  shows "\<forall>ins \<in> set (pushed_of old). target_ok (length old) ins \<and> ok_instruction ins"
proof
  fix ins assume "ins \<in> set (pushed_of old)"
  then obtain j where j: "j \<in> set (kept_of old)" "ins = the (pushed_at (try_boundaries old) old j)"
    by auto
  obtain ins' where "pushed_at (try_boundaries old) old j = Some ins'"
    using kept_pushed [OF j(1)] by blast
  with pushed_ok [OF assms, of j "try_boundaries old" ins'] kept_steps_range [OF j(1)] j(2)
  show "target_ok (length old) ins \<and> ok_instruction ins" by simp
qed

lemma fuse_level_total:
  assumes "code_ok old"
  shows "\<exists>r. fuse_level changed old spans marks = Some r"
proof (cases "old = []")
  case False
  obtain code where "remap_code (length old) (index_map old) (kept_of old) (pushed_of old) = Some code"
    using remap_code_total [of "pushed_of old" "length old" "index_map old" "kept_of old"]
      pushed_of_ok [OF assms] by auto
  then show ?thesis by (auto simp: fuse_level_eq [OF False])
qed (simp add: fuse_level_def)

lemma fuse_level_post:
  assumes "fuse_level changed old spans marks = Some (code, spans', marks', c)"
  shows "c \<longleftrightarrow> (if old = [] then changed else changed \<or> fuses_some old)"
    "\<not> c \<Longrightarrow> code = old \<and> spans' = spans \<and> marks' = marks"
    "code_weight code + (if old \<noteq> [] \<and> fuses_some old then 1 else 0) \<le> code_weight old"
    "code_ok old \<Longrightarrow> code_ok code"
    "c \<Longrightarrow> old \<noteq> [] \<Longrightarrow> length spans' = length code"
proof -
  have "(c \<longleftrightarrow> (if old = [] then changed else changed \<or> fuses_some old)) \<and>
    (\<not> c \<longrightarrow> code = old \<and> spans' = spans \<and> marks' = marks) \<and>
    code_weight code + (if old \<noteq> [] \<and> fuses_some old then 1 else 0) \<le> code_weight old \<and>
    (code_ok old \<longrightarrow> code_ok code) \<and> (c \<and> old \<noteq> [] \<longrightarrow> length spans' = length code)"
  proof (cases "old = [] \<or> \<not> (changed \<or> fuses_some old)")
    case True
    then show ?thesis
      using assms by (cases "old = []") (simp add: fuse_level_def, auto simp: fuse_level_eq)
  next
    case False
    then have remap: "remap_code (length old) (index_map old) (kept_of old) (pushed_of old) = Some code"
      and rest: "spans' = remap_spans (kept_of old) spans" "c"
      using assms by (auto simp: fuse_level_eq)
    have "code_weight code = code_weight (pushed_of old)" by (rule remap_code_weight [OF remap])
    then have weight: "code_weight code + (if fuses_some old then 1 else 0) \<le> code_weight old"
      using walk_weight [of "try_boundaries old" old 0] kept_weight [of "try_boundaries old" old 0] by simp
    have "code_ok code" if "code_ok old"
      using remap_code_ok [OF remap [unfolded index_map_def] pushed_of_ok [OF that]] new_index_le by simp
    with False weight rest remap_code_spec(1) [OF remap] show ?thesis
      by (auto simp: remap_spans_def)
  qed
  then show "c \<longleftrightarrow> (if old = [] then changed else changed \<or> fuses_some old)"
    "\<not> c \<Longrightarrow> code = old \<and> spans' = spans \<and> marks' = marks"
    "code_weight code + (if old \<noteq> [] \<and> fuses_some old then 1 else 0) \<le> code_weight old"
    "code_ok old \<Longrightarrow> code_ok code" "c \<Longrightarrow> old \<noteq> [] \<Longrightarrow> length spans' = length code"
    by blast+
qed

section \<open>Nested functions\<close>

text \<open>What the recursive part may do to one instruction: nothing when it reports no change, and
  lower its weight when it does; its target, try length and validity stay.\<close>

definition nested_step :: "'o instruction \<Rightarrow> 'o instruction \<times> bool \<Rightarrow> bool" where
  "nested_step i r \<longleftrightarrow>
     (if snd r then weight_instruction (fst r) < weight_instruction i else fst r = i) \<and>
     branch_target (fst r) = branch_target i \<and> try_len (fst r) = try_len i \<and>
     (if ok_instruction i then ok_instruction (fst r) else True)"

lemma nested_step_list:
  assumes "list_all2 nested_step is rs"
  shows "code_weight (map fst rs) + (if list_ex snd rs then 1 else 0) \<le> code_weight is"
    "\<not> list_ex snd rs \<Longrightarrow> map fst rs = is"
    "code_ok is \<Longrightarrow> code_ok (map fst rs)"
proof -
  show "code_weight (map fst rs) + (if list_ex snd rs then 1 else 0) \<le> code_weight is"
    using assms by (induction rule: list_all2_induct)
      (auto simp: code_weight_def nested_step_def split: if_splits)
  show "\<not> list_ex snd rs \<Longrightarrow> map fst rs = is"
    using assms by (induction rule: list_all2_induct) (auto simp: nested_step_def split: if_splits)
  have "\<forall>i \<in> set is. target_ok n i \<and> ok_instruction i \<Longrightarrow>
      \<forall>i \<in> set (map fst rs). target_ok n i \<and> ok_instruction i" for n
    using assms by (induction rule: list_all2_induct) (auto simp: nested_step_def target_ok_def)
  then show "code_ok is \<Longrightarrow> code_ok (map fst rs)"
    using list_all2_lengthD [OF assms] unfolding code_ok_def by (metis length_map)
qed

lemma those_list_all2: "those (map f xs) = Some ys \<longleftrightarrow> list_all2 (\<lambda>x y. f x = Some y) xs ys"
proof (induction xs arbitrary: ys)
  case (Cons x xs)
  then show ?case by (cases ys) (auto split: option.splits)
qed auto

text \<open>The recursion on a function body is \<open>fuse_once\<close> itself.\<close>

lemma fuse_function_eq:
  "fuse_function (FunctionData m code spans marks) =
     (if has_fusable_patterns code then
        map_option (\<lambda>(code', spans', marks', c).
            if c then (FunctionData m code' (Some spans') (Some marks'), True)
            else (FunctionData m code spans marks, False))
          (fuse_once code (case spans of Some s \<Rightarrow> s | None \<Rightarrow> []) (case marks of Some k \<Rightarrow> k | None \<Rightarrow> []))
      else Some (FunctionData m code spans marks, False))"
  by (simp add: fuse_once_def split: option.split)

lemma fuse_closure_eq:
  "fuse_closure (ClosurePayload m caps code spans marks) =
     (if has_fusable_patterns code then
        map_option (\<lambda>(code', spans', marks', c).
            if c then (ClosurePayload m caps code' spans' marks', True)
            else (ClosurePayload m caps code spans marks, False))
          (fuse_once code spans marks)
      else Some (ClosurePayload m caps code spans marks, False))"
  by (simp add: fuse_once_def split: option.split)

declare fuse_function.simps [simp del] fuse_closure.simps [simp del]

text \<open>One round on code whose elements obey \<open>nested_step\<close>.\<close>

lemma fuse_once_nested_post:
  assumes nested: "\<And>i r. i \<in> set is \<Longrightarrow> fuse_instruction i = Some r \<Longrightarrow> nested_step i r"
    and once: "fuse_once is spans marks = Some (code, spans', marks', c)"
  shows "if c then code_weight code < code_weight is
         else code = is \<and> spans' = spans \<and> marks' = marks \<and> (is \<noteq> [] \<longrightarrow> \<not> fuses_some is)"
    "code_ok is \<Longrightarrow> code_ok code" "c \<Longrightarrow> length spans' = length code"
proof -
  obtain rs where "those (map fuse_instruction is) = Some rs"
    and level: "fuse_level (list_ex snd rs) (map fst rs) spans marks = Some (code, spans', marks', c)"
    using once by (auto simp: fuse_once_def split: option.splits)
  then have rs: "list_all2 nested_step is rs"
    using nested unfolding those_list_all2 by (auto simp: list_all2_conv_all_nth)
  note list = nested_step_list [OF rs] and post = fuse_level_post [OF level]
  show "if c then code_weight code < code_weight is
      else code = is \<and> spans' = spans \<and> marks' = marks \<and> (is \<noteq> [] \<longrightarrow> \<not> fuses_some is)"
    using list(1,2) post(1-3) by (cases c; cases "list_ex snd rs") (auto split: if_splits)
  show "code_ok is \<Longrightarrow> code_ok code" using list(3) post(4) by blast
  show "c \<Longrightarrow> length spans' = length code"
    using post(1,5) by (cases rs) auto
qed

lemma fuse_nested:
  fixes i :: "'o instruction" and v :: "'o val" and f :: "'o function_data" and p :: "'o closure_payload"
  shows
  "fuse_instruction i = Some r \<Longrightarrow> nested_step i r"
  "fuse_value v = Some rv \<Longrightarrow>
     (if snd rv then weight_value (fst rv) < weight_value v else fst rv = v) \<and>
     (if ok_value v then ok_value (fst rv) else True)"
  "fuse_function f = Some rf \<Longrightarrow>
     (if snd rf then weight_function (fst rf) < weight_function f else fst rf = f) \<and>
     (if ok_function f then ok_function (fst rf) else True)"
  "fuse_closure p = Some rp \<Longrightarrow>
     (if snd rp then weight_closure (fst rp) < weight_closure p else fst rp = p) \<and>
     (if ok_closure p then ok_closure (fst rp) else True)"
proof (induction i and v and f and p arbitrary: r and rv and rf and rp
    rule: fuse_instruction_fuse_value_fuse_function_fuse_closure.induct)
  case (6 m code spans marks)
  show ?case
  proof (cases "has_fusable_patterns code")
    case True
    then obtain code' spans' marks' c where once: "fuse_once code (case spans of Some s \<Rightarrow> s | None \<Rightarrow> [])
        (case marks of Some k \<Rightarrow> k | None \<Rightarrow> []) = Some (code', spans', marks', c)"
      using "6.prems" unfolding fuse_function_eq by auto
    have r: "rf = (if c then (FunctionData m code' (Some spans') (Some marks'), True) else (FunctionData m code spans marks, False))"
      using "6.prems" True once by (simp add: fuse_function_eq)
    note post = fuse_once_nested_post [OF "6.IH" [OF True] once]
    have "if c then code_weight code' < code_weight code else True" using post(1) by (simp split: if_splits)
    moreover have "if code_ok code then code_ok code' else True" using post(2) by simp
    ultimately show ?thesis
      unfolding r code_ok_def code_weight_def by (cases c) (simp_all split: if_splits)
  qed (use "6.prems" in \<open>auto simp: fuse_function_eq\<close>)
next
  case (7 m caps code spans marks)
  show ?case
  proof (cases "has_fusable_patterns code")
    case True
    then obtain code' spans' marks' c where once: "fuse_once code spans marks = Some (code', spans', marks', c)"
      using "7.prems" unfolding fuse_closure_eq by auto
    have r: "rp = (if c then (ClosurePayload m caps code' spans' marks', True) else (ClosurePayload m caps code spans marks, False))"
      using "7.prems" True once by (simp add: fuse_closure_eq)
    note post = fuse_once_nested_post [OF "7.IH" [OF True] once]
    have "if c then code_weight code' < code_weight code else True" using post(1) by (simp split: if_splits)
    moreover have "if code_ok code then code_ok code' else True" using post(2) by simp
    ultimately show ?thesis
      unfolding r code_ok_def code_weight_def by (cases c) (simp_all split: if_splits)
  qed (use "7.prems" in \<open>auto simp: fuse_closure_eq\<close>)
qed (auto simp: nested_step_def branch_target_def try_len_def)

text \<open>One round, without assumptions on the nested code.\<close>

lemma fuse_once_post:
  assumes "fuse_once code spans marks = Some (code', spans', marks', c)"
  shows "if c then code_weight code' < code_weight code
         else code' = code \<and> spans' = spans \<and> marks' = marks \<and> (code \<noteq> [] \<longrightarrow> \<not> fuses_some code)"
    "code_ok code \<Longrightarrow> code_ok code'" "c \<Longrightarrow> length spans' = length code'"
  using fuse_once_nested_post [OF _ assms] fuse_nested(1) by blast+

lemma those_nested: "those (map fuse_instruction code) = Some rs \<Longrightarrow> list_all2 nested_step code rs"
  unfolding those_list_all2 by (auto simp: list_all2_conv_all_nth intro: fuse_nested(1))

lemma fuse_once_nested_total:
  assumes "\<And>i. i \<in> set is \<Longrightarrow> ok_instruction i \<Longrightarrow> \<exists>r. fuse_instruction i = Some r" "code_ok is"
  shows "\<exists>r. fuse_once is spans marks = Some r"
proof -
  obtain rs where rs: "those (map fuse_instruction is) = Some rs"
    using those_total [of "is" fuse_instruction] assms by (auto simp: code_ok_def)
  from fuse_level_total [OF nested_step_list(3) [OF those_nested [OF this] assms(2)]] rs show ?thesis
    by (simp add: fuse_once_def)
qed

lemma fuse_nested_total:
  fixes i :: "'o instruction" and v :: "'o val" and f :: "'o function_data" and p :: "'o closure_payload"
  shows
  "ok_instruction i \<Longrightarrow> \<exists>r. fuse_instruction i = Some r"
  "ok_value v \<Longrightarrow> \<exists>r. fuse_value v = Some r"
  "ok_function f \<Longrightarrow> \<exists>r. fuse_function f = Some r"
  "ok_closure p \<Longrightarrow> \<exists>r. fuse_closure p = Some r"
proof (induction i and v and f and p
    rule: fuse_instruction_fuse_value_fuse_function_fuse_closure.induct)
  case (6 m code spans marks)
  have "has_fusable_patterns code \<Longrightarrow> \<exists>r. fuse_once code s k = Some r" for s k
    using 6 by (intro fuse_once_nested_total) (auto simp: code_ok_def)
  then show ?case by (simp only: fuse_function_eq split: if_split) blast
next
  case (7 m caps code spans marks)
  have "has_fusable_patterns code \<Longrightarrow> \<exists>r. fuse_once code s k = Some r" for s k
    using 7 by (intro fuse_once_nested_total) (auto simp: code_ok_def)
  then show ?case by (simp only: fuse_closure_eq split: if_split) blast
qed auto

lemma fuse_once_total: "code_ok code \<Longrightarrow> \<exists>r. fuse_once code spans marks = Some r"
  by (intro fuse_once_nested_total fuse_nested_total)

end
