(* ===== verification/Fuse_Loop.thy ===== *)
theory Fuse_Loop
  imports Fuse_Correct
begin

text \<open>
  The loop \<open>Compiler::fuse\<close> and the properties of the pass: it ends with code that no round changes,
  and each round keeps debug spans, jump targets and try bodies with their instructions.
\<close>

section \<open>The loop\<close>

function fuse ::
  "'o instruction list \<Rightarrow> pc_spans \<Rightarrow> debug_stmt_mark list \<Rightarrow>
   ('o instruction list \<times> pc_spans \<times> debug_stmt_mark list) option" where
  "fuse code spans marks =
     (case fuse_once code spans marks of
        None \<Rightarrow> None
      | Some (code', spans', marks', changed) \<Rightarrow>
          if changed then fuse code' spans' marks' else Some (code', spans', marks'))"
  by pat_completeness auto
termination
  by (relation "measure (\<lambda>(code, spans, marks). code_weight code)") (auto dest: fuse_once_post(1))

declare fuse.simps [simp del]

lemma fuse_result:
  "code_ok code \<Longrightarrow> \<exists>code' spans' marks'. fuse code spans marks = Some (code', spans', marks') \<and>
     code_ok code' \<and> code_weight code' \<le> code_weight code \<and>
     (if length spans = length code then length spans' = length code' else True) \<and>
     fuse_once code' spans' marks' = Some (code', spans', marks', False)"
proof (induction code spans marks rule: fuse.induct)
  case (1 code spans marks)
  obtain code' spans' marks' c where once: "fuse_once code spans marks = Some (code', spans', marks', c)"
    using fuse_once_total [OF "1.prems"] by (metis prod_cases4)
  note post = fuse_once_post [OF once]
  show ?case
  proof (cases c)
    case True
    have "code_ok code'" using post(2) "1.prems" by simp
    from "1.IH" [OF once refl refl refl True this] obtain c2 s2 m2 where
      rest: "fuse code' spans' marks' = Some (c2, s2, m2)" "code_ok c2" "code_weight c2 \<le> code_weight code'"
      "if length spans' = length code' then length s2 = length c2 else True"
      "fuse_once c2 s2 m2 = Some (c2, s2, m2, False)"
      by blast
    have "fuse code spans marks = Some (c2, s2, m2)"
      using once rest(1) True by (subst fuse.simps) simp
    with rest post(1,3) True show ?thesis by auto
  next
    case False
    with once post(1) "1.prems" show ?thesis by (subst fuse.simps) auto
  qed
qed

lemma quiet_walk:
  assumes "fuse_once code spans marks = Some (code, spans, marks, False)" "i < length code"
  shows "\<not> fuses_at (try_boundaries code) code i"
proof -
  have "\<not> fuses_some code"
    using fuse_once_post(1) [OF assms(1)] assms(2) by auto
  then show ?thesis
    using no_fuse_walk [of "try_boundaries code" code 0] assms(2) by (simp add: list_ex_iff)
qed

text \<open>C15: The peephole loop terminates without a panic on every code whose jump targets lie in the
  code (nested functions and closures included). Its result is again such code, one debug span per
  instruction is kept, another round changes nothing, and at no position of the final code can
  two instructions be fused or an instruction be removed.\<close>

theorem fuse_total_normal:
  assumes "code_ok code"
  shows "\<exists>code' spans' marks'. fuse code spans marks = Some (code', spans', marks') \<and>
     code_ok code' \<and>
     (if length spans = length code then length spans' = length code' else True) \<and>
     fuse_once code' spans' marks' = Some (code', spans', marks', False) \<and>
     (\<forall>i < length code'. \<not> fuses_at (try_boundaries code') code' i)"
  using fuse_result [OF assms, of spans marks] quiet_walk by blast

theorem fuse_total_normal_witness:
  "\<exists>code' spans' marks'.
     fuse [I_LoadConst (V_Int 1), I_StoreLocalKeep 0, I_Pop, I_Jump 4, I_Return :: unit instruction]
       [None, None, None, None, None] [] = Some (code', spans', marks') \<and> code_ok code'"
proof -
  have "code_ok [I_LoadConst (V_Int 1), I_StoreLocalKeep 0, I_Pop, I_Jump 4, I_Return :: unit instruction]"
    by (simp add: code_ok_def target_ok_def branch_target_def jump_operand_def)
  from fuse_total_normal [OF this] show ?thesis by blast
qed

section \<open>The layout of fused code\<close>

lemma mark_boundaries_nth:
  "mark_boundaries index is b ! e \<longleftrightarrow> b ! e \<or>
     (\<exists>i < length is. \<exists>len. try_len (is ! i) = Some len \<and> e = index + i + 1 + len \<and> e < length b)"
proof (induction index "is" b rule: mark_boundaries.induct)
  case (2 index i code b)
  have "(\<exists>k < length (i # code). \<exists>len. try_len ((i # code) ! k) = Some len \<and>
          e = index + k + 1 + len \<and> e < length b) \<longleftrightarrow>
      (\<exists>len. try_len i = Some len \<and> e = index + 1 + len \<and> e < length b) \<or>
      (\<exists>k < length code. \<exists>len. try_len (code ! k) = Some len \<and>
          e = index + 1 + k + 1 + len \<and> e < length b)"
    by (auto simp: less_Suc_eq_0_disj)
  with 2 show ?case
    by (cases "try_len i") (auto simp: Let_def nth_list_update)
qed simp

lemma try_boundaries_nth:
  assumes "e \<le> length old"
  shows "try_boundaries old ! e \<longleftrightarrow>
    (\<exists>i < length old. \<exists>len. try_len (old ! i) = Some len \<and> e = i + 1 + len)"
  using assms by (auto simp: try_boundaries_def mark_boundaries_nth simp del: replicate_Suc)

lemma fused_pair_no_try: "fused_pair tb old i \<Longrightarrow> try_len (old ! i) = None"
  by (auto simp: at_defs try_len_def elim!: fuse_pop_pair.elims dest!: fuse_branch_pair_cases
      split: option.splits if_splits)

lemma sorted_wrt_less_nth:
  assumes "sorted_wrt (<) os" "q < length os" "r < length os"
  shows "(q < r) = (os ! q < (os ! r :: nat))"
  using assms sorted_wrt_nth_less [OF assms(1)] by (metis less_asym' linorder_neqE_nat)

lemma try_len_flat: "try_len (I_Branch j) = None" "try_len I_Pop = None"
  by (simp_all add: try_len_def)

lemma pushed_shape:
  assumes "pushed_at tb old i = Some ins"
  shows "try_len ins = (if fused_pair tb old i then None else try_len (old ! i))"
    "branch_target ins = Some t \<Longrightarrow>
     branch_target (old ! (if fused_pair tb old i then i + 1 else i)) = Some t"
proof -
  show "try_len ins = (if fused_pair tb old i then None else try_len (old ! i))"
    using assms by (auto simp: at_defs try_len_flat
      dest!: fuse_pop_pair_cases fuse_branch_pair_cases split: option.splits if_splits)
  show "branch_target ins = Some t \<Longrightarrow>
     branch_target (old ! (if fused_pair tb old i then i + 1 else i)) = Some t"
    using assms by (auto simp: at_defs branch_target_def [of I_Pop]
      dest!: fuse_pop_pair_cases fuse_branch_pair_cases split: option.splits if_splits)
qed

lemma remap_try:
  assumes "remap_instruction n m orig q ins = Some ins'"
  shows "try_len ins' = map_option (\<lambda>len. m ! min (orig + 1 + len) n - (q + 1)) (try_len ins)"
  using assms
  by (cases ins) (auto simp: remap_instruction_def try_len_def index_opt_def
      split: misc_inst.splits if_splits)

text \<open>One round keeps what belongs to an instruction with it. For the positions of the old code
  whose instructions remain (\<open>origin\<close>, in order): instruction \<open>q\<close> of the new code has the debug span
  of its origin; a jump leads to the first remaining instruction at or after the old target; and the
  body of a \<open>Try\<close> holds exactly the instructions that came from the old body.\<close>

theorem fuse_once_layout:
  assumes "fuse_once code spans marks = Some (code', spans', marks', True)"
  shows "\<exists>origin. sorted_wrt (<) origin \<and> set origin \<subseteq> {..<length code} \<and> length origin = length code' \<and>
    (\<forall>q < length code'.
       spans' ! q = (if origin ! q < length spans then spans ! (origin ! q) else None) \<and>
       (case branch_target (code' ! q) of None \<Rightarrow> True | Some t' \<Rightarrow>
          \<exists>j \<in> {origin ! q, origin ! q + 1}. \<exists>t. branch_target (code ! j) = Some t \<and>
            (\<forall>r < length code'. (r < t') = (origin ! r < t))) \<and>
       (case try_len (code' ! q) of None \<Rightarrow> True | Some len' \<Rightarrow>
          \<exists>len. try_len (code ! (origin ! q)) = Some len \<and>
            (\<forall>r < length code'. (q < r \<and> r \<le> q + len') =
               (origin ! q < origin ! r \<and> origin ! r \<le> origin ! q + len))))"
proof -
  obtain rs where nested: "those (map fuse_instruction code) = Some rs"
    and level: "fuse_level (list_ex snd rs) (map fst rs) spans marks = Some (code', spans', marks', True)"
    using assms by (auto simp: fuse_once_def split: option.splits)
  define old where "old = map fst rs"
  have step: "list_all2 nested_step code rs" by (rule those_nested [OF nested])
  have len: "length old = length code" using list_all2_lengthD [OF step] by (simp add: old_def)
  have shape: "branch_target (old ! j) = branch_target (code ! j)" "try_len (old ! j) = try_len (code ! j)"
    if "j < length code" for j
    using list_all2_nthD [OF step that] that len by (simp_all add: nested_step_def old_def)
  have ne: "old \<noteq> []"
    using level by (cases "rs = []") (auto simp: old_def fuse_level_def)
  have remap: "remap_code (length old) (index_map old) (kept_of old) (pushed_of old) = Some code'"
    and spans': "spans' = remap_spans (kept_of old) spans"
    using level ne unfolding old_def [symmetric] by (auto simp: fuse_level_eq split: if_splits)
  let ?os = "kept_of old"
  have size: "length ?os = length code'" using remap_code_spec(1) [OF remap] by simp
  have sorted: "sorted_wrt (<) ?os" by (rule kept_steps_sorted)
  have at: "\<exists>ins. pushed_at (try_boundaries old) old (?os ! q) = Some ins \<and> ?os ! q < length old \<and>
      remap_instruction (length old) (index_map old) (?os ! q) q ins = Some (code' ! q)"
    if "q < length code'" for q
  proof -
    have mem: "?os ! q \<in> set ?os" using that size by simp
    with kept_pushed [OF mem] kept_steps_range [OF mem] remap_code_spec(2) [OF remap, of q] that size
    show ?thesis by auto
  qed
  have less: "(r < new_index ?os t) = (?os ! r < t)" if "r < length code'" for r t
    using new_index_less_iff [OF sorted, of r t] that size by simp
  show ?thesis
  proof (intro exI [of _ ?os] conjI allI impI)
    show "set ?os \<subseteq> {..<length code}" using kept_steps_range len by fastforce
  next
    fix q assume q: "q < length code'"
    then show "spans' ! q = (if ?os ! q < length spans then spans ! (?os ! q) else None)"
      using size by (simp add: spans' remap_spans_def)
    obtain ins where ins: "pushed_at (try_boundaries old) old (?os ! q) = Some ins" "?os ! q < length old"
      "remap_instruction (length old) (index_map old) (?os ! q) q ins = Some (code' ! q)"
      using at [OF q] by blast
    show "case branch_target (code' ! q) of None \<Rightarrow> True | Some t' \<Rightarrow>
        \<exists>j \<in> {?os ! q, ?os ! q + 1}. \<exists>t. branch_target (code ! j) = Some t \<and>
          (\<forall>r < length code'. (r < t') = (?os ! r < t))"
    proof (cases "branch_target ins")
      case None
      then show ?thesis using remap_instruction_shape(2) [OF ins(3)] by simp
    next
      case (Some t)
      let ?j = "if fused_pair (try_boundaries old) old (?os ! q) then ?os ! q + 1 else ?os ! q"
      have "?j < length code" using fused_pair_bound [of "try_boundaries old" old "?os ! q"] ins(2) len by auto
      moreover have "t \<le> length old" using remap_instruction_target [OF ins(3) Some] by simp
      ultimately show ?thesis
        using remap_instruction_shape(2) [OF ins(3)] Some pushed_shape(2) [OF ins(1) Some] shape(1) less
        by (auto simp: index_map_nth split: if_splits)
    qed
    show "case try_len (code' ! q) of None \<Rightarrow> True | Some len' \<Rightarrow>
        \<exists>len. try_len (code ! (?os ! q)) = Some len \<and>
          (\<forall>r < length code'. (q < r \<and> r \<le> q + len') =
             (?os ! q < ?os ! r \<and> ?os ! r \<le> ?os ! q + len))"
    proof (cases "try_len ins")
      case None
      then show ?thesis using remap_try [OF ins(3)] by simp
    next
      case (Some len)
      let ?e = "min (?os ! q + 1 + len) (length old)"
      have "try_len (code' ! q) = Some (new_index ?os ?e - (q + 1))"
        using remap_try [OF ins(3)] Some by (simp add: index_map_nth)
      moreover have "try_len (code ! (?os ! q)) = Some len"
        using pushed_shape(1) [OF ins(1)] Some shape(2) ins(2) len by (simp split: if_splits)
      moreover have "(q < r \<and> r \<le> q + (new_index ?os ?e - (q + 1))) =
          (?os ! q < ?os ! r \<and> ?os ! r \<le> ?os ! q + len)" if r: "r < length code'" for r
      proof -
        have "(q < r) = (?os ! q < ?os ! r)"
          using sorted_wrt_less_nth [OF sorted] r q size by simp
        moreover have "(r < new_index ?os ?e) = (?os ! r < ?e)" by (rule less [OF r])
        moreover have "?os ! r < length old" using at [OF r] by blast
        ultimately show ?thesis by auto
      qed
      ultimately show ?thesis by simp
    qed
  qed (use sorted size in simp_all)
qed

text \<open>A \<open>Try\<close> whose body ends between a store and a \<open>Pop\<close>: the pair inside the body is fused, the
  pair across its end is not.\<close>

definition sample_code :: "unit instruction list" where
  "sample_code =
     [I_JumpIfFalse 6, I_Try 3, I_StoreLocalKeep 0, I_Pop, I_StoreLocalKeep 1, I_Pop, I_Return]"

lemma sample_code_once:
  "fuse_once sample_code [] [] =
     Some ([I_JumpIfFalse 5, I_Try 2, I_StoreLocal 0, I_StoreLocalKeep 1, I_Pop, I_Return],
       [None, None, None, None, None, None], [], True)"
  by code_simp

theorem fuse_once_layout_witness:
  "\<exists>code'. fuse_once sample_code [] [] = Some (code', replicate (length code') None, [], True) \<and>
     (\<exists>origin. sorted_wrt (<) origin \<and> length origin = length code' \<and> set origin \<subseteq> {..<length sample_code})"
  using fuse_once_layout [OF sample_code_once] sample_code_once by fastforce

end
