(* ===== verification/Vm.thy ===== *)
theory Vm
  imports Inst WqError "HOL-Library.Signed_Division"
begin

text \<open>
  The interpreter core: the state of \<open>wqpl/src/vm.rs\<close> that one activation of a function sees, and
  the instructions of \<open>wqpl/src/interpret/vanilla.rs\<close> (with its modules \<open>operand.rs\<close>, \<open>mutate.rs\<close>,
  \<open>target.rs\<close>) that run inside one activation: loads, stores, operators, indexing, jumps, loops,
  and return. An instruction that leaves the activation or prints (calls, imports, closures, try
  frames, traces, unpacking) has the outcome \<open>Outside\<close>.

  The operators of \<open>Value\<close> on anything but machine integers, and what a builtin name denotes, are
  arguments of the model (\<open>value_ops\<close>); the integer fast paths are defined here. Errors keep their
  category only, so notes and source positions are left out, and so are hooks, debugger checks,
  interrupts and symbol trackers, which do not touch this state. Capture cells are addresses of
  a heap, shared by locals and captures as the \<open>Arc\<close>s are.
\<close>

section \<open>State\<close>

datatype 'o slot = Slot_Value "'o val" | Slot_Cell nat

record 'o activation =
  ac_locals :: "'o slot list"
  ac_captures :: "nat list"
  ac_callable :: "'o val"

record inline_cache =
  ic_slot :: "nat option"
  ic_slot_b :: "nat option"

record 'o vm =
  vm_pc :: nat
  vm_stack :: "'o val list"
  vm_active :: "'o activation option"
  vm_cells :: "'o val list"
  vm_global_map :: "(ustr \<times> nat) list"
  vm_global_slots :: "'o val list"
  vm_cache :: "inline_cache list"
  vm_unpack_frames :: "'o val list list"

record 'o value_ops =
  vo_eval_binary :: "binary_operator \<Rightarrow> 'o val \<Rightarrow> 'o val \<Rightarrow> wq_error_type + 'o val"
  vo_eval_unary :: "unary_operator \<Rightarrow> 'o val \<Rightarrow> wq_error_type + 'o val"
  vo_eval_bool_op :: "bool_operator \<Rightarrow> 'o val \<Rightarrow> 'o val \<Rightarrow> wq_error_type + 'o val"
  vo_f64_div :: "i64 \<Rightarrow> i64 \<Rightarrow> f64"
  vo_from_items :: "'o val list \<Rightarrow> 'o val"
  vo_cat_many :: "'o val list \<Rightarrow> 'o val"
  vo_index :: "'o val \<Rightarrow> 'o val \<Rightarrow> 'o val option"
  vo_index_many :: "'o val \<Rightarrow> 'o val list \<Rightarrow> 'o val option"
  vo_assign_by_index :: "'o val \<Rightarrow> 'o val \<Rightarrow> 'o val \<Rightarrow> 'o val \<times> bool"
  vo_assign_by_indices :: "'o val \<Rightarrow> 'o val list \<Rightarrow> 'o val \<Rightarrow> 'o val \<times> bool"
  vo_builtin :: "ustr \<Rightarrow> 'o val option"

datatype 'o exec = Next "'o vm" | Fail wq_error_type | Returned "'o val" | Outside

definition empty_list :: "'o val" where
  "empty_list = V_List []"

definition from_bigint :: "int \<Rightarrow> 'o val" where
  "from_bigint n = (if - (2 ^ 63) \<le> n \<and> n < 2 ^ 63 then V_Int (word_of_int n) else V_BigInt n)"

definition try_to_rust_bool :: "'o val \<Rightarrow> bool option" where
  "try_to_rust_bool v = (case v of V_Bool b \<Rightarrow> Some b | _ \<Rightarrow> None)"

section \<open>Stack, locals, captures\<close>

definition push :: "'o val \<Rightarrow> 'o vm \<Rightarrow> 'o vm" where
  "push v m = m\<lparr>vm_stack := vm_stack m @ [v]\<rparr>"

definition pop1_stack :: "'o vm \<Rightarrow> wq_error_type + 'o val \<times> 'o vm" where
  "pop1_stack m =
     (if vm_stack m = [] then Inl W_Vm
      else Inr (last (vm_stack m), m\<lparr>vm_stack := butlast (vm_stack m)\<rparr>))"

definition pop2_stack :: "'o vm \<Rightarrow> wq_error_type + ('o val \<times> 'o val) \<times> 'o vm" where
  "pop2_stack m =
     (let s = vm_stack m in
      if length s < 2 then Inl W_Vm
      else Inr ((last (butlast s), last s), m\<lparr>vm_stack := butlast (butlast s)\<rparr>))"

definition last_clone_stack :: "'o vm \<Rightarrow> wq_error_type + 'o val" where
  "last_clone_stack m = (if vm_stack m = [] then Inl W_Vm else Inr (last (vm_stack m)))"

text \<open>The last \<open>n\<close> values in stack order: \<open>ensure_stack_len\<close> followed by \<open>drain\<close>.\<close>

definition take_last :: "nat \<Rightarrow> 'o vm \<Rightarrow> wq_error_type + 'o val list \<times> 'o vm" where
  "take_last n m =
     (let s = vm_stack m in
      if length s < n then Inl W_Vm
      else Inr (drop (length s - n) s, m\<lparr>vm_stack := take (length s - n) s\<rparr>))"

definition slot_read :: "'o vm \<Rightarrow> 'o slot \<Rightarrow> 'o val" where
  "slot_read m s = (case s of Slot_Value v \<Rightarrow> v | Slot_Cell a \<Rightarrow> vm_cells m ! a)"

definition local_slot :: "'o vm \<Rightarrow> nat \<Rightarrow> 'o slot option" where
  "local_slot m i =
     (case vm_active m of None \<Rightarrow> None
      | Some a \<Rightarrow> if i < length (ac_locals a) then Some (ac_locals a ! i) else None)"

definition capture_cell :: "'o vm \<Rightarrow> nat \<Rightarrow> nat option" where
  "capture_cell m i =
     (case vm_active m of None \<Rightarrow> None
      | Some a \<Rightarrow> if i < length (ac_captures a) then Some (ac_captures a ! i) else None)"

definition write_cell :: "nat \<Rightarrow> 'o val \<Rightarrow> 'o vm \<Rightarrow> 'o vm" where
  "write_cell a v m = m\<lparr>vm_cells := (vm_cells m)[a := v]\<rparr>"

text \<open>\<open>Slot::write\<close> on a slot of the current frame.\<close>

definition write_local :: "nat \<Rightarrow> 'o slot \<Rightarrow> 'o val \<Rightarrow> 'o vm \<Rightarrow> 'o vm" where
  "write_local i s v m =
     (case s of
        Slot_Cell a \<Rightarrow> write_cell a v m
      | Slot_Value _ \<Rightarrow>
          m\<lparr>vm_active := map_option (\<lambda>f. f\<lparr>ac_locals := (ac_locals f)[i := Slot_Value v]\<rparr>) (vm_active m)\<rparr>)"

definition read_local_target :: "nat \<Rightarrow> 'o vm \<Rightarrow> wq_error_type + 'o val" where
  "read_local_target i m =
     (case local_slot m i of Some s \<Rightarrow> Inr (slot_read m s) | None \<Rightarrow> Inl W_Vm)"

definition read_capture_target :: "nat \<Rightarrow> 'o vm \<Rightarrow> wq_error_type + 'o val" where
  "read_capture_target i m =
     (case capture_cell m i of Some a \<Rightarrow> Inr (vm_cells m ! a) | None \<Rightarrow> Inl W_Vm)"

section \<open>Globals and the inline cache\<close>

definition lookup_global_slot :: "'o vm \<Rightarrow> ustr \<Rightarrow> nat option" where
  "lookup_global_slot m name = map_of (vm_global_map m) name"

definition global_slot_value :: "'o vm \<Rightarrow> nat \<Rightarrow> 'o val option" where
  "global_slot_value m s =
     (if s < length (vm_global_slots m) then Some (vm_global_slots m ! s) else None)"

definition set_global :: "nat \<Rightarrow> 'o val \<Rightarrow> 'o vm \<Rightarrow> 'o vm" where
  "set_global s v m = m\<lparr>vm_global_slots := (vm_global_slots m)[s := v]\<rparr>"

definition assign_global_and_slot :: "ustr \<Rightarrow> 'o val \<Rightarrow> 'o vm \<Rightarrow> nat \<times> 'o vm" where
  "assign_global_and_slot name v m =
     (case lookup_global_slot m name of
        Some s \<Rightarrow> (s, set_global s v m)
      | None \<Rightarrow>
          let s = length (vm_global_slots m) in
          (s, set_global s v (m\<lparr>vm_global_map := (name, s) # vm_global_map m,
                               vm_global_slots := vm_global_slots m @ [empty_list]\<rparr>)))"

definition assign_global_at_slot :: "ustr \<Rightarrow> nat \<Rightarrow> 'o val \<Rightarrow> 'o vm \<Rightarrow> 'o vm" where
  "assign_global_at_slot name s v m =
     (let m1 = set_global s v m in
      if lookup_global_slot m1 name = None then m1\<lparr>vm_global_map := (name, s) # vm_global_map m1\<rparr>
      else m1)"

definition cached_slot :: "bool \<Rightarrow> nat \<Rightarrow> 'o vm \<Rightarrow> nat option" where
  "cached_slot second idx m = (if second then ic_slot_b else ic_slot) (vm_cache m ! idx)"

definition cache_slot :: "bool \<Rightarrow> nat \<Rightarrow> nat \<Rightarrow> 'o vm \<Rightarrow> 'o vm" where
  "cache_slot second idx s m =
     m\<lparr>vm_cache := (vm_cache m)[idx :=
        (if second then (vm_cache m ! idx)\<lparr>ic_slot_b := Some s\<rparr>
         else (vm_cache m ! idx)\<lparr>ic_slot := Some s\<rparr>)]\<rparr>"

definition load_global :: "'o value_ops \<Rightarrow> bool \<Rightarrow> nat \<Rightarrow> ustr \<Rightarrow> 'o vm \<Rightarrow> wq_error_type + 'o val \<times> 'o vm" where
  "load_global E second idx name m =
     (case (case cached_slot second idx m of Some s \<Rightarrow> global_slot_value m s | None \<Rightarrow> None) of
        Some v \<Rightarrow> Inr (v, m)
      | None \<Rightarrow>
          (case lookup_global_slot m name of
             Some s \<Rightarrow>
               (case global_slot_value m s of
                  None \<Rightarrow> Inl W_Vm
                | Some v \<Rightarrow> Inr (v, cache_slot second idx s m))
           | None \<Rightarrow>
               (case vo_builtin E name of Some v \<Rightarrow> Inr (v, m) | None \<Rightarrow> Inl W_NotBound)))"

definition resolve_operand ::
  "'o value_ops \<Rightarrow> nat \<Rightarrow> 'o operand \<Rightarrow> bool \<Rightarrow> 'o vm \<Rightarrow> wq_error_type + 'o val \<times> 'o vm" where
  "resolve_operand E idx opd second m = (case opd of
     O_Stack \<Rightarrow> pop1_stack m
   | O_Const v \<Rightarrow> Inr (v, m)
   | O_Local i \<Rightarrow> (case read_local_target (unat i) m of Inl e \<Rightarrow> Inl e | Inr v \<Rightarrow> Inr (v, m))
   | O_Capture i \<Rightarrow> (case read_capture_target (unat i) m of Inl e \<Rightarrow> Inl e | Inr v \<Rightarrow> Inr (v, m))
   | O_Var name \<Rightarrow> load_global E second idx name m
   | O_Self \<Rightarrow> (case vm_active m of Some a \<Rightarrow> Inr (ac_callable a, m) | None \<Rightarrow> Inl W_Vm))"

section \<open>Machine integers\<close>

definition checked :: "int \<Rightarrow> 'o val option" where
  "checked n = (if - (2 ^ 63) \<le> n \<and> n < 2 ^ 63 then Some (V_Int (word_of_int n)) else None)"

definition i64_min :: i64 where
  "i64_min = word_of_int (- (2 ^ 63))"

definition shift_amount :: "i64 \<Rightarrow> nat option" where
  "shift_amount r = (if 0 \<le> sint r \<and> sint r < 2 ^ 32 then Some (nat (sint r)) else None)"

definition eval_int_comparison :: "binary_operator \<Rightarrow> i64 \<Rightarrow> i64 \<Rightarrow> bool option" where
  "eval_int_comparison op l r = (case op of
     Bin_Equal \<Rightarrow> Some (l = r) | Bin_EqualDot \<Rightarrow> Some (l = r)
   | Bin_NotEqual \<Rightarrow> Some (l \<noteq> r) | Bin_NotEqualDot \<Rightarrow> Some (l \<noteq> r)
   | Bin_Lt \<Rightarrow> Some (sint l < sint r) | Bin_Lte \<Rightarrow> Some (sint l \<le> sint r)
   | Bin_Gt \<Rightarrow> Some (sint l > sint r) | Bin_Gte \<Rightarrow> Some (sint l \<ge> sint r)
   | _ \<Rightarrow> None)"

definition eval_int_binary :: "'o value_ops \<Rightarrow> binary_operator \<Rightarrow> i64 \<Rightarrow> i64 \<Rightarrow> 'o val option" where
  "eval_int_binary E op l r = (case op of
     Bin_Add \<Rightarrow> checked (sint l + sint r)
   | Bin_Subtract \<Rightarrow> checked (sint l - sint r)
   | Bin_Multiply \<Rightarrow> checked (sint l * sint r)
   | Bin_Divide \<Rightarrow> if r \<noteq> 0 then Some (V_Float (vo_f64_div E l r)) else None
   | Bin_Modulo \<Rightarrow> if r = 0 \<or> (l = i64_min \<and> r = - 1) then None else Some (V_Int (word_of_int (sint l smod sint r)))
   | Bin_FloorDiv \<Rightarrow>
       if r = 0 \<or> (l = i64_min \<and> r = - 1) then None
       else
         let q0 = word_of_int (sint l sdiv sint r); m = word_of_int (sint l smod sint r) in
         Some (V_Int (if m = (0 :: i64) \<or> 0 \<le> sint (xor l r) then q0 else q0 - 1))
   | Bin_Equal \<Rightarrow> Some (V_Bool (l = r)) | Bin_EqualDot \<Rightarrow> Some (V_Bool (l = r))
   | Bin_NotEqual \<Rightarrow> Some (V_Bool (l \<noteq> r)) | Bin_NotEqualDot \<Rightarrow> Some (V_Bool (l \<noteq> r))
   | Bin_Lt \<Rightarrow> Some (V_Bool (sint l < sint r)) | Bin_Lte \<Rightarrow> Some (V_Bool (sint l \<le> sint r))
   | Bin_Gt \<Rightarrow> Some (V_Bool (sint l > sint r)) | Bin_Gte \<Rightarrow> Some (V_Bool (sint l \<ge> sint r))
   | Bin_BitAnd \<Rightarrow> Some (V_Int (and l r)) | Bin_BitOr \<Rightarrow> Some (V_Int (or l r))
   | Bin_BitXor \<Rightarrow> Some (V_Int (xor l r))
   | Bin_Shl \<Rightarrow> map_option (\<lambda>k. from_bigint (sint l * 2 ^ k)) (shift_amount r)
   | Bin_Shr \<Rightarrow> map_option (\<lambda>k. from_bigint (sint l div 2 ^ k)) (shift_amount r)
   | _ \<Rightarrow> None)"

definition int_of_val :: "'o val \<Rightarrow> i64 option" where
  "int_of_val v = (case v of V_Int n \<Rightarrow> Some n | _ \<Rightarrow> None)"

definition int_operand :: "'o vm \<Rightarrow> 'o operand \<Rightarrow> nat option \<Rightarrow> i64 option" where
  "int_operand m opd stack_idx = (case opd of
     O_Stack \<Rightarrow>
       (case stack_idx of None \<Rightarrow> None
        | Some k \<Rightarrow> if k < length (vm_stack m) then int_of_val (vm_stack m ! k) else None)
   | O_Const v \<Rightarrow> int_of_val v
   | O_Local i \<Rightarrow> (case local_slot m (unat i) of None \<Rightarrow> None | Some s \<Rightarrow> int_of_val (slot_read m s))
   | _ \<Rightarrow> None)"

text \<open>Both integer paths find their operands alike: \<open>f\<close> is the operation, and on success the stack
  operands are dropped.\<close>

definition with_int_operands ::
  "(i64 \<Rightarrow> i64 \<Rightarrow> 'a option) \<Rightarrow> 'o operand \<Rightarrow> 'o operand \<Rightarrow> 'o vm \<Rightarrow> ('a \<times> 'o vm) option" where
  "with_int_operands f left right m =
     (let right_is_stack = (right = O_Stack);
          left_is_stack = (left = O_Stack);
          stack_len = length (vm_stack m);
          stack_count = of_bool right_is_stack + of_bool left_is_stack in
      if stack_count > stack_len then None
      else
        (case int_operand m right (if right_is_stack then Some (stack_len - 1) else None) of
           None \<Rightarrow> None
         | Some r \<Rightarrow>
             (case int_operand m left
                 (if left_is_stack then Some (stack_len - 1 - of_bool right_is_stack) else None) of
                None \<Rightarrow> None
              | Some l \<Rightarrow>
                  map_option
                    (\<lambda>x. (x, if stack_count > 0
                             then m\<lparr>vm_stack := take (stack_len - stack_count) (vm_stack m)\<rparr> else m))
                    (f l r))))"

definition try_eval_int_binary_operands ::
  "'o value_ops \<Rightarrow> binary_operator \<Rightarrow> 'o operand \<Rightarrow> 'o operand \<Rightarrow> 'o vm \<Rightarrow> ('o val \<times> 'o vm) option" where
  "try_eval_int_binary_operands E op left right m = with_int_operands (eval_int_binary E op) left right m"

definition try_eval_int_cmp_branch ::
  "binary_operator \<Rightarrow> 'o operand \<Rightarrow> 'o operand \<Rightarrow> 'o vm \<Rightarrow> (bool \<times> 'o vm) option" where
  "try_eval_int_cmp_branch op left right m = with_int_operands (eval_int_comparison op) left right m"

text \<open>The general path: right operand first, then left, then the operator.\<close>

definition eval_operands ::
  "'o value_ops \<Rightarrow> nat \<Rightarrow> binary_operator \<Rightarrow> 'o operand \<Rightarrow> 'o operand \<Rightarrow> 'o vm \<Rightarrow>
   wq_error_type + 'o val \<times> 'o vm" where
  "eval_operands E idx op left right m =
     (case try_eval_int_binary_operands E op left right m of
        Some (v, m') \<Rightarrow> Inr (v, m')
      | None \<Rightarrow>
          (case resolve_operand E idx right True m of
             Inl e \<Rightarrow> Inl e
           | Inr (r, m1) \<Rightarrow>
               (case resolve_operand E idx left False m1 of
                  Inl e \<Rightarrow> Inl e
                | Inr (l, m2) \<Rightarrow>
                    (case vo_eval_binary E op l r of Inl e \<Rightarrow> Inl e | Inr v \<Rightarrow> Inr (v, m2)))))"

definition eval_cmp_branch_condition ::
  "'o value_ops \<Rightarrow> nat \<Rightarrow> binary_operator \<Rightarrow> 'o operand \<Rightarrow> 'o operand \<Rightarrow> 'o vm \<Rightarrow>
   wq_error_type + bool \<times> 'o vm" where
  "eval_cmp_branch_condition E idx op left right m =
     (case try_eval_int_cmp_branch op left right m of
        Some (b, m') \<Rightarrow> Inr (b, m')
      | None \<Rightarrow>
          (case eval_operands E idx op left right m of
             Inl e \<Rightarrow> Inl e
           | Inr (v, m') \<Rightarrow>
               (case try_to_rust_bool v of Some b \<Rightarrow> Inr (b, m') | None \<Rightarrow> Inl W_Domain)))"

section \<open>Stores\<close>

definition store_value :: "bool \<Rightarrow> 'o vm \<Rightarrow> wq_error_type + 'o val \<times> 'o vm" where
  "store_value keep m =
     (if keep then (case last_clone_stack m of Inl e \<Rightarrow> Inl e | Inr v \<Rightarrow> Inr (v, m))
      else pop1_stack m)"

definition store_local_value :: "nat \<Rightarrow> 'o val \<Rightarrow> 'o vm \<Rightarrow> 'o exec" where
  "store_local_value i v m =
     (case local_slot m i of Some s \<Rightarrow> Next (write_local i s v m) | None \<Rightarrow> Fail W_Vm)"

definition store_local_impl :: "nat \<Rightarrow> bool \<Rightarrow> 'o vm \<Rightarrow> 'o exec" where
  "store_local_impl i keep m =
     (case store_value keep m of Inl e \<Rightarrow> Fail e | Inr (v, m') \<Rightarrow> store_local_value i v m')"

definition store_capture_impl :: "nat \<Rightarrow> bool \<Rightarrow> 'o vm \<Rightarrow> 'o exec" where
  "store_capture_impl i keep m =
     (case store_value keep m of
        Inl e \<Rightarrow> Fail e
      | Inr (v, m') \<Rightarrow>
          (case capture_cell m' i of Some a \<Rightarrow> Next (write_cell a v m') | None \<Rightarrow> Fail W_Vm))"

definition store_var_impl :: "nat \<Rightarrow> ustr \<Rightarrow> bool \<Rightarrow> 'o vm \<Rightarrow> 'o exec" where
  "store_var_impl idx name keep m =
     (case store_value keep m of
        Inl e \<Rightarrow> Fail e
      | Inr (v, m') \<Rightarrow>
          (case cached_slot False idx m' of
             Some s \<Rightarrow> Next (assign_global_at_slot name s v m')
           | None \<Rightarrow> (case assign_global_and_slot name v m' of
               (s, m2) \<Rightarrow> Next (cache_slot False idx s m2))))"

section \<open>Indexed assignment\<close>

text \<open>Where an indexed assignment reads and writes its target, with the error of a missing one.\<close>

definition read_target :: "store_target \<Rightarrow> 'o vm \<Rightarrow> wq_error_type + 'o val" where
  "read_target t m = (case t of
     ST_Local i \<Rightarrow> read_local_target (unat i) m
   | ST_Capture i \<Rightarrow> read_capture_target (unat i) m
   | ST_Var name \<Rightarrow>
       (case lookup_global_slot m name of None \<Rightarrow> Inl W_NotBound
        | Some s \<Rightarrow> (case global_slot_value m s of None \<Rightarrow> Inl W_NotBound | Some v \<Rightarrow> Inr v)))"

definition write_target :: "store_target \<Rightarrow> 'o val \<Rightarrow> 'o vm \<Rightarrow> 'o vm" where
  "write_target t v m = (case t of
     ST_Local i \<Rightarrow> (case local_slot m (unat i) of Some s \<Rightarrow> write_local (unat i) s v m | None \<Rightarrow> m)
   | ST_Capture i \<Rightarrow> (case capture_cell m (unat i) of Some a \<Rightarrow> write_cell a v m | None \<Rightarrow> m)
   | ST_Var name \<Rightarrow> (case lookup_global_slot m name of Some s \<Rightarrow> set_global s v m | None \<Rightarrow> m))"

text \<open>The common shape of the six \<open>execute_*_index_assign_*\<close> functions: \<open>assign\<close> updates the target
  in place and tells whether it succeeded.\<close>

definition assign_target ::
  "store_target \<Rightarrow> ('o val \<Rightarrow> 'o val \<times> bool) \<Rightarrow> 'o val \<Rightarrow> bool \<Rightarrow> 'o vm \<Rightarrow> 'o exec" where
  "assign_target t assign v keep m =
     (case read_target t m of
        Inl e \<Rightarrow> Fail e
      | Inr old \<Rightarrow>
          (case assign old of
             (new, ok) \<Rightarrow>
               if ok then Next ((if keep then push v else id) (write_target t new m))
               else Fail W_Index))"

definition execute_single_index_assign ::
  "'o value_ops \<Rightarrow> store_target \<Rightarrow> bool \<Rightarrow> 'o vm \<Rightarrow> 'o exec" where
  "execute_single_index_assign E t keep m =
     (case pop1_stack m of
        Inl e \<Rightarrow> Fail e
      | Inr (v, m1) \<Rightarrow>
          (case pop1_stack m1 of
             Inl e \<Rightarrow> Fail e
           | Inr (index, m2) \<Rightarrow> assign_target t (\<lambda>old. vo_assign_by_index E old index v) v keep m2))"

definition execute_index_assign ::
  "'o value_ops \<Rightarrow> store_target \<Rightarrow> nat \<Rightarrow> bool \<Rightarrow> 'o vm \<Rightarrow> 'o exec" where
  "execute_index_assign E t argc keep m =
     (case pop1_stack m of
        Inl e \<Rightarrow> Fail e
      | Inr (v, m1) \<Rightarrow>
          (case take_last argc m1 of
             Inl e \<Rightarrow> Fail e
           | Inr (args, m2) \<Rightarrow> assign_target t (\<lambda>old. vo_assign_by_indices E old args v) v keep m2))"

section \<open>Instructions\<close>

definition push_result :: "(wq_error_type + 'o val \<times> 'o vm) \<Rightarrow> 'o exec" where
  "push_result r = (case r of Inl e \<Rightarrow> Fail e | Inr (v, m) \<Rightarrow> Next (push v m))"

definition exec_load :: "'o value_ops \<Rightarrow> nat \<Rightarrow> load_inst \<Rightarrow> 'o vm \<Rightarrow> 'o exec" where
  "exec_load E idx l m = (case l of
     L_Var name \<Rightarrow> push_result (load_global E False idx name m)
   | L_VarExists name \<Rightarrow> Next (push (V_Bool (lookup_global_slot m name \<noteq> None)) m)
   | L_Capture i \<Rightarrow>
       push_result (case read_capture_target (unat i) m of Inl e \<Rightarrow> Inl e | Inr v \<Rightarrow> Inr (v, m))
   | L_Self \<Rightarrow>
       (case vm_active m of Some a \<Rightarrow> Next (push (ac_callable a) m) | None \<Rightarrow> Fail W_Vm)
   | L_Local i \<Rightarrow>
       push_result (case read_local_target (unat i) m of Inl e \<Rightarrow> Inl e | Inr v \<Rightarrow> Inr (v, m))
   | L_Unpack slot \<Rightarrow>
       (if vm_unpack_frames m \<noteq> [] \<and> slot < length (last (vm_unpack_frames m))
        then Next (push (last (vm_unpack_frames m) ! slot) m) else Fail W_Vm)
   | L_OwnedConst _ \<Rightarrow> Outside)"

definition exec_store :: "nat \<Rightarrow> store_inst \<Rightarrow> 'o vm \<Rightarrow> 'o exec" where
  "exec_store idx s m = (case s of
     S_Var name \<Rightarrow> store_var_impl idx name False m
   | S_VarKeep name \<Rightarrow> store_var_impl idx name True m
   | S_Local i \<Rightarrow> store_local_impl (unat i) False m
   | S_LocalKeep i \<Rightarrow> store_local_impl (unat i) True m
   | S_Capture i \<Rightarrow> store_capture_impl (unat i) False m
   | S_CaptureKeep i \<Rightarrow> store_capture_impl (unat i) True m)"

definition exec_index :: "'o value_ops \<Rightarrow> index_inst \<Rightarrow> 'o vm \<Rightarrow> 'o exec" where
  "exec_index E x m = (case x of
     X_Index \<Rightarrow>
       (case pop1_stack m of
          Inl e \<Rightarrow> Fail e
        | Inr (i, m1) \<Rightarrow>
            (case pop1_stack m1 of
               Inl e \<Rightarrow> Fail e
             | Inr (obj, m2) \<Rightarrow>
                 (case vo_index E obj i of Some v \<Rightarrow> Next (push v m2) | None \<Rightarrow> Fail W_Index)))
   | X_IndexMany argc \<Rightarrow>
       (case take_last argc m of
          Inl e \<Rightarrow> Fail e
        | Inr (args, m1) \<Rightarrow>
            (case pop1_stack m1 of
               Inl e \<Rightarrow> Fail e
             | Inr (obj, m2) \<Rightarrow>
                 (case (case args of [a] \<Rightarrow> vo_index E obj a | _ \<Rightarrow> vo_index_many E obj args) of
                    Some v \<Rightarrow> Next (push v m2) | None \<Rightarrow> Fail W_Index)))
   | X_AssignVar name \<Rightarrow> execute_single_index_assign E (ST_Var name) True m
   | X_AssignVarDrop name \<Rightarrow> execute_single_index_assign E (ST_Var name) False m
   | X_AssignLocal i \<Rightarrow> execute_single_index_assign E (ST_Local i) True m
   | X_AssignLocalDrop i \<Rightarrow> execute_single_index_assign E (ST_Local i) False m
   | X_AssignCapture i \<Rightarrow> execute_single_index_assign E (ST_Capture i) True m
   | X_AssignCaptureDrop i \<Rightarrow> execute_single_index_assign E (ST_Capture i) False m
   | X_ManyAssignVar name argc \<Rightarrow> execute_index_assign E (ST_Var name) argc True m
   | X_ManyAssignVarDrop name argc \<Rightarrow> execute_index_assign E (ST_Var name) argc False m
   | X_ManyAssignLocal i argc \<Rightarrow> execute_index_assign E (ST_Local i) argc True m
   | X_ManyAssignLocalDrop i argc \<Rightarrow> execute_index_assign E (ST_Local i) argc False m
   | X_ManyAssignCapture i argc \<Rightarrow> execute_index_assign E (ST_Capture i) argc True m
   | X_ManyAssignCaptureDrop i argc \<Rightarrow> execute_index_assign E (ST_Capture i) argc False m
   | _ \<Rightarrow> Outside)"

definition jump_to :: "nat \<Rightarrow> 'o vm \<Rightarrow> 'o vm" where
  "jump_to t m = m\<lparr>vm_pc := t\<rparr>"

definition jump_unless :: "nat \<Rightarrow> wq_error_type + bool \<times> 'o vm \<Rightarrow> 'o exec" where
  "jump_unless t r =
     (case r of Inl e \<Rightarrow> Fail e | Inr (b, m) \<Rightarrow> Next (if b then m else jump_to t m))"

definition bool_or_domain :: "'o val \<Rightarrow> 'o vm \<Rightarrow> wq_error_type + bool \<times> 'o vm" where
  "bool_or_domain v m =
     (case try_to_rust_bool v of Some b \<Rightarrow> Inr (b, m) | None \<Rightarrow> Inl W_Domain)"

definition eval_n_loop_condition ::
  "'o value_ops \<Rightarrow> 'o val \<Rightarrow> 'o val \<Rightarrow> 'o vm \<Rightarrow> wq_error_type + bool \<times> 'o vm" where
  "eval_n_loop_condition E index count m =
     (case (index, count) of
        (V_Int i, V_Int c) \<Rightarrow> Inr (sint i < sint c, m)
      | _ \<Rightarrow>
          (case vo_eval_binary E Bin_Lt index count of
             Inl e \<Rightarrow> Inl e | Inr v \<Rightarrow> bool_or_domain v m))"

definition n_loop_next :: "'o value_ops \<Rightarrow> 'o val \<Rightarrow> wq_error_type + 'o val" where
  "n_loop_next E snapshot =
     (case (case snapshot of V_Int k \<Rightarrow> checked (sint k + 1) | _ \<Rightarrow> None) of
        Some v \<Rightarrow> Inr v
      | None \<Rightarrow> vo_eval_binary E Bin_Add snapshot (V_Int 1))"

text \<open>\<open>n <= 0.0\<close> on the bits of a double: not a NaN, and a zero or negative.\<close>

definition f64_is_nan :: "f64 \<Rightarrow> bool" where
  "f64_is_nan x \<longleftrightarrow> \<not> f64_is_finite x \<and> take_bit 52 x \<noteq> 0"

definition f64_le_zero :: "f64 \<Rightarrow> bool" where
  "f64_le_zero x \<longleftrightarrow> \<not> f64_is_nan x \<and> (bit x 63 \<or> x = 0)"

definition jump_if_ge :: "'o value_ops \<Rightarrow> nat \<Rightarrow> 'o val \<times> 'o val \<Rightarrow> 'o vm \<Rightarrow> 'o exec" where
  "jump_if_ge E t lr m =
     (case lr of
        (V_Int a, V_Int b) \<Rightarrow> Next (if sint a \<ge> sint b then jump_to t m else m)
      | (left, right) \<Rightarrow>
          (case vo_eval_binary E Bin_Lt left right of
             Inl e \<Rightarrow> Fail e | Inr v \<Rightarrow> jump_unless t (bool_or_domain v m)))"

definition exec_jump :: "'o value_ops \<Rightarrow> nat \<Rightarrow> jump_inst \<Rightarrow> 'o vm \<Rightarrow> 'o exec" where
  "exec_jump E idx j m = (case j of
     J_Jump t \<Rightarrow> Next (jump_to t m)
   | J_IfFalse t \<Rightarrow>
       (case pop1_stack m of
          Inl e \<Rightarrow> Fail e | Inr (v, m1) \<Rightarrow> jump_unless t (bool_or_domain v m1))
   | J_NLoopEnter index count snapshot t \<Rightarrow>
       (case read_local_target (unat index) m of
          Inl e \<Rightarrow> Fail e
        | Inr i \<Rightarrow>
            (case read_local_target (unat count) m of
               Inl e \<Rightarrow> Fail e
             | Inr c \<Rightarrow>
                 (case eval_n_loop_condition E i c m of
                    Inl e \<Rightarrow> Fail e
                  | Inr (b, m1) \<Rightarrow>
                      if b then store_local_value (unat snapshot) i m1 else Next (jump_to t m1))))
   | J_NLoopNext snapshot index t \<Rightarrow>
       (case read_local_target (unat snapshot) m of
          Inl e \<Rightarrow> Fail e
        | Inr s \<Rightarrow>
            (case n_loop_next E s of
               Inl e \<Rightarrow> Fail e
             | Inr v \<Rightarrow>
                 (case store_local_value (unat index) v m of
                    Next m1 \<Rightarrow> Next (jump_to t m1) | r \<Rightarrow> r)))
   | J_IfGE t \<Rightarrow>
       (case pop2_stack m of Inl e \<Rightarrow> Fail e | Inr (lr, m1) \<Rightarrow> jump_if_ge E t lr m1)
   | J_IfLEZLocal i t \<Rightarrow>
       (case local_slot m (unat i) of
          None \<Rightarrow> Fail W_Vm
        | Some s \<Rightarrow>
            (case slot_read m s of
               V_Int n \<Rightarrow> Next (if sint n \<le> 0 then jump_to t m else m)
             | V_Float x \<Rightarrow> Next (if f64_le_zero x then jump_to t m else m)
             | _ \<Rightarrow>
                 jump_unless t (eval_cmp_branch_condition E idx Bin_Gt (O_Local i) (O_Const (V_Int 0)) m)))
   | J_IfNamedProvided i b t \<Rightarrow>
       (case local_slot m (unat i) of
          None \<Rightarrow> Fail W_Vm
        | Some s \<Rightarrow>
            Next (case slot_read m s of
                    V_Int flags \<Rightarrow> if bit flags (unat b mod 64) then jump_to t m else m
                  | _ \<Rightarrow> m))
   | J_BoolAndLazy t \<Rightarrow>
       Next (if vm_stack m \<noteq> [] \<and> try_to_rust_bool (last (vm_stack m)) = Some False
             then jump_to t m else m)
   | J_BoolOrLazy t \<Rightarrow>
       Next (if vm_stack m \<noteq> [] \<and> try_to_rust_bool (last (vm_stack m)) = Some True
             then jump_to t m else m))"

definition exec_misc :: "'o value_ops \<Rightarrow> misc_inst \<Rightarrow> 'o vm \<Rightarrow> 'o exec" where
  "exec_misc E p m = (case p of
     P_EndUnpack \<Rightarrow>
       (if vm_unpack_frames m = [] then Fail W_Vm
        else Next (m\<lparr>vm_unpack_frames := butlast (vm_unpack_frames m)\<rparr>))
   | P_Cat n \<Rightarrow>
       (case take_last n m of Inl e \<Rightarrow> Fail e | Inr (vs, m1) \<Rightarrow> Next (push (vo_cat_many E vs) m1))
   | P_MakeList n \<Rightarrow>
       (case take_last n m of Inl e \<Rightarrow> Fail e | Inr (vs, m1) \<Rightarrow> Next (push (vo_from_items E vs) m1))
   | P_BoolCombine op \<Rightarrow>
       (case pop2_stack m of
          Inl e \<Rightarrow> Fail e
        | Inr ((l, r), m1) \<Rightarrow>
            (case vo_eval_bool_op E op l r of Inl e \<Rightarrow> Fail e | Inr v \<Rightarrow> Next (push v m1)))
   | P_Pop \<Rightarrow> Next (m\<lparr>vm_stack := butlast (vm_stack m)\<rparr>)
   | P_Return \<Rightarrow> Returned (if vm_stack m = [] then empty_list else last (vm_stack m))
   | P_Pause \<Rightarrow> Next m
   | _ \<Rightarrow> Outside)"

definition exec_instruction :: "'o value_ops \<Rightarrow> nat \<Rightarrow> 'o instruction \<Rightarrow> 'o vm \<Rightarrow> 'o exec" where
  "exec_instruction E idx ins m = (case ins of
     I_LoadConst v \<Rightarrow> Next (push v m)
   | I_LoadCallTarget opd \<Rightarrow> push_result (resolve_operand E idx opd False m)
   | I_Load l \<Rightarrow> exec_load E idx l m
   | I_Store s \<Rightarrow> exec_store idx s m
   | I_BinaryOp op left right \<Rightarrow> push_result (eval_operands E idx op left right m)
   | I_UnaryOp op opd \<Rightarrow>
       (case resolve_operand E idx opd False m of
          Inl e \<Rightarrow> Fail e
        | Inr (v, m1) \<Rightarrow>
            (case vo_eval_unary E op v of Inl e \<Rightarrow> Fail e | Inr u \<Rightarrow> Next (push u m1)))
   | I_JumpIfCmpFalse op left right t \<Rightarrow>
       jump_unless t (eval_cmp_branch_condition E idx op left right m)
   | I_Branch j \<Rightarrow> exec_jump E idx j m
   | I_Ix x \<Rightarrow> exec_index E x m
   | I_Misc p \<Rightarrow> exec_misc E p m
   | _ \<Rightarrow> Outside)"

text \<open>Entering code: at its first instruction, with empty caches.\<close>

definition enter_code :: "'o instruction list \<Rightarrow> 'o vm \<Rightarrow> 'o vm" where
  "enter_code code m = m\<lparr>vm_pc := 0,
     vm_cache := replicate (length code) \<lparr>ic_slot = None, ic_slot_b = None\<rparr>\<rparr>"

text \<open>One round of \<open>interpret_inner\<close>: past the last instruction the top of the stack is returned.\<close>

definition vm_step :: "'o value_ops \<Rightarrow> 'o instruction list \<Rightarrow> 'o vm \<Rightarrow> 'o exec" where
  "vm_step E code m =
     (if vm_pc m < length code
      then exec_instruction E (vm_pc m) (code ! vm_pc m) (m\<lparr>vm_pc := vm_pc m + 1\<rparr>)
      else Returned (if vm_stack m = [] then empty_list else last (vm_stack m)))"

text \<open>A run of at most \<open>fuel\<close> rounds; \<open>None\<close> when it is not over by then.\<close>

fun vm_run :: "'o value_ops \<Rightarrow> 'o instruction list \<Rightarrow> nat \<Rightarrow> 'o vm \<Rightarrow> 'o exec option" where
  "vm_run E code 0 m = None"
| "vm_run E code (Suc fuel) m =
     (case vm_step E code m of Next m' \<Rightarrow> vm_run E code fuel m' | r \<Rightarrow> Some r)"

text \<open>Value operations that decline everything and a fresh machine, for runs on concrete code.\<close>

definition int_core :: "unit value_ops" where
  "int_core = \<lparr>vo_eval_binary = (\<lambda>op l r. Inl W_Domain), vo_eval_unary = (\<lambda>op v. Inl W_Domain),
     vo_eval_bool_op = (\<lambda>op l r. Inl W_Domain), vo_f64_div = (\<lambda>l r. 0), vo_from_items = V_List,
     vo_cat_many = V_List, vo_index = (\<lambda>v k. None), vo_index_many = (\<lambda>v ks. None),
     vo_assign_by_index = (\<lambda>v k x. (v, False)), vo_assign_by_indices = (\<lambda>v ks x. (v, False)),
     vo_builtin = (\<lambda>name. None)\<rparr>"

definition fresh_vm :: "'o slot list \<Rightarrow> 'o instruction list \<Rightarrow> 'o vm" where
  "fresh_vm locals code = \<lparr>vm_pc = 0, vm_stack = [],
     vm_active = Some \<lparr>ac_locals = locals, ac_captures = [], ac_callable = empty_list\<rparr>,
     vm_cells = [], vm_global_map = [], vm_global_slots = [],
     vm_cache = replicate (length code) \<lparr>ic_slot = None, ic_slot_b = None\<rparr>, vm_unpack_frames = []\<rparr>"

end
