(* ===== verification/Vm_Cache.thy ===== *)
theory Vm_Cache
  imports Vm
begin

text \<open>
  What an instruction does does not depend on the program counter it runs at nor on the contents of
  valid inline caches: two states that agree on everything else step to such states again. A cache
  entry is valid when it holds the slot of the name that its instruction looks up.
\<close>

section \<open>Valid caches\<close>

definition operand_name :: "'o operand \<Rightarrow> ustr option" where
  "operand_name opd = (case opd of O_Var name \<Rightarrow> Some name | _ \<Rightarrow> None)"

text \<open>The global name that an instruction caches in its first or second entry.\<close>

definition cache_name :: "bool \<Rightarrow> 'o instruction \<Rightarrow> ustr option" where
  "cache_name second ins = (case ins of
     I_Load l \<Rightarrow> (case l of L_Var name \<Rightarrow> if second then None else Some name | _ \<Rightarrow> None)
   | I_Store s \<Rightarrow>
       (case s of S_Var name \<Rightarrow> if second then None else Some name
        | S_VarKeep name \<Rightarrow> if second then None else Some name | _ \<Rightarrow> None)
   | I_LoadCallTarget opd \<Rightarrow> if second then None else operand_name opd
   | I_UnaryOp _ opd \<Rightarrow> if second then None else operand_name opd
   | I_BinaryOp _ left right \<Rightarrow> operand_name (if second then right else left)
   | I_JumpIfCmpFalse _ left right _ \<Rightarrow> operand_name (if second then right else left)
   | _ \<Rightarrow> None)"

definition globals_ok :: "'o vm \<Rightarrow> bool" where
  "globals_ok m \<longleftrightarrow> (\<forall>(name, s) \<in> set (vm_global_map m). s < length (vm_global_slots m))"

definition entry_ok :: "'o vm \<Rightarrow> 'o instruction \<Rightarrow> nat \<Rightarrow> bool" where
  "entry_ok m ins idx \<longleftrightarrow> idx < length (vm_cache m) \<and>
     (\<forall>second name s. cache_name second ins = Some name \<longrightarrow> cached_slot second idx m = Some s \<longrightarrow>
        lookup_global_slot m name = Some s)"

definition caches_ok :: "'o instruction list \<Rightarrow> 'o vm \<Rightarrow> bool" where
  "caches_ok code m \<longleftrightarrow> globals_ok m \<and> length (vm_cache m) = length code \<and>
     (\<forall>idx < length code. entry_ok m (code ! idx) idx)"

text \<open>A state on the way of instruction \<open>ins\<close> at \<open>idx\<close>, started in \<open>m0\<close>: only that cache entry
  changes, names keep their slots.\<close>

definition follows :: "nat \<Rightarrow> 'o instruction \<Rightarrow> 'o vm \<Rightarrow> 'o vm \<Rightarrow> bool" where
  "follows idx ins m0 m \<longleftrightarrow> globals_ok m \<and> entry_ok m ins idx \<and>
     length (vm_cache m) = length (vm_cache m0) \<and>
     (\<forall>j. j \<noteq> idx \<longrightarrow> vm_cache m ! j = vm_cache m0 ! j) \<and>
     (\<forall>name s. lookup_global_slot m0 name = Some s \<longrightarrow> lookup_global_slot m name = Some s)"

definition same_core :: "'o vm \<Rightarrow> 'o vm \<Rightarrow> bool" where
  "same_core m m' \<longleftrightarrow> vm_stack m' = vm_stack m \<and> vm_active m' = vm_active m \<and>
     vm_cells m' = vm_cells m \<and> vm_global_map m' = vm_global_map m \<and>
     vm_global_slots m' = vm_global_slots m \<and> vm_unpack_frames m' = vm_unpack_frames m"

text \<open>Two machines that run the same instruction side by side, at \<open>idx\<close> and \<open>idx'\<close>, with program
  counters related by \<open>P\<close>.\<close>

definition paired ::
  "(nat \<times> nat) set \<Rightarrow> nat \<Rightarrow> nat \<Rightarrow> 'o instruction \<Rightarrow> 'o vm \<Rightarrow> 'o vm \<Rightarrow> 'o vm \<Rightarrow> 'o vm \<Rightarrow> bool" where
  "paired P idx idx' ins m0 m0' m m' \<longleftrightarrow> same_core m m' \<and>
     follows idx ins m0 m \<and> follows idx' ins m0' m' \<and>
     (vm_pc m, vm_pc m') \<in> P"

fun rel_res :: "('o vm \<Rightarrow> 'o vm \<Rightarrow> bool) \<Rightarrow> (wq_error_type + 'a \<times> 'o vm) \<Rightarrow> (wq_error_type + 'a \<times> 'o vm) \<Rightarrow> bool" where
  "rel_res K (Inl e) (Inl e') = (e = e')"
| "rel_res K (Inr (v, m)) (Inr (v', m')) = (v = v' \<and> K m m')"
| "rel_res K _ _ = False"

named_theorems core_defs \<open>operations that read and write the state, unfolded\<close>

declare push_def [core_defs] pop1_stack_def [core_defs] pop2_stack_def [core_defs]
  last_clone_stack_def [core_defs] take_last_def [core_defs] slot_read_def [core_defs]
  local_slot_def [core_defs] capture_cell_def [core_defs] write_cell_def [core_defs]
  write_local_def [core_defs] read_local_target_def [core_defs] read_capture_target_def [core_defs]
  global_slot_value_def [core_defs] set_global_def [core_defs] Let_def [core_defs]

text \<open>An update of the fields that caches do not read keeps machines paired.\<close>

lemma paired_update:
  assumes "paired P idx idx' ins m0 m0' m m'"
  shows "paired P idx idx' ins m0 m0' (m\<lparr>vm_stack := s\<rparr>) (m'\<lparr>vm_stack := s\<rparr>)"
    "paired P idx idx' ins m0 m0' (m\<lparr>vm_active := a\<rparr>) (m'\<lparr>vm_active := a\<rparr>)"
    "paired P idx idx' ins m0 m0' (m\<lparr>vm_cells := c\<rparr>) (m'\<lparr>vm_cells := c\<rparr>)"
    "paired P idx idx' ins m0 m0' (m\<lparr>vm_unpack_frames := u\<rparr>) (m'\<lparr>vm_unpack_frames := u\<rparr>)"
    "length g = length (vm_global_slots m) \<Longrightarrow>
     paired P idx idx' ins m0 m0' (m\<lparr>vm_global_slots := g\<rparr>) (m'\<lparr>vm_global_slots := g\<rparr>)"
  using assms
  by (auto simp: paired_def same_core_def follows_def globals_ok_def entry_ok_def cached_slot_def
      lookup_global_slot_def)

lemma paired_fields:
  assumes "paired P idx idx' ins m0 m0' m m'"
  shows "vm_stack m' = vm_stack m" "vm_active m' = vm_active m" "vm_cells m' = vm_cells m"
    "vm_global_map m' = vm_global_map m" "vm_global_slots m' = vm_global_slots m"
    "vm_unpack_frames m' = vm_unpack_frames m" "lookup_global_slot m' = lookup_global_slot m"
  using assms by (auto simp: paired_def same_core_def lookup_global_slot_def fun_eq_iff)

lemma paired_cache:
  assumes "paired P idx idx' ins m0 m0' m m'" "cache_name second ins = Some name"
    "lookup_global_slot m name = Some s"
  shows "paired P idx idx' ins m0 m0' (cache_slot second idx s m) m'"
    "paired P idx idx' ins m0 m0' m (cache_slot second idx' s m')"
    "paired P idx idx' ins m0 m0' (cache_slot second idx s m) (cache_slot second idx' s m')"
  using assms
  by (auto simp: paired_def same_core_def follows_def globals_ok_def entry_ok_def cached_slot_def
      lookup_global_slot_def cache_slot_def)

lemma paired_jump:
  "paired P idx idx' ins m0 m0' m m' \<Longrightarrow> (t, t') \<in> P \<Longrightarrow>
   paired P idx idx' ins m0 m0' (jump_to t m) (jump_to t' m')"
  by (auto simp: paired_def same_core_def follows_def globals_ok_def entry_ok_def cached_slot_def
      lookup_global_slot_def jump_to_def)

lemma paired_entry:
  assumes "paired P idx idx' ins m0 m0' m m'" "cache_name second ins = Some name"
  shows "cached_slot second idx m = Some s \<Longrightarrow> lookup_global_slot m name = Some s"
    "cached_slot second idx' m' = Some s \<Longrightarrow> lookup_global_slot m name = Some s"
    "lookup_global_slot m name = Some s \<Longrightarrow> s < length (vm_global_slots m)"
proof -
  have "entry_ok m ins idx" "entry_ok m' ins idx'" "globals_ok m"
    using assms(1) by (auto simp: paired_def follows_def)
  then show "cached_slot second idx m = Some s \<Longrightarrow> lookup_global_slot m name = Some s"
    "cached_slot second idx' m' = Some s \<Longrightarrow> lookup_global_slot m name = Some s"
    "lookup_global_slot m name = Some s \<Longrightarrow> s < length (vm_global_slots m)"
    using assms(2) paired_fields(7) [OF assms(1)]
    by (auto simp: entry_ok_def globals_ok_def lookup_global_slot_def dest: map_of_SomeD)
qed

section \<open>Operations side by side\<close>

lemma paired_reads:
  assumes K: "paired P idx idx' ins m0 m0' m m'"
  shows "slot_read m' = slot_read m" "local_slot m' = local_slot m" "capture_cell m' = capture_cell m"
    "read_local_target i m' = read_local_target i m" "read_capture_target i m' = read_capture_target i m"
    "global_slot_value m' = global_slot_value m" "read_target t m' = read_target t m"
proof -
  show reads: "slot_read m' = slot_read m" "local_slot m' = local_slot m"
      "capture_cell m' = capture_cell m" "global_slot_value m' = global_slot_value m"
    by (simp_all add: fun_eq_iff slot_read_def local_slot_def capture_cell_def global_slot_value_def
        paired_fields [OF K] split: slot.split)
  show targets: "read_local_target i m' = read_local_target i m"
      "read_capture_target i m' = read_capture_target i m" for i
    unfolding read_local_target_def read_capture_target_def reads paired_fields [OF K] by (rule refl)+
  show "read_target t m' = read_target t m"
    unfolding read_target_def targets reads paired_fields [OF K] by (rule refl)
qed

lemma load_global_paired:
  assumes K: "paired P idx idx' ins m0 m0' m m'" and name: "cache_name second ins = Some name"
  shows "rel_res (paired P idx idx' ins m0 m0') (load_global E second idx name m)
    (load_global E second idx' name m')"
proof (cases "lookup_global_slot m name")
  case None
  then have "cached_slot second idx m = None" "cached_slot second idx' m' = None"
    using paired_entry(1,2) [OF K name] by fastforce+
  with None K show ?thesis
    by (auto simp: load_global_def paired_fields [OF K] split: option.split)
next
  case (Some s)
  note slot = paired_entry(1,2) [OF K name] paired_entry(3) [OF K name Some]
  have "cached_slot second idx m = None \<or> cached_slot second idx m = Some s"
    "cached_slot second idx' m' = None \<or> cached_slot second idx' m' = Some s"
    using slot(1,2) Some by (metis option.exhaust option.inject)+
  then show ?thesis
    using Some slot(3) K paired_cache [OF K name Some]
    by (auto simp: load_global_def global_slot_value_def paired_fields [OF K])
qed

lemma pop_paired:
  assumes K: "paired P idx idx' ins m0 m0' m m'"
  shows "rel_res (paired P idx idx' ins m0 m0') (pop1_stack m) (pop1_stack m')"
    "rel_res (paired P idx idx' ins m0 m0') (pop2_stack m) (pop2_stack m')"
    "rel_res (paired P idx idx' ins m0 m0') (take_last n m) (take_last n m')"
    "rel_res (paired P idx idx' ins m0 m0') (store_value keep m) (store_value keep m')"
  using K by (simp_all add: core_defs store_value_def paired_fields [OF K] paired_update)

lemma resolve_operand_paired:
  assumes K: "paired P idx idx' ins m0 m0' m m'"
    and name: "\<forall>name. opd = O_Var name \<longrightarrow> cache_name second ins = Some name"
  shows "rel_res (paired P idx idx' ins m0 m0') (resolve_operand E idx opd second m)
    (resolve_operand E idx' opd second m')"
  using K name pop_paired(1) [OF K] load_global_paired [OF K, of second]
  by (cases opd) (auto simp: resolve_operand_def paired_fields [OF K] paired_reads [OF K]
      split: option.split sum.split)

fun rel_opt :: "('o vm \<Rightarrow> 'o vm \<Rightarrow> bool) \<Rightarrow> ('a \<times> 'o vm) option \<Rightarrow> ('a \<times> 'o vm) option \<Rightarrow> bool" where
  "rel_opt K None None = True"
| "rel_opt K (Some (v, m)) (Some (v', m')) = (v = v' \<and> K m m')"
| "rel_opt K _ _ = False"

lemma int_operand_paired:
  assumes K: "paired P idx idx' ins m0 m0' m m'"
  shows "int_operand m' opd k = int_operand m opd k"
  unfolding int_operand_def paired_fields [OF K] paired_reads [OF K] by (rule refl)

lemma with_int_operands_paired:
  assumes K: "paired P idx idx' ins m0 m0' m m'"
  shows "rel_opt (paired P idx idx' ins m0 m0') (with_int_operands f left right m)
    (with_int_operands f left right m')"
proof -
  have opt: "rel_opt (paired P idx idx' ins m0 m0') (map_option (\<lambda>x. (x, a)) y) (map_option (\<lambda>x. (x, b)) y)"
    if "paired P idx idx' ins m0 m0' a b" for a b y
    using that by (cases y) auto
  show ?thesis
    unfolding with_int_operands_def Let_def int_operand_paired [OF K] paired_fields [OF K]
    by (auto simp: opt paired_update [OF K] K split: option.split)
qed

fun rel_exec :: "('o vm \<Rightarrow> 'o vm \<Rightarrow> bool) \<Rightarrow> 'o exec \<Rightarrow> 'o exec \<Rightarrow> bool" where
  "rel_exec K (Next m) (Next m') = K m m'"
| "rel_exec K (Fail e) (Fail e') = (e = e')"
| "rel_exec K (Returned v) (Returned v') = (v = v')"
| "rel_exec K Outside Outside = True"
| "rel_exec K _ _ = False"

lemma rel_exec_res:
  assumes "rel_res K r r'" "\<And>v m m'. K m m' \<Longrightarrow> rel_exec K2 (f v m) (f' v m')"
  shows "rel_exec K2 (case r of Inl e \<Rightarrow> Fail e | Inr (v, m) \<Rightarrow> f v m)
    (case r' of Inl e \<Rightarrow> Fail e | Inr (v, m) \<Rightarrow> f' v m)"
  using assms by (cases "(K, r, r')" rule: rel_res.cases) auto

lemma eval_operands_paired:
  assumes K: "paired P idx idx' ins m0 m0' m m'"
    and left: "\<forall>name. left = O_Var name \<longrightarrow> cache_name False ins = Some name"
    and right: "\<forall>name. right = O_Var name \<longrightarrow> cache_name True ins = Some name"
  shows "rel_res (paired P idx idx' ins m0 m0') (eval_operands E idx op left right m)
    (eval_operands E idx' op left right m')"
proof -
  let ?K = "paired P idx idx' ins m0 m0'"
  have fast: "rel_opt ?K (try_eval_int_binary_operands E op left right m)
      (try_eval_int_binary_operands E op left right m')"
    unfolding try_eval_int_binary_operands_def by (rule with_int_operands_paired [OF K])
  have slow: "rel_res ?K
      (case resolve_operand E idx left False m1 of Inl e \<Rightarrow> Inl e
       | Inr (l, m2) \<Rightarrow> case vo_eval_binary E op l r of Inl e \<Rightarrow> Inl e | Inr v \<Rightarrow> Inr (v, m2))
      (case resolve_operand E idx' left False m1' of Inl e \<Rightarrow> Inl e
       | Inr (l, m2) \<Rightarrow> case vo_eval_binary E op l r of Inl e \<Rightarrow> Inl e | Inr v \<Rightarrow> Inr (v, m2))"
    if "?K m1 m1'" for m1 m1' r
    using resolve_operand_paired [OF that left, of E]
    by (cases "(?K, resolve_operand E idx left False m1, resolve_operand E idx' left False m1')"
        rule: rel_res.cases) (auto split: sum.split)
  show ?thesis
    using fast resolve_operand_paired [OF K right, of E] slow
    by (cases "(?K, try_eval_int_binary_operands E op left right m,
          try_eval_int_binary_operands E op left right m')" rule: rel_opt.cases;
        cases "(?K, resolve_operand E idx right True m, resolve_operand E idx' right True m')"
          rule: rel_res.cases)
      (auto simp: eval_operands_def)
qed

lemma bool_or_domain_paired:
  assumes "K m m'" shows "rel_res K (bool_or_domain v m) (bool_or_domain v m')"
  using assms by (auto simp: bool_or_domain_def split: option.split)

lemma eval_cmp_branch_paired:
  assumes K: "paired P idx idx' ins m0 m0' m m'"
    and left: "\<forall>name. left = O_Var name \<longrightarrow> cache_name False ins = Some name"
    and right: "\<forall>name. right = O_Var name \<longrightarrow> cache_name True ins = Some name"
  shows "rel_res (paired P idx idx' ins m0 m0') (eval_cmp_branch_condition E idx op left right m)
    (eval_cmp_branch_condition E idx' op left right m')"
proof -
  let ?K = "paired P idx idx' ins m0 m0'"
  have fast: "rel_opt ?K (try_eval_int_cmp_branch op left right m) (try_eval_int_cmp_branch op left right m')"
    unfolding try_eval_int_cmp_branch_def by (rule with_int_operands_paired [OF K])
  show ?thesis
    using fast eval_operands_paired [OF K left right, of E op]
    by (cases "(?K, try_eval_int_cmp_branch op left right m, try_eval_int_cmp_branch op left right m')"
          rule: rel_opt.cases;
        cases "(?K, eval_operands E idx op left right m, eval_operands E idx' op left right m')"
          rule: rel_res.cases)
      (auto simp: eval_cmp_branch_condition_def split: option.split)
qed

lemma jump_unless_paired:
  assumes "rel_res (paired P idx idx' ins m0 m0') r r'" "(t, t') \<in> P"
  shows "rel_exec (paired P idx idx' ins m0 m0') (jump_unless t r) (jump_unless t' r')"
  unfolding jump_unless_def using assms(2)
  by (intro rel_exec_res [OF assms(1)]) (auto intro: paired_jump)

lemma push_paired:
  assumes K: "paired P idx idx' ins m0 m0' m m'"
  shows "paired P idx idx' ins m0 m0' (push v m) (push v m')"
  using K by (simp add: push_def paired_fields [OF K] paired_update)

lemma write_local_paired:
  assumes K: "paired P idx idx' ins m0 m0' m m'"
  shows "paired P idx idx' ins m0 m0' (write_cell a v m) (write_cell a v m')"
    "paired P idx idx' ins m0 m0' (write_local i s v m) (write_local i s v m')"
  using K by (auto simp: write_cell_def write_local_def paired_fields [OF K] paired_update split: slot.split)

lemma push_result_paired:
  assumes "rel_res (paired P idx idx' ins m0 m0') r r'"
  shows "rel_exec (paired P idx idx' ins m0 m0') (push_result r) (push_result r')"
  unfolding push_result_def by (intro rel_exec_res [OF assms]) (auto intro: push_paired)

lemma store_local_paired:
  assumes K: "paired P idx idx' ins m0 m0' m m'"
  shows "rel_exec (paired P idx idx' ins m0 m0') (store_local_value i v m) (store_local_value i v m')"
    "rel_exec (paired P idx idx' ins m0 m0') (store_local_impl i keep m) (store_local_impl i keep m')"
proof -
  have store: "rel_exec (paired P idx idx' ins m0 m0') (store_local_value i v m) (store_local_value i v m')"
    if "paired P idx idx' ins m0 m0' m m'" for v m m'
    unfolding store_local_value_def paired_reads [OF that]
    using write_local_paired(2) [OF that] by (auto split: option.split)
  show "rel_exec (paired P idx idx' ins m0 m0') (store_local_value i v m) (store_local_value i v m')"
    by (rule store [OF K])
  show "rel_exec (paired P idx idx' ins m0 m0') (store_local_impl i keep m) (store_local_impl i keep m')"
    unfolding store_local_impl_def by (rule rel_exec_res [OF pop_paired(4) [OF K]]) (rule store)
qed

lemma store_capture_paired:
  assumes K: "paired P idx idx' ins m0 m0' m m'"
  shows "rel_exec (paired P idx idx' ins m0 m0') (store_capture_impl i keep m) (store_capture_impl i keep m')"
  unfolding store_capture_impl_def
proof (rule rel_exec_res [OF pop_paired(4) [OF K]])
  fix v m1 m1' assume K1: "paired P idx idx' ins m0 m0' m1 m1'"
  show "rel_exec (paired P idx idx' ins m0 m0')
      (case capture_cell m1 i of None \<Rightarrow> Fail W_Vm | Some a \<Rightarrow> Next (write_cell a v m1))
      (case capture_cell m1' i of None \<Rightarrow> Fail W_Vm | Some a \<Rightarrow> Next (write_cell a v m1'))"
    unfolding paired_reads [OF K1] using write_local_paired(1) [OF K1] by (auto split: option.split)
qed

text \<open>Assigning a global: both ways, through a cached slot or by name, do the same.\<close>

definition assign_global :: "ustr \<Rightarrow> 'o val \<Rightarrow> 'o vm \<Rightarrow> 'o vm" where
  "assign_global name v m = snd (assign_global_and_slot name v m)"

lemma assign_global_fields:
  "vm_stack (assign_global name v m) = vm_stack m" "vm_active (assign_global name v m) = vm_active m"
  "vm_cells (assign_global name v m) = vm_cells m" "vm_pc (assign_global name v m) = vm_pc m"
  "vm_unpack_frames (assign_global name v m) = vm_unpack_frames m"
  "vm_cache (assign_global name v m) = vm_cache m"
  by (auto simp: assign_global_def assign_global_and_slot_def set_global_def Let_def split: option.split)

lemma assign_global_lookup:
  "lookup_global_slot (assign_global name v m) x =
     (if x = name then Some (fst (assign_global_and_slot name v m)) else lookup_global_slot m x)"
  "lookup_global_slot m name = Some s \<Longrightarrow> fst (assign_global_and_slot name v m) = s"
  by (auto simp: assign_global_def assign_global_and_slot_def set_global_def Let_def
      lookup_global_slot_def split: option.split)

lemma assign_global_ok: "globals_ok m \<Longrightarrow> globals_ok (assign_global name v m)"
  by (fastforce simp: globals_ok_def assign_global_def assign_global_and_slot_def set_global_def Let_def
      split: option.split)

lemma assign_global_core:
  assumes "same_core m m'"
  shows "same_core (assign_global name v m) (assign_global name v m')"
    "fst (assign_global_and_slot name v m') = fst (assign_global_and_slot name v m)"
proof -
  have "lookup_global_slot m' name = lookup_global_slot m name"
    using assms by (simp add: same_core_def lookup_global_slot_def)
  with assms show "same_core (assign_global name v m) (assign_global name v m')"
    "fst (assign_global_and_slot name v m') = fst (assign_global_and_slot name v m)"
    by (cases "lookup_global_slot m name";
        simp add: same_core_def assign_global_def assign_global_and_slot_def set_global_def Let_def)+
qed

lemma assign_global_follows:
  assumes "follows idx ins m0 m" shows "follows idx ins m0 (assign_global name v m)"
proof -
  have "lookup_global_slot m x = Some s \<Longrightarrow> lookup_global_slot (assign_global name v m) x = Some s" for x s
    by (auto simp: assign_global_lookup)
  with assms show ?thesis
    by (simp add: follows_def assign_global_ok assign_global_fields entry_ok_def cached_slot_def)
qed

lemma assign_global_paired:
  assumes K: "paired P idx idx' ins m0 m0' m m'"
  shows "paired P idx idx' ins m0 m0' (assign_global name v m) (assign_global name v m')"
  using K by (simp add: paired_def assign_global_follows assign_global_core assign_global_fields)

lemma store_var_step:
  assumes K: "paired P idx idx' ins m0 m0' m m'" and name: "cache_name False ins = Some name"
  shows "\<exists>m1 m1'. paired P idx idx' ins m0 m0' m1 m1' \<and>
    (case cached_slot False idx m of
       Some s \<Rightarrow> Next (assign_global_at_slot name s v m)
     | None \<Rightarrow> (case assign_global_and_slot name v m of (s, m2) \<Rightarrow> Next (cache_slot False idx s m2))) = Next m1 \<and>
    (case cached_slot False idx' m' of
       Some s \<Rightarrow> Next (assign_global_at_slot name s v m')
     | None \<Rightarrow> (case assign_global_and_slot name v m' of (s, m2) \<Rightarrow> Next (cache_slot False idx' s m2))) = Next m1'"
proof -
  let ?g = "assign_global name v m" and ?g' = "assign_global name v m'"
  define s where "s = fst (assign_global_and_slot name v m)"
  have s: "assign_global_and_slot name v m = (s, ?g)" "assign_global_and_slot name v m' = (s, ?g')"
    using assign_global_core(2) [of m m' name v] K by (auto simp: s_def assign_global_def paired_def prod_eq_iff)
  have K1: "paired P idx idx' ins m0 m0' ?g ?g'" by (rule assign_global_paired [OF K])
  have "lookup_global_slot ?g name = Some s" by (simp add: assign_global_lookup s_def)
  note caches = K1 paired_cache [OF K1 name this]
  have at: "assign_global_at_slot name t v n = assign_global name v n" if "lookup_global_slot n name = Some t" for t n
    using that by (simp add: assign_global_at_slot_def assign_global_def assign_global_and_slot_def
        lookup_global_slot_def set_global_def Let_def)
  have hit: "cached_slot False idx m = Some t \<Longrightarrow> assign_global_at_slot name t v m = ?g"
    "cached_slot False idx' m' = Some t \<Longrightarrow> assign_global_at_slot name t v m' = ?g'" for t
    using paired_entry(1,2) [OF K name] paired_fields(7) [OF K] by (simp_all add: at)
  show ?thesis
    using caches s hit by (cases "cached_slot False idx m"; cases "cached_slot False idx' m'") auto
qed

lemma store_var_paired:
  assumes K: "paired P idx idx' ins m0 m0' m m'" and name: "cache_name False ins = Some name"
  shows "rel_exec (paired P idx idx' ins m0 m0') (store_var_impl idx name keep m) (store_var_impl idx' name keep m')"
  unfolding store_var_impl_def
proof (rule rel_exec_res [OF pop_paired(4) [OF K]])
  fix v m1 m1' assume "paired P idx idx' ins m0 m0' m1 m1'"
  from store_var_step [OF this name, of v]
  show "rel_exec (paired P idx idx' ins m0 m0')
     (case cached_slot False idx m1 of
        None \<Rightarrow> (case assign_global_and_slot name v m1 of (s, m2) \<Rightarrow> Next (cache_slot False idx s m2))
      | Some s \<Rightarrow> Next (assign_global_at_slot name s v m1))
     (case cached_slot False idx' m1' of
        None \<Rightarrow> (case assign_global_and_slot name v m1' of (s, m2) \<Rightarrow> Next (cache_slot False idx' s m2))
      | Some s \<Rightarrow> Next (assign_global_at_slot name s v m1'))"
    by auto
qed

section \<open>Instructions side by side\<close>

lemma write_target_paired:
  assumes K: "paired P idx idx' ins m0 m0' m m'"
  shows "paired P idx idx' ins m0 m0' (write_target t v m) (write_target t v m')"
  unfolding write_target_def paired_reads [OF K] paired_fields [OF K]
  using K write_local_paired [OF K]
  by (auto simp: set_global_def paired_fields [OF K] paired_update split: store_target.split option.split)

lemma assign_target_paired:
  assumes K: "paired P idx idx' ins m0 m0' m m'"
  shows "rel_exec (paired P idx idx' ins m0 m0') (assign_target t f v keep m) (assign_target t f v keep m')"
  unfolding assign_target_def paired_reads [OF K]
  using write_target_paired [OF K] push_paired [OF write_target_paired [OF K]]
  by (auto split: sum.split prod.split)

lemma index_assign_paired:
  assumes K: "paired P idx idx' ins m0 m0' m m'"
  shows "rel_exec (paired P idx idx' ins m0 m0') (execute_single_index_assign E t keep m)
      (execute_single_index_assign E t keep m')"
    "rel_exec (paired P idx idx' ins m0 m0') (execute_index_assign E t argc keep m)
      (execute_index_assign E t argc keep m')"
  unfolding execute_single_index_assign_def execute_index_assign_def
  by (intro rel_exec_res [OF pop_paired(1) [OF K]] rel_exec_res [OF pop_paired(1)]
      rel_exec_res [OF pop_paired(3)] assign_target_paired; assumption)+

lemma exec_index_paired:
  assumes K: "paired P idx idx' ins m0 m0' m m'"
  shows "rel_exec (paired P idx idx' ins m0 m0') (exec_index E x m) (exec_index E x m')"
proof -
  have one: "rel_exec (paired P idx idx' ins m0 m0') (exec_index E X_Index m) (exec_index E X_Index m')"
    unfolding exec_index_def index_inst.case
    by (intro rel_exec_res [OF pop_paired(1) [OF K]] rel_exec_res [OF pop_paired(1)], assumption)
      (auto intro: push_paired split: option.split)
  have many: "rel_exec (paired P idx idx' ins m0 m0') (exec_index E (X_IndexMany n) m)
      (exec_index E (X_IndexMany n) m')" for n
    unfolding exec_index_def index_inst.case
    by (intro rel_exec_res [OF pop_paired(3) [OF K]] rel_exec_res [OF pop_paired(1)], assumption)
      (auto intro: push_paired split: option.split)
  show ?thesis
    using one many index_assign_paired [OF K, of E] by (cases x) (auto simp: exec_index_def)
qed

lemma exec_load_paired:
  assumes K: "paired P idx idx' ins m0 m0' m m'" and "ins = I_Load l"
  shows "rel_exec (paired P idx idx' ins m0 m0') (exec_load E idx l m) (exec_load E idx' l m')"
proof (cases l)
  case (L_Var name)
  then have "cache_name False ins = Some name" using assms(2) by (simp add: cache_name_def)
  then show ?thesis
    using push_result_paired [OF load_global_paired [OF K]] L_Var by (simp add: exec_load_def)
qed (use push_paired [OF K] K in \<open>auto simp: exec_load_def push_result_def paired_reads [OF K]
       paired_fields [OF K] split: sum.split option.split\<close>)

lemma exec_store_paired:
  assumes K: "paired P idx idx' ins m0 m0' m m'" and "ins = I_Store s"
  shows "rel_exec (paired P idx idx' ins m0 m0') (exec_store idx s m) (exec_store idx' s m')"
  using assms(2) store_var_paired [OF K] store_local_paired(2) [OF K] store_capture_paired [OF K]
  by (cases s) (simp_all add: exec_store_def cache_name_def)

lemma exec_misc_paired:
  assumes K: "paired P idx idx' ins m0 m0' m m'"
  shows "rel_exec (paired P idx idx' ins m0 m0') (exec_misc E p m) (exec_misc E p m')"
proof (cases p)
  case (P_Cat n)
  then show ?thesis
    unfolding exec_misc_def by (simp add: rel_exec_res [OF pop_paired(3) [OF K]] push_paired)
next
  case (P_MakeList n)
  then show ?thesis
    unfolding exec_misc_def by (simp add: rel_exec_res [OF pop_paired(3) [OF K]] push_paired)
next
  case (P_BoolCombine op)
  have "rel_exec (paired P idx idx' ins m0 m0')
      (case pop2_stack m of Inl e \<Rightarrow> Fail e | Inr (lr, m1) \<Rightarrow>
         (case lr of (l, r) \<Rightarrow>
            case vo_eval_bool_op E op l r of Inl e \<Rightarrow> Fail e | Inr v \<Rightarrow> Next (push v m1)))
      (case pop2_stack m' of Inl e \<Rightarrow> Fail e | Inr (lr, m1) \<Rightarrow>
         (case lr of (l, r) \<Rightarrow>
            case vo_eval_bool_op E op l r of Inl e \<Rightarrow> Fail e | Inr v \<Rightarrow> Next (push v m1)))"
    by (rule rel_exec_res [OF pop_paired(2) [OF K]]) (auto intro: push_paired split: sum.split)
  then show ?thesis using P_BoolCombine by (simp add: exec_misc_def split_def)
qed (use K in \<open>auto simp: exec_misc_def paired_fields [OF K] paired_update\<close>)

lemma eval_n_loop_paired:
  assumes K: "paired P idx idx' ins m0 m0' m m'"
  shows "rel_res (paired P idx idx' ins m0 m0') (eval_n_loop_condition E i c m) (eval_n_loop_condition E i c m')"
  using K bool_or_domain_paired [of "paired P idx idx' ins m0 m0'" m m', OF K]
  by (auto simp: eval_n_loop_condition_def split: val.split sum.split)

lemma exec_jump_paired:
  assumes K: "paired P idx idx' ins m0 m0' m m'" and t: "(jump_operand j, t') \<in> P"
  shows "rel_exec (paired P idx idx' ins m0 m0') (exec_jump E idx j m)
    (exec_jump E idx' (set_jump_operand t' j) m')"
proof (cases j)
  case (J_IfFalse t)
  with assms(2) have "(t, t') \<in> P" by (simp add: jump_operand_def)
  then show ?thesis
    using J_IfFalse unfolding exec_jump_def set_jump_operand_def
    by (simp add: rel_exec_res [OF pop_paired(1) [OF K]] jump_unless_paired bool_or_domain_paired)
next
  case (J_NLoopEnter index count snapshot t)
  with assms(2) have "(t, t') \<in> P" by (simp add: jump_operand_def)
  then have "rel_exec (paired P idx idx' ins m0 m0')
      (case eval_n_loop_condition E i c m of Inl e \<Rightarrow> Fail e | Inr (b, m1) \<Rightarrow>
         if b then store_local_value (unat snapshot) i m1 else Next (jump_to t m1))
      (case eval_n_loop_condition E i c m' of Inl e \<Rightarrow> Fail e | Inr (b, m1) \<Rightarrow>
         if b then store_local_value (unat snapshot) i m1 else Next (jump_to t' m1))" for i c
    by (intro rel_exec_res [OF eval_n_loop_paired [OF K]])
      (auto intro: store_local_paired(1) paired_jump)
  then show ?thesis
    using J_NLoopEnter unfolding exec_jump_def set_jump_operand_def
    by (simp add: paired_reads [OF K] split: sum.split)
next
  case (J_NLoopNext snapshot index t)
  with assms(2) have "(t, t') \<in> P" by (simp add: jump_operand_def)
  then have "rel_exec (paired P idx idx' ins m0 m0')
      (case store_local_value i v m of Next m1 \<Rightarrow> Next (jump_to t m1) | r \<Rightarrow> r)
      (case store_local_value i v m' of Next m1 \<Rightarrow> Next (jump_to t' m1) | r \<Rightarrow> r)" for i v
    using store_local_paired(1) [OF K, of i v]
    by (cases "(paired P idx idx' ins m0 m0', store_local_value i v m, store_local_value i v m')"
        rule: rel_exec.cases) (auto intro: paired_jump)
  then show ?thesis
    using J_NLoopNext unfolding exec_jump_def set_jump_operand_def
    by (simp add: paired_reads [OF K] split: sum.split)
next
  case (J_IfGE t)
  with assms(2) have P: "(t, t') \<in> P" by (simp add: jump_operand_def)
  have "rel_exec (paired P idx idx' ins m0 m0') (jump_if_ge E t lr m1) (jump_if_ge E t' lr m1')"
    if "paired P idx idx' ins m0 m0' m1 m1'" for lr m1 m1'
    using that P jump_unless_paired [OF bool_or_domain_paired [of "paired P idx idx' ins m0 m0'" m1 m1', OF that] P]
    by (cases lr; cases "fst lr"; cases "snd lr")
      (auto simp: jump_if_ge_def intro: paired_jump split: sum.split)
  from rel_exec_res [OF pop_paired(2) [OF K] this] show ?thesis
    using J_IfGE by (simp add: exec_jump_def set_jump_operand_def)
next
  case (J_IfLEZLocal i t)
  with assms(2) have P: "(t, t') \<in> P" by (simp add: jump_operand_def)
  have "rel_exec (paired P idx idx' ins m0 m0')
      (jump_unless t (eval_cmp_branch_condition E idx Bin_Gt (O_Local i) (O_Const (V_Int 0)) m))
      (jump_unless t' (eval_cmp_branch_condition E idx' Bin_Gt (O_Local i) (O_Const (V_Int 0)) m'))"
    by (intro jump_unless_paired eval_cmp_branch_paired K P) auto
  then show ?thesis
    using J_IfLEZLocal K P unfolding exec_jump_def set_jump_operand_def
    by (auto simp: paired_reads [OF K] intro: paired_jump split: option.split val.split)
qed (use K t paired_jump [OF K] in
  \<open>auto simp: exec_jump_def set_jump_operand_def jump_operand_def paired_reads [OF K] paired_fields [OF K]
     split: option.split val.split\<close>)

lemma exec_instruction_paired:
  assumes K: "paired P idx idx' ins m0 m0' m m'"
    and t: "\<forall>t. branch_target ins = Some t \<longrightarrow> (t, t') \<in> P"
  shows "rel_exec (paired P idx idx' ins m0 m0') (exec_instruction E idx ins m)
    (exec_instruction E idx' (retarget t' ins) m')"
proof (cases ins)
  case (I_LoadCallTarget opd)
  have "rel_res (paired P idx idx' ins m0 m0') (resolve_operand E idx opd False m)
      (resolve_operand E idx' opd False m')"
    by (rule resolve_operand_paired [OF K]) (simp add: I_LoadCallTarget cache_name_def operand_name_def)
  from push_result_paired [OF this] show ?thesis
    by (simp add: I_LoadCallTarget exec_instruction_def retarget_def)
next
  case (I_UnaryOp op opd)
  have res: "rel_res (paired P idx idx' ins m0 m0') (resolve_operand E idx opd False m)
      (resolve_operand E idx' opd False m')"
    by (rule resolve_operand_paired [OF K]) (simp add: I_UnaryOp cache_name_def operand_name_def)
  have "rel_exec (paired P idx idx' ins m0 m0')
      (case resolve_operand E idx opd False m of Inl e \<Rightarrow> Fail e | Inr (v, m1) \<Rightarrow>
         case vo_eval_unary E op v of Inl e \<Rightarrow> Fail e | Inr u \<Rightarrow> Next (push u m1))
      (case resolve_operand E idx' opd False m' of Inl e \<Rightarrow> Fail e | Inr (v, m1) \<Rightarrow>
         case vo_eval_unary E op v of Inl e \<Rightarrow> Fail e | Inr u \<Rightarrow> Next (push u m1))"
    by (rule rel_exec_res [OF res]) (auto intro: push_paired split: sum.split)
  then show ?thesis by (simp add: I_UnaryOp exec_instruction_def retarget_def)
next
  case (I_BinaryOp op left right)
  have "rel_res (paired P idx idx' ins m0 m0') (eval_operands E idx op left right m)
      (eval_operands E idx' op left right m')"
    by (rule eval_operands_paired [OF K]) (simp_all add: I_BinaryOp cache_name_def operand_name_def)
  from push_result_paired [OF this] show ?thesis
    by (simp add: I_BinaryOp exec_instruction_def retarget_def)
next
  case (I_JumpIfCmpFalse op left right t)
  have "rel_res (paired P idx idx' ins m0 m0') (eval_cmp_branch_condition E idx op left right m)
      (eval_cmp_branch_condition E idx' op left right m')"
    by (rule eval_cmp_branch_paired [OF K]) (simp_all add: I_JumpIfCmpFalse cache_name_def operand_name_def)
  moreover have "(t, t') \<in> P" using t by (simp add: I_JumpIfCmpFalse branch_target_def)
  ultimately show ?thesis
    using jump_unless_paired by (simp add: I_JumpIfCmpFalse exec_instruction_def retarget_def)
next
  case (I_Branch j)
  then show ?thesis
    using exec_jump_paired [OF K, of j t' E] t
    by (simp add: exec_instruction_def retarget_def branch_target_def)
qed (use push_paired [OF K] exec_load_paired [OF K] exec_store_paired [OF K] exec_index_paired [OF K]
       exec_misc_paired [OF K] in \<open>simp_all add: exec_instruction_def retarget_def\<close>)

section \<open>Cache transparency\<close>

lemma follows_refl:
  "globals_ok m \<Longrightarrow> entry_ok m ins idx \<Longrightarrow> follows idx ins m m"
  by (simp add: follows_def)

lemma entry_ok_mono:
  assumes "entry_ok m ins idx" "vm_cache m1 ! idx = vm_cache m ! idx"
    "length (vm_cache m1) = length (vm_cache m)"
    "\<forall>name s. lookup_global_slot m name = Some s \<longrightarrow> lookup_global_slot m1 name = Some s"
  shows "entry_ok m1 ins idx"
  using assms by (auto simp: entry_ok_def cached_slot_def)

lemma follows_caches_ok:
  assumes "caches_ok code m" "follows idx ins m m1" "ins = code ! idx"
  shows "caches_ok code m1"
  using assms entry_ok_mono [of m _ _ m1]
  by (auto simp: caches_ok_def follows_def, metis)

text \<open>One round of two machines that agree on everything but valid caches.\<close>

definition agree :: "'o instruction list \<Rightarrow> 'o vm \<Rightarrow> 'o vm \<Rightarrow> bool" where
  "agree code m m' \<longleftrightarrow> same_core m m' \<and> vm_pc m' = vm_pc m \<and> caches_ok code m \<and> caches_ok code m'"

lemma rel_exec_mono: "rel_exec K r r' \<Longrightarrow> (\<And>m m'. K m m' \<Longrightarrow> K2 m m') \<Longrightarrow> rel_exec K2 r r'"
  by (cases "(K, r, r')" rule: rel_exec.cases) auto

lemma retarget_self: "branch_target ins = Some t \<Longrightarrow> retarget t ins = ins"
  "branch_target ins = None \<Longrightarrow> retarget t ins = ins"
  by (cases ins; auto simp: branch_target_def retarget_def jump_operand_def set_jump_operand_def
      split: jump_inst.splits)+

lemma vm_step_agree:
  assumes "agree code m m'"
  shows "rel_exec (agree code) (vm_step E code m) (vm_step E code m')"
proof (cases "vm_pc m < length code")
  case False
  then show ?thesis using assms by (simp add: vm_step_def agree_def same_core_def)
next
  case True
  let ?idx = "vm_pc m" and ?ins = "code ! vm_pc m"
  let ?m = "m\<lparr>vm_pc := vm_pc m + 1\<rparr>" and ?m' = "m'\<lparr>vm_pc := vm_pc m + 1\<rparr>"
  define t where "t = (case branch_target ?ins of Some t \<Rightarrow> t | None \<Rightarrow> 0)"
  have "paired Id ?idx ?idx ?ins ?m ?m' ?m ?m'"
    using assms True by (auto simp: agree_def paired_def same_core_def caches_ok_def globals_ok_def
        entry_ok_def cached_slot_def lookup_global_slot_def intro!: follows_refl)
  moreover have "retarget t ?ins = ?ins"
    by (cases "branch_target ?ins") (simp_all add: t_def retarget_self)
  ultimately have "rel_exec (paired Id ?idx ?idx ?ins ?m ?m') (exec_instruction E ?idx ?ins ?m)
      (exec_instruction E ?idx ?ins ?m')"
    using exec_instruction_paired [of Id ?idx ?idx ?ins ?m ?m' ?m ?m' t E] by (simp add: t_def)
  then have "rel_exec (agree code) (exec_instruction E ?idx ?ins ?m) (exec_instruction E ?idx ?ins ?m')"
  proof (rule rel_exec_mono)
    fix m1 m1' assume K: "paired Id ?idx ?idx ?ins ?m ?m' m1 m1'"
    have "caches_ok code ?m" "caches_ok code ?m'"
      using assms by (auto simp: agree_def caches_ok_def globals_ok_def entry_ok_def cached_slot_def
          lookup_global_slot_def)
    then show "agree code m1 m1'"
      using K follows_caches_ok [of code _ ?idx ?ins] by (auto simp: agree_def paired_def)
  qed
  then show ?thesis using True assms by (simp add: vm_step_def agree_def)
qed

lemma vm_step_caches:
  assumes "caches_ok code m" "vm_step E code m = Next m1" shows "caches_ok code m1"
proof -
  have "agree code m m" using assms(1) by (simp add: agree_def same_core_def)
  from vm_step_agree [OF this, of E] assms(2) show ?thesis by (simp add: agree_def)
qed

lemma vm_run_agree: "agree code m m' \<Longrightarrow> vm_run E code fuel m' = vm_run E code fuel m"
proof (induction fuel arbitrary: m m')
  case (Suc fuel)
  show ?case
    using vm_step_agree [OF Suc.prems, of E] Suc.IH
    by (cases "(agree code, vm_step E code m, vm_step E code m')" rule: rel_exec.cases) auto
qed simp


text \<open>A state whose first instruction has the slot of its name cached.\<close>

definition cached_state :: "unit vm" where
  "cached_state = \<lparr>vm_pc = 0, vm_stack = [], vm_active = None, vm_cells = [],
     vm_global_map = [(lit ''x'', 0)], vm_global_slots = [V_Int 7],
     vm_cache = [\<lparr>ic_slot = Some 0, ic_slot_b = None\<rparr>, \<lparr>ic_slot = None, ic_slot_b = None\<rparr>],
     vm_unpack_frames = []\<rparr>"


end
