(* ===== verification/Fuse_Sim.thy ===== *)
theory Fuse_Sim
  imports Fuse_Loop Vm_Cache
begin

text \<open>
  The peephole pass and the interpreter. A fused instruction does what its two instructions do one
  after the other, except for the comparison of a local double with zero, which differs on NaN.
  From this follows a simulation between the code before and after a round, for code in which no
  jump leads to the second instruction of a fused pair; without that condition the round changes
  the result, and a concrete program shows it.
\<close>

section \<open>Fused pairs\<close>

text \<open>Running two instructions one after the other; a jump in the first cannot occur in a pair.\<close>

definition then_exec :: "'o exec \<Rightarrow> ('o vm \<Rightarrow> 'o exec) \<Rightarrow> 'o exec" where
  "then_exec r f = (case r of Next m \<Rightarrow> f m | _ \<Rightarrow> r)"

text \<open>What \<open>Value::gt\<close> does on a double and zero: it decides by the order of doubles, or it fails (on a
  NaN).\<close>

definition gt_zero_ok :: "'o value_ops \<Rightarrow> bool" where
  "gt_zero_ok E \<longleftrightarrow> (\<forall>x v. vo_eval_binary E Bin_Gt (V_Float x) (V_Int 0) = Inr v \<longrightarrow>
     v = V_Bool (\<not> f64_le_zero x))"

lemma butlast_push [simp]: "vm_stack (push v m) = vm_stack m @ [v]"
  by (simp add: push_def)

lemma pop_push: "(push v m)\<lparr>vm_stack := vm_stack m\<rparr> = m"
  by (simp add: push_def)

lemma store_keep_pop:
  "store_local_impl i False m =
     then_exec (store_local_impl i True m) (\<lambda>m. Next (m\<lparr>vm_stack := butlast (vm_stack m)\<rparr>))"
  "store_capture_impl i False m =
     then_exec (store_capture_impl i True m) (\<lambda>m. Next (m\<lparr>vm_stack := butlast (vm_stack m)\<rparr>))"
  "store_var_impl idx name False m =
     then_exec (store_var_impl idx name True m) (\<lambda>m. Next (m\<lparr>vm_stack := butlast (vm_stack m)\<rparr>))"
  by (cases "vm_stack m = []";
      auto simp: store_local_impl_def store_capture_impl_def store_var_impl_def store_value_def
        pop1_stack_def last_clone_stack_def then_exec_def store_local_value_def local_slot_def
        capture_cell_def write_local_def write_cell_def cached_slot_def assign_global_at_slot_def
        assign_global_and_slot_def set_global_def lookup_global_slot_def cache_slot_def Let_def
        split: option.split slot.split prod.split)+

lemma assign_keep_pop:
  "assign_target t f v False m =
     then_exec (assign_target t f v True m) (\<lambda>m. Next (m\<lparr>vm_stack := butlast (vm_stack m)\<rparr>))"
  by (auto simp: assign_target_def then_exec_def pop_push split: sum.split prod.split)

lemma index_assign_keep_pop:
  "execute_single_index_assign E t False m =
     then_exec (execute_single_index_assign E t True m) (\<lambda>m. Next (m\<lparr>vm_stack := butlast (vm_stack m)\<rparr>))"
  "execute_index_assign E t argc False m =
     then_exec (execute_index_assign E t argc True m) (\<lambda>m. Next (m\<lparr>vm_stack := butlast (vm_stack m)\<rparr>))"
  by (auto simp: execute_single_index_assign_def execute_index_assign_def assign_keep_pop
      then_exec_def split: sum.split prod.split)

lemma exec_pop:
  "exec_instruction E idx I_Pop = (\<lambda>m. Next (m\<lparr>vm_stack := butlast (vm_stack m)\<rparr>))"
  by (simp add: fun_eq_iff exec_instruction_def exec_misc_def)

lemma pop_pair_exec:
  assumes "fuse_pop_pair a b = Some r"
  shows "(case r of None \<Rightarrow> Next m | Some ins \<Rightarrow> exec_instruction E idx ins m) =
    then_exec (exec_instruction E idx a m) (exec_instruction E idx' b)"
  using assms
  by (cases "(a, b)" rule: fuse_pop_pair.cases)
    (auto simp: exec_pop exec_instruction_def [of E idx] exec_store_def exec_index_def
       then_exec_def [of "Next _"] store_keep_pop index_assign_keep_pop pop_push
      split: store_inst.splits index_inst.splits)

lemma int_comparison_bool:
  assumes "is_branch_comparison op"
  shows "eval_int_binary E op l r = map_option V_Bool (eval_int_comparison op l r)"
  using assms by (auto simp: is_branch_comparison_def eval_int_binary_def eval_int_comparison_def)

lemma with_int_operands_map:
  "with_int_operands (\<lambda>l r. map_option g (f l r)) left right m =
   map_option (\<lambda>(x, m). (g x, m)) (with_int_operands f left right m)"
  by (simp add: with_int_operands_def Let_def option.map_comp comp_def split: option.split)

lemma int_cmp_fast:
  assumes "is_branch_comparison op"
  shows "try_eval_int_binary_operands E op left right m =
    map_option (\<lambda>(b, m). (V_Bool b, m)) (try_eval_int_cmp_branch op left right m)"
proof -
  have "eval_int_binary E op = (\<lambda>l r. map_option V_Bool (eval_int_comparison op l r))"
    using int_comparison_bool [OF assms] by (intro ext)
  then show ?thesis
    by (simp add: try_eval_int_binary_operands_def try_eval_int_cmp_branch_def with_int_operands_map)
qed

lemma exec_if_false_push:
  "exec_instruction E idx (I_JumpIfFalse t) (push v m) = jump_unless t (bool_or_domain v m)"
  by (simp add: exec_instruction_def exec_jump_def pop1_stack_def push_def)

lemma cmp_branch_exec:
  assumes "is_branch_comparison op"
  shows "exec_instruction E idx (I_JumpIfCmpFalse op left right t) m =
    then_exec (exec_instruction E idx (I_BinaryOp op left right) m) (exec_instruction E idx' (I_JumpIfFalse t))"
proof (cases "try_eval_int_cmp_branch op left right m")
  case None
  then show ?thesis
    by (auto simp: exec_instruction_def [of E idx] eval_cmp_branch_condition_def push_result_def
        then_exec_def exec_if_false_push jump_unless_def bool_or_domain_def
        split: sum.split option.split)
next
  case (Some bm)
  then show ?thesis
    using int_cmp_fast [OF assms, of E left right m]
    by (cases bm) (simp add: exec_instruction_def [of E idx] eval_cmp_branch_condition_def
        eval_operands_def push_result_def then_exec_def exec_if_false_push jump_unless_def
        bool_or_domain_def try_to_rust_bool_def)
qed

lemma int_of_val_Some: "int_of_val v = Some n \<longleftrightarrow> v = V_Int n"
  by (cases v) (simp_all add: int_of_val_def)

lemma jump_if_ge_slow:
  "int_of_val l = None \<or> int_of_val r = None \<Longrightarrow> jump_if_ge E t (l, r) m =
     (case vo_eval_binary E Bin_Lt l r of Inl e \<Rightarrow> Fail e | Inr v \<Rightarrow> jump_unless t (bool_or_domain v m))"
  by (cases l; cases r) (simp_all add: jump_if_ge_def int_of_val_def)

lemma ge_branch_exec:
  "exec_instruction E idx (I_JumpIfGE t) m =
    then_exec (exec_instruction E idx (I_BinaryOp Bin_Lt O_Stack O_Stack) m)
      (exec_instruction E idx' (I_JumpIfFalse t))"
proof (cases "length (vm_stack m) < 2")
  case True
  then show ?thesis
    by (cases "vm_stack m")
      (auto simp: exec_instruction_def [of E idx] exec_jump_def pop2_stack_def Let_def eval_operands_def
        try_eval_int_binary_operands_def with_int_operands_def resolve_operand_def pop1_stack_def
        push_result_def then_exec_def)
next
  case False
  then obtain s l r where s: "vm_stack m = s @ [l, r]"
    by (cases "vm_stack m" rule: rev_cases; cases "butlast (vm_stack m)" rule: rev_cases) auto
  let ?m = "m\<lparr>vm_stack := s\<rparr>"
  have left: "exec_instruction E idx (I_JumpIfGE t) m = jump_if_ge E t (l, r) ?m"
    using s by (simp add: exec_instruction_def exec_jump_def pop2_stack_def Let_def butlast_append)
  have fast: "try_eval_int_binary_operands E Bin_Lt O_Stack O_Stack m =
      (case (int_of_val l, int_of_val r) of
         (Some a, Some b) \<Rightarrow> Some (V_Bool (sint a < sint b), ?m) | _ \<Rightarrow> None)"
    using s by (auto simp: try_eval_int_binary_operands_def with_int_operands_def Let_def
        int_operand_def nth_append eval_int_binary_def split: option.split)
  show ?thesis
  proof (cases "int_of_val l = None \<or> int_of_val r = None")
    case True
    then have "exec_instruction E idx (I_BinaryOp Bin_Lt O_Stack O_Stack) m =
        (case vo_eval_binary E Bin_Lt l r of Inl e \<Rightarrow> Fail e | Inr v \<Rightarrow> Next (push v ?m))"
      using fast s by (auto simp: exec_instruction_def eval_operands_def resolve_operand_def
          pop1_stack_def push_result_def butlast_append split: option.splits sum.split)
    then show ?thesis
      unfolding left jump_if_ge_slow [OF True]
      by (auto simp: then_exec_def exec_if_false_push split: sum.split)
  next
    case False
    then obtain a b where "l = V_Int a" "r = V_Int b" by (auto simp: int_of_val_Some)
    with fast show ?thesis
      unfolding left
      by (auto simp: exec_instruction_def [of E idx] eval_operands_def push_result_def then_exec_def
          exec_if_false_push jump_if_ge_def int_of_val_def bool_or_domain_def try_to_rust_bool_def
          jump_unless_def)
  qed
qed

lemma lez_branch_exec:
  assumes "gt_zero_ok E"
    "seq = then_exec (exec_instruction E idx (I_BinaryOp Bin_Gt (O_Local i) (O_Const (V_Int 0))) m)
      (exec_instruction E idx' (I_JumpIfFalse t))"
  shows "(\<exists>e. seq = Fail e) \<or> exec_instruction E idx (I_JumpIfLEZLocal i t) m = seq"
proof -
  have slow: "exec_instruction E idx (I_JumpIfCmpFalse Bin_Gt (O_Local i) (O_Const (V_Int 0)) t) m = seq"
    unfolding assms(2) by (rule cmp_branch_exec) (simp add: is_branch_comparison_def)
  show ?thesis
  proof (cases "local_slot m (unat i)")
    case None
    then show ?thesis
      unfolding assms(2)
      by (simp add: exec_instruction_def [of E idx] eval_operands_def try_eval_int_binary_operands_def
          with_int_operands_def int_operand_def int_of_val_def Let_def resolve_operand_def
          read_local_target_def push_result_def then_exec_def)
  next
    case (Some sl)
    consider (int) n where "slot_read m sl = V_Int n" | (float) x where "slot_read m sl = V_Float x"
      | (other) "exec_instruction E idx (I_JumpIfLEZLocal i t) m =
          exec_instruction E idx (I_JumpIfCmpFalse Bin_Gt (O_Local i) (O_Const (V_Int 0)) t) m"
      using Some by (cases "slot_read m sl") (auto simp: exec_instruction_def exec_jump_def)
    then show ?thesis
    proof cases
      case int
      have "seq = Next (if sint n \<le> 0 then jump_to t m else m)"
        unfolding slow [symmetric] using Some int
        by (auto simp: exec_instruction_def eval_cmp_branch_condition_def try_eval_int_cmp_branch_def
            with_int_operands_def int_operand_def int_of_val_def Let_def eval_int_comparison_def
            jump_unless_def)
      then show ?thesis using Some int by (simp add: exec_instruction_def exec_jump_def)
    next
      case float
      have "exec_instruction E idx (I_BinaryOp Bin_Gt (O_Local i) (O_Const (V_Int 0))) m =
          (case vo_eval_binary E Bin_Gt (V_Float x) (V_Int 0) of Inl e \<Rightarrow> Fail e | Inr v \<Rightarrow> Next (push v m))"
        using Some float
        by (auto simp: exec_instruction_def eval_operands_def try_eval_int_binary_operands_def
            with_int_operands_def int_operand_def int_of_val_def Let_def resolve_operand_def
            read_local_target_def push_result_def split: sum.split)
      then have seq: "seq = (case vo_eval_binary E Bin_Gt (V_Float x) (V_Int 0) of
          Inl e \<Rightarrow> Fail e | Inr v \<Rightarrow> jump_unless t (bool_or_domain v m))"
        unfolding assms(2) by (auto simp: then_exec_def exec_if_false_push split: sum.split)
      have fused: "exec_instruction E idx (I_JumpIfLEZLocal i t) m =
          Next (if f64_le_zero x then jump_to t m else m)"
        using Some float by (simp add: exec_instruction_def exec_jump_def)
      show ?thesis
      proof (cases "vo_eval_binary E Bin_Gt (V_Float x) (V_Int 0)")
        case (Inr v)
        then have "v = V_Bool (\<not> f64_le_zero x)" using assms(1) by (simp add: gt_zero_ok_def)
        with Inr seq fused show ?thesis
          by (simp add: bool_or_domain_def try_to_rust_bool_def jump_unless_def)
      qed (simp add: seq)
    next
      case other
      then show ?thesis using slow by simp
    qed
  qed
qed

lemma branch_pair_exec:
  assumes "fuse_branch_pair a b = Some ins" "gt_zero_ok E"
    "seq = then_exec (exec_instruction E idx a m) (exec_instruction E idx' b)"
  shows "(\<exists>e. seq = Fail e) \<or> exec_instruction E idx ins m = seq"
proof -
  obtain op left right t where ab: "a = I_BinaryOp op left right" "b = I_JumpIfFalse t"
    using assms(1) by (cases "(a, b)" rule: fuse_branch_pair.cases) auto
  consider (cmp) "ins = I_JumpIfCmpFalse op left right t" "is_branch_comparison op"
    | (lez) i where "ins = I_JumpIfLEZLocal i t" "op = Bin_Gt" "left = O_Local i" "right = O_Const (V_Int 0)"
    | (ge) "ins = I_JumpIfGE t" "op = Bin_Lt" "left = O_Stack" "right = O_Stack"
    using assms(1) unfolding ab
    by (auto simp: is_branch_comparison_def split: binary_operator.splits operand.splits val.splits if_splits)
  then show ?thesis
  proof cases
    case cmp then show ?thesis using cmp_branch_exec [OF cmp(2)] assms(3) ab by metis
  next
    case lez then show ?thesis using lez_branch_exec [OF assms(2)] assms(3) ab by simp
  next
    case ge then show ?thesis using ge_branch_exec assms(3) ab by metis
  qed
qed

section \<open>The walk and the program counter\<close>

lemma walk_covers:
  "i \<le> k \<Longrightarrow> k < length old \<Longrightarrow> k \<in> set (walk_steps tb old i) \<or>
     (\<exists>j \<in> set (walk_steps tb old i). fused_pair tb old j \<and> k = j + 1)"
proof (induction tb old i rule: walk_steps.induct)
  case (1 tb old i)
  let ?k = "i + (if fused_pair tb old i then 2 else 1)"
  have steps: "walk_steps tb old i = i # walk_steps tb old ?k"
    using "1.prems" by (subst walk_steps.simps) simp
  consider "k = i" | "k = i + 1" "fused_pair tb old i" | "?k \<le> k"
    using "1.prems" by (cases "fused_pair tb old i") (simp_all, linarith+)
  then show ?case
  proof cases
    case 3
    with "1.IH" "1.prems" steps show ?thesis by (metis le_less_trans list.set_intros(2))
  qed (use steps in auto)
qed

lemma walk_next:
  assumes "p \<in> set (walk_steps tb old i)"
  defines "p' \<equiv> p + (if fused_pair tb old p then 2 else 1)"
  shows "p' \<in> set (walk_steps tb old i) \<or> p' = length old"
    "j \<in> set (walk_steps tb old i) \<Longrightarrow> \<not> (p < j \<and> j < p')"
proof -
  have "(p' \<in> set (walk_steps tb old i) \<or> p' = length old) \<and>
      (\<forall>j \<in> set (walk_steps tb old i). \<not> (p < j \<and> j < p'))"
    using assms(1) unfolding p'_def
  proof (induction tb old i rule: walk_steps.induct)
    case (1 tb old i)
    let ?k = "i + (if fused_pair tb old i then 2 else 1)"
    have lt: "i < length old" using walk_steps_range [OF "1.prems"] by linarith
    have steps: "walk_steps tb old i = i # walk_steps tb old ?k"
      using lt by (subst walk_steps.simps) simp
    have bound: "?k \<le> length old" using lt fused_pair_bound [of tb old i] by auto
    show ?case
    proof (cases "p = i")
      case True
      have "?k \<in> set (walk_steps tb old ?k) \<or> ?k = length old"
        using bound by (subst walk_steps.simps) auto
      then show ?thesis
        using True steps by (auto dest!: walk_steps_range simp: not_less)
    next
      case False
      then have p: "p \<in> set (walk_steps tb old ?k)" using "1.prems" steps by simp
      have "i < p" using walk_steps_range [OF p] by (simp split: if_splits)
      with "1.IH" [OF lt p] steps show ?thesis by auto
    qed
  qed
  then show "p' \<in> set (walk_steps tb old i) \<or> p' = length old"
    "j \<in> set (walk_steps tb old i) \<Longrightarrow> \<not> (p < j \<and> j < p')" by blast+
qed

lemma new_index_filter: "sorted_wrt (<) os \<Longrightarrow> new_index os k = length (filter (\<lambda>j. j < k) os)"
  by (induction os) (auto simp: new_index_def filter_empty_conv)

lemma new_index_next:
  assumes "p \<in> set (walk_steps tb old i)"
  defines "p' \<equiv> p + (if fused_pair tb old p then 2 else 1)"
  shows "new_index (kept_steps tb old i) p' =
    new_index (kept_steps tb old i) p + (if pushed_at tb old p = None then 0 else 1)"
proof -
  let ?os = "kept_steps tb old i"
  have sorted: "sorted_wrt (<) ?os" by (rule kept_steps_sorted)
  then have distinct: "distinct ?os" by (simp add: strict_sorted_iff)
  have cut: "j < p' \<longleftrightarrow> j < p \<or> j = p" if "j \<in> set (walk_steps tb old i)" for j
    using walk_next(2) [OF assms(1) that] unfolding p'_def [symmetric] by (auto simp: p'_def)
  have "set (filter (\<lambda>j. j < p') ?os) =
      set (filter (\<lambda>j. j < p) ?os) \<union> (if pushed_at tb old p = None then {} else {p})"
    using assms(1) cut by (auto simp: kept_steps_def)
  then have "card (set (filter (\<lambda>j. j < p') ?os)) =
      card (set (filter (\<lambda>j. j < p) ?os)) + (if pushed_at tb old p = None then 0 else 1)"
    by (simp only: card_Un_disjoint finite_set) auto
  moreover have "card (set (filter (\<lambda>j. j < k) ?os)) = length (filter (\<lambda>j. j < k) ?os)" for k
    using distinct by (intro distinct_card) simp
  ultimately show ?thesis unfolding new_index_filter [OF sorted] by simp
qed

lemma remap_retarget:
  assumes "remap_instruction n m orig q ins = Some ins'" "try_len ins = None"
  shows "ins' = retarget (case branch_target ins of Some t \<Rightarrow> m ! t | None \<Rightarrow> 0) ins"
  using assms
  by (cases ins) (auto simp: remap_instruction_def remap_jump_def retarget_def branch_target_def
      try_len_def index_opt_def split: misc_inst.splits if_splits)

lemma retarget_cache_name [simp]: "cache_name second (retarget t ins) = cache_name second ins"
  by (cases ins) (simp_all add: retarget_def cache_name_def)

lemma fuse_at_cases:
  "(fused_pair tb old p \<and>
      (fuse_pop_pair (old ! p) (old ! (p + 1)) = Some (pushed_at tb old p) \<or>
       (\<exists>ins. pushed_at tb old p = Some ins \<and> fuse_branch_pair (old ! p) (old ! (p + 1)) = Some ins))) \<or>
   (\<not> fused_pair tb old p \<and> pushed_at tb old p = None \<and> old ! p = I_Jump (p + 1)) \<or>
   (\<not> fused_pair tb old p \<and> pushed_at tb old p = Some I_Pop \<and> old ! p = I_JumpIfFalse (p + 1)) \<or>
   (\<not> fused_pair tb old p \<and> pushed_at tb old p = Some (old ! p))"
  by (auto simp: at_defs split: option.splits if_splits)

section \<open>Simulation\<close>

text \<open>Programs where no jump leads to the second instruction of a fused pair.\<close>

definition no_landing :: "'o instruction list \<Rightarrow> bool" where
  "no_landing code \<longleftrightarrow>
     (\<forall>j < length code. fused_pair (try_boundaries code) code j \<longrightarrow>
        (\<forall>ins \<in> set code. branch_target ins \<noteq> Some (j + 1)))"

text \<open>The program counters of the two programs that belong together.\<close>

definition pc_map :: "'o instruction list \<Rightarrow> (nat \<times> nat) set" where
  "pc_map code = {(p, new_index (kept_of code) p) |p.
     p \<in> set (walk_steps (try_boundaries code) code 0) \<or> p = length code}"

definition similar ::
  "'o instruction list \<Rightarrow> 'o instruction list \<Rightarrow> (nat \<times> nat) set \<Rightarrow> 'o vm \<Rightarrow> 'o vm \<Rightarrow> bool" where
  "similar code code' P m m' \<longleftrightarrow> same_core m m' \<and> caches_ok code m \<and> caches_ok code' m' \<and>
     (vm_pc m, vm_pc m') \<in> P"

lemma pc_irrelevant [simp]:
  "globals_ok (m\<lparr>vm_pc := a\<rparr>) = globals_ok m" "entry_ok (m\<lparr>vm_pc := a\<rparr>) ins idx = entry_ok m ins idx"
  "caches_ok code (m\<lparr>vm_pc := a\<rparr>) = caches_ok code m"
  "same_core (m\<lparr>vm_pc := a\<rparr>) (m'\<lparr>vm_pc := a'\<rparr>) = same_core m m'"
  by (simp_all add: caches_ok_def globals_ok_def entry_ok_def cached_slot_def lookup_global_slot_def
      same_core_def)

lemma paired_start:
  assumes "same_core m m'" "globals_ok m" "entry_ok m ins idx" "entry_ok m' ins idx'"
    "(a, a') \<in> P"
  shows "paired P idx idx' ins (m\<lparr>vm_pc := a\<rparr>) (m'\<lparr>vm_pc := a'\<rparr>) (m\<lparr>vm_pc := a\<rparr>) (m'\<lparr>vm_pc := a'\<rparr>)"
proof -
  have "globals_ok m'" using assms(1,2) by (simp add: same_core_def globals_ok_def)
  with assms show ?thesis
    unfolding paired_def by (intro conjI follows_refl) simp_all
qed

lemma caches_entry: "caches_ok code m \<Longrightarrow> idx < length code \<Longrightarrow> entry_ok m (code ! idx) idx"
  by (simp add: caches_ok_def)

lemma follows_caches:
  assumes "follows idx ins m0 m1" "caches_ok code m0" "idx < length code"
    "\<forall>second. cache_name second (code ! idx) = cache_name second ins"
  shows "caches_ok code m1"
proof -
  have "entry_ok m1 (code ! j) j" if "j < length code" for j
  proof (cases "j = idx")
    case True
    then show ?thesis using assms by (simp add: follows_def entry_ok_def)
  next
    case False
    show ?thesis
    proof (rule entry_ok_mono [of m0])
      show "entry_ok m0 (code ! j) j" using assms(2) that by (rule caches_entry)
    qed (use assms(1) False in \<open>simp_all add: follows_def\<close>)
  qed
  with assms show ?thesis by (simp add: follows_def caches_ok_def)
qed

text \<open>Instruction \<open>idx\<close> of the old code and its retargeted copy at \<open>idx'\<close> of the new code.\<close>

lemma exec_similar:
  assumes sim: "same_core m m'" "caches_ok code m" "caches_ok code' m'"
    and idx: "idx < length code" "idx' < length code'" "code' ! idx' = retarget t' (code ! idx)"
    and P: "(a, a') \<in> P" "\<forall>t. branch_target (code ! idx) = Some t \<longrightarrow> (t, t') \<in> P"
  shows "rel_exec (similar code code' P) (exec_instruction E idx (code ! idx) (m\<lparr>vm_pc := a\<rparr>))
    (exec_instruction E idx' (code' ! idx') (m'\<lparr>vm_pc := a'\<rparr>))"
proof -
  have "entry_ok m' (code ! idx) idx'"
    using caches_entry [OF sim(3) idx(2)] idx(3) by (simp add: entry_ok_def)
  moreover have "globals_ok m" using sim(2) by (simp add: caches_ok_def)
  ultimately have "paired P idx idx' (code ! idx) (m\<lparr>vm_pc := a\<rparr>) (m'\<lparr>vm_pc := a'\<rparr>)
      (m\<lparr>vm_pc := a\<rparr>) (m'\<lparr>vm_pc := a'\<rparr>)"
    using sim(1) caches_entry [OF sim(2) idx(1)] P(1) by (intro paired_start) auto
  from exec_instruction_paired [OF this P(2), of E, folded idx(3)] show ?thesis
  proof (rule rel_exec_mono)
    fix m1 m1' assume "paired P idx idx' (code ! idx) (m\<lparr>vm_pc := a\<rparr>) (m'\<lparr>vm_pc := a'\<rparr>) m1 m1'"
    then show "similar code code' P m1 m1'"
      using follows_caches [of idx "code ! idx" "m\<lparr>vm_pc := a\<rparr>" m1 code]
        follows_caches [of idx' "code ! idx" "m'\<lparr>vm_pc := a'\<rparr>" m1' code'] sim idx
      by (simp add: similar_def paired_def)
  qed
qed

text \<open>One round on code whose nested functions need none.\<close>

definition fused_round :: "'o instruction list \<Rightarrow> 'o instruction list \<Rightarrow> bool" where
  "fused_round code code' \<longleftrightarrow> code_ok code \<and> no_landing code \<and>
     remap_code (length code) (index_map code) (kept_of code) (pushed_of code) = Some code'"

abbreviation starts :: "'o instruction list \<Rightarrow> nat set" where
  "starts code \<equiv> set (walk_steps (try_boundaries code) code 0)"

abbreviation pair_at :: "'o instruction list \<Rightarrow> nat \<Rightarrow> bool" where
  "pair_at code p \<equiv> fused_pair (try_boundaries code) code p"

abbreviation push_at :: "'o instruction list \<Rightarrow> nat \<Rightarrow> 'o instruction option" where
  "push_at code p \<equiv> pushed_at (try_boundaries code) code p"

lemma starts_bound: "p \<in> starts code \<Longrightarrow> p < length code"
  using walk_steps_range by blast

lemma new_instruction:
  assumes "fused_round code code'" "p \<in> starts code" "push_at code p = Some ins"
  defines "q \<equiv> new_index (kept_of code) p"
  shows "q < length code'"
    "remap_instruction (length code) (index_map code) p q ins = Some (code' ! q)"
proof -
  have remap: "remap_code (length code) (index_map code) (kept_of code) (pushed_of code) = Some code'"
    using assms(1) by (simp add: fused_round_def)
  have "p \<in> set (kept_of code)" using assms(2,3) by (simp add: kept_steps_def)
  then obtain q0 where q0: "q0 < length (kept_of code)" "kept_of code ! q0 = p"
    by (auto simp: in_set_conv_nth)
  have q: "q = q0"
    using new_index_nth [OF kept_steps_sorted q0(1)] q0(2) by (simp add: q_def)
  show "q < length code'" using q0(1) remap_code_spec(1) [OF remap] q by simp
  show "remap_instruction (length code) (index_map code) p q ins = Some (code' ! q)"
    using remap_code_spec(2) [OF remap, of q0] q0 q assms(3) by simp
qed

lemma target_mapped:
  assumes "fused_round code code'" "p < length code" "branch_target (code ! p) = Some t"
  shows "t \<le> length code" "(t, new_index (kept_of code) t) \<in> pc_map code"
proof -
  show le: "t \<le> length code"
    using assms by (auto simp: fused_round_def code_ok_def target_ok_def dest: bspec [OF _ nth_mem])
  have "t \<in> starts code" if lt: "t < length code"
  proof (rule ccontr)
    assume "t \<notin> starts code"
    then obtain j where j: "j \<in> starts code" "pair_at code j" "t = j + 1"
      using walk_covers [of 0 t code "try_boundaries code"] lt by auto
    moreover have "code ! p \<in> set code" using assms(2) by simp
    ultimately show False
      using assms(1,3) starts_bound [OF j(1)] by (auto simp: fused_round_def no_landing_def)
  qed
  with le show "(t, new_index (kept_of code) t) \<in> pc_map code"
    by (auto simp: pc_map_def le_less)
qed

lemma next_mapped:
  assumes "p \<in> starts code"
  defines "p' \<equiv> p + (if pair_at code p then 2 else 1)"
  shows "(p', new_index (kept_of code) p + (if push_at code p = None then 0 else 1)) \<in> pc_map code"
  using walk_next(1) [OF assms(1)] new_index_next [OF assms(1)]
  unfolding pc_map_def p'_def by fastforce

text \<open>What an instruction pushed for position \<open>p\<close> becomes in the new code.\<close>

lemma new_retarget:
  assumes "fused_round code code'" "p \<in> starts code" "push_at code p = Some ins" "try_len ins = None"
  defines "q \<equiv> new_index (kept_of code) p"
  obtains t' where "q < length code'" "code' ! q = retarget t' ins"
    "\<forall>t. branch_target ins = Some t \<longrightarrow> (t, t') \<in> pc_map code"
proof
  let ?t = "case branch_target ins of Some t \<Rightarrow> index_map code ! t | None \<Rightarrow> 0"
  note new = new_instruction [OF assms(1-3), folded q_def]
  show "q < length code'" by (rule new(1))
  show "code' ! q = retarget ?t ins" by (rule remap_retarget [OF new(2) assms(4)])
  show "\<forall>t. branch_target ins = Some t \<longrightarrow> (t, ?t) \<in> pc_map code"
  proof (intro allI impI)
    fix t assume t: "branch_target ins = Some t"
    let ?j = "if pair_at code p then p + 1 else p"
    have "?j < length code"
      using starts_bound [OF assms(2)] fused_pair_bound [of "try_boundaries code" code p] by auto
    moreover have "branch_target (code ! ?j) = Some t" by (rule pushed_shape(2) [OF assms(3) t])
    ultimately have "t \<le> length code" "(t, new_index (kept_of code) t) \<in> pc_map code"
      using target_mapped [OF assms(1)] by blast+
    then show "(t, ?t) \<in> pc_map code" by (simp add: t index_map_nth)
  qed
qed

lemma try_outside: "try_len ins = Some n \<Longrightarrow> exec_instruction E idx ins m = Outside"
  by (cases ins) (auto simp: try_len_def exec_instruction_def exec_misc_def split: misc_inst.splits)

text \<open>A position that is no pair.\<close>

lemma sim_single:
  assumes round: "fused_round code code'" and p: "p \<in> starts code" "\<not> pair_at code p" "vm_pc m = p"
    and sim: "similar code code' (pc_map code) m m'"
  shows "(\<exists>m1. vm_step E code m = Next m1 \<and> similar code code' (pc_map code) m1 m') \<or>
    rel_exec (similar code code' (pc_map code)) (vm_step E code m) (vm_step E code' m') \<or>
    (\<exists>e. vm_step E code m = Fail e) \<or> vm_step E code m = Outside"
proof -
  let ?q = "new_index (kept_of code) p"
  have lt: "p < length code" by (rule starts_bound [OF p(1)])
  have pc: "vm_pc m' = ?q"
    using sim p(3) by (auto simp: similar_def pc_map_def)
  have next_pc: "(p + 1, ?q + (if push_at code p = None then 0 else 1)) \<in> pc_map code"
    using next_mapped [OF p(1)] p(2) by simp
  have step: "vm_step E code m = exec_instruction E p (code ! p) (m\<lparr>vm_pc := p + 1\<rparr>)"
    using lt p(3) by (simp add: vm_step_def)
  note core = sim [unfolded similar_def]
  consider (jump) "push_at code p = None" "code ! p = I_Jump (p + 1)"
    | (branch) "push_at code p = Some I_Pop" "code ! p = I_JumpIfFalse (p + 1)"
    | (same) "push_at code p = Some (code ! p)"
    using fuse_at_cases [of "try_boundaries code" code p] p(2) by auto
  then show ?thesis
  proof cases
    case jump
    then have "vm_step E code m = Next (m\<lparr>vm_pc := p + 1\<rparr>)"
      using step by (simp add: exec_instruction_def exec_jump_def jump_to_def)
    moreover have "similar code code' (pc_map code) (m\<lparr>vm_pc := p + 1\<rparr>) m'"
      using core next_pc jump pc by (simp add: similar_def same_core_def)
    ultimately show ?thesis by blast
  next
    case branch
    have new: "?q < length code'" "code' ! ?q = I_Pop"
      using new_instruction [OF round p(1) branch(1)] by (simp_all add: remap_instruction_def)
    then have new_step: "vm_step E code' m' =
        Next (m'\<lparr>vm_pc := ?q + 1, vm_stack := butlast (vm_stack m')\<rparr>)"
      using pc by (simp add: vm_step_def exec_pop)
    show ?thesis
    proof (cases "vm_step E code m")
      case (Next m1)
      then have "m1 = m\<lparr>vm_stack := butlast (vm_stack m), vm_pc := p + 1\<rparr>"
        using step branch(2)
        by (auto simp: exec_instruction_def exec_jump_def pop1_stack_def bool_or_domain_def
            jump_unless_def jump_to_def split: if_splits option.splits)
      then have "same_core m1 (m'\<lparr>vm_pc := ?q + 1, vm_stack := butlast (vm_stack m')\<rparr>)"
        using core by (simp add: same_core_def)
      moreover have "caches_ok code m1" using vm_step_caches [OF _ Next] core by simp
      moreover have "caches_ok code' (m'\<lparr>vm_pc := ?q + 1, vm_stack := butlast (vm_stack m')\<rparr>)"
        using vm_step_caches [OF _ new_step] core by simp
      ultimately show ?thesis
        using Next new_step next_pc branch(1) \<open>m1 = _\<close> by (simp add: similar_def)
    next
      case (Returned v)
      then show ?thesis
        using step branch(2)
        by (auto simp: exec_instruction_def exec_jump_def jump_unless_def split: sum.splits)
    qed simp_all
  next
    case same
    show ?thesis
    proof (cases "try_len (code ! p)")
      case (Some n)
      then show ?thesis using step try_outside by metis
    next
      case None
      obtain t' where new: "?q < length code'" "code' ! ?q = retarget t' (code ! p)"
        "\<forall>t. branch_target (code ! p) = Some t \<longrightarrow> (t, t') \<in> pc_map code"
        using new_retarget [OF round p(1) same None] by blast
      have "rel_exec (similar code code' (pc_map code)) (exec_instruction E p (code ! p) (m\<lparr>vm_pc := p + 1\<rparr>))
          (exec_instruction E ?q (code' ! ?q) (m'\<lparr>vm_pc := ?q + 1\<rparr>))"
        using core next_pc same new by (intro exec_similar [OF _ _ _ lt new(1,2)]) auto
      moreover have "vm_step E code' m' = exec_instruction E ?q (code' ! ?q) (m'\<lparr>vm_pc := ?q + 1\<rparr>)"
        using new(1) pc by (simp add: vm_step_def)
      ultimately show ?thesis using step by simp
    qed
  qed
qed

text \<open>A fused pair: the two old steps against what the pair is fused to.\<close>

definition pair_seq :: "'o value_ops \<Rightarrow> 'o instruction list \<Rightarrow> nat \<Rightarrow> 'o vm \<Rightarrow> 'o exec" where
  "pair_seq E code p m =
     then_exec (exec_instruction E p (code ! p) (m\<lparr>vm_pc := p + 2\<rparr>)) (exec_instruction E (p + 1) (code ! (p + 1)))"

lemma pair_exec:
  assumes "gt_zero_ok E" "pair_at code p"
  shows "(\<exists>e. pair_seq E code p m = Fail e) \<or>
    (case push_at code p of None \<Rightarrow> Next (m\<lparr>vm_pc := p + 2\<rparr>)
     | Some ins \<Rightarrow> exec_instruction E p ins (m\<lparr>vm_pc := p + 2\<rparr>)) = pair_seq E code p m"
proof -
  consider (pop) "fuse_pop_pair (code ! p) (code ! (p + 1)) = Some (push_at code p)"
    | (branch) ins where "push_at code p = Some ins" "fuse_branch_pair (code ! p) (code ! (p + 1)) = Some ins"
    using fuse_at_cases [of "try_boundaries code" code p] assms(2) by blast
  then show ?thesis
  proof cases
    case pop
    then show ?thesis using pop_pair_exec [OF pop] unfolding pair_seq_def by blast
  next
    case branch
    then show ?thesis using branch_pair_exec [OF branch(2) assms(1) refl] unfolding pair_seq_def by simp
  qed
qed

lemma pop_pair_shape:
  assumes "fuse_pop_pair a b = Some r"
  shows "branch_target a = None \<and> (case r of None \<Rightarrow> True | Some ins \<Rightarrow> try_len ins = None \<and>
      (\<forall>second name. cache_name second ins = Some name \<longrightarrow> cache_name second a = Some name))"
  using assms
proof (cases "(a, b)" rule: fuse_pop_pair.cases)
  case (2 s)
  then show ?thesis
    using assms by (cases s) (auto simp: branch_target_def try_len_def cache_name_def)
next
  case (3 x)
  then show ?thesis
    using assms by (cases x) (auto simp: branch_target_def try_len_def cache_name_def)
qed (auto simp: branch_target_def)

lemma branch_pair_shape:
  assumes "fuse_branch_pair a b = Some ins"
  shows "branch_target a = None \<and> try_len ins = None \<and>
      (\<forall>second name. cache_name second ins = Some name \<longrightarrow> cache_name second a = Some name)"
proof -
  obtain op left right t where ab: "a = I_BinaryOp op left right" "b = I_JumpIfFalse t"
    using assms by (cases "(a, b)" rule: fuse_branch_pair.cases) auto
  have "ins \<in> {I_JumpIfCmpFalse op left right t, I_JumpIfGE t} \<or> (\<exists>i. ins = I_JumpIfLEZLocal i t)"
    using assms unfolding ab
    by (auto split: binary_operator.splits operand.splits val.splits if_splits)
  then show ?thesis unfolding ab by (auto simp: branch_target_def try_len_def cache_name_def)
qed

lemma pair_shape:
  assumes "pair_at code p"
  shows "branch_target (code ! p) = None" "p + 1 < length code"
    "push_at code p = Some ins \<Longrightarrow> try_len ins = None \<and>
       (\<forall>second name. cache_name second ins = Some name \<longrightarrow> cache_name second (code ! p) = Some name)"
proof -
  show "p + 1 < length code" using fused_pair_bound [OF assms] by blast
  have "branch_target (code ! p) = None \<and> (case push_at code p of None \<Rightarrow> True | Some ins \<Rightarrow> try_len ins = None \<and>
      (\<forall>second name. cache_name second ins = Some name \<longrightarrow> cache_name second (code ! p) = Some name))"
    using fuse_at_cases [of "try_boundaries code" code p] assms pop_pair_shape branch_pair_shape
    by fastforce
  then show "branch_target (code ! p) = None"
    "push_at code p = Some ins \<Longrightarrow> try_len ins = None \<and>
       (\<forall>second name. cache_name second ins = Some name \<longrightarrow> cache_name second (code ! p) = Some name)"
    by simp_all
qed

lemma retarget_none: "branch_target ins = None \<Longrightarrow> retarget t ins = ins"
  by (rule retarget_self(2))

text \<open>The two steps as the interpreter takes them, and \<open>pair_seq\<close>.\<close>

lemma two_steps:
  assumes "caches_ok code m" "pair_at code p" "vm_pc m = p"
  shows "rel_exec (similar code code Id) (then_exec (vm_step E code m) (vm_step E code)) (pair_seq E code p m)"
proof -
  let ?P = "{(p + 1, p + 2)}"
  have lt: "p + 1 < length code" "p < length code" using pair_shape(2) [OF assms(2)] by simp_all
  have core: "same_core m m" by (simp add: same_core_def)
  have "rel_exec (similar code code ?P) (exec_instruction E p (code ! p) (m\<lparr>vm_pc := p + 1\<rparr>))
      (exec_instruction E p (code ! p) (m\<lparr>vm_pc := p + 2\<rparr>))"
    using pair_shape(1) [OF assms(2)]
    by (intro exec_similar [OF core assms(1,1) lt(2,2), of 0]) (simp_all add: retarget_none)
  moreover have "vm_step E code m = exec_instruction E p (code ! p) (m\<lparr>vm_pc := p + 1\<rparr>)"
    using assms(3) lt by (simp add: vm_step_def)
  ultimately have first: "rel_exec (similar code code ?P) (vm_step E code m)
      (exec_instruction E p (code ! p) (m\<lparr>vm_pc := p + 2\<rparr>))" by simp
  have second: "rel_exec (similar code code Id) (vm_step E code m1)
      (exec_instruction E (p + 1) (code ! (p + 1)) m2)" if "similar code code ?P m1 m2" for m1 m2
  proof -
    define t where "t = (case branch_target (code ! (p + 1)) of Some t \<Rightarrow> t | None \<Rightarrow> 0)"
    have t: "code ! (p + 1) = retarget t (code ! (p + 1))"
      by (cases "branch_target (code ! (p + 1))") (simp_all add: t_def retarget_self)
    have "rel_exec (similar code code Id)
        (exec_instruction E (p + 1) (code ! (p + 1)) (m1\<lparr>vm_pc := p + 2\<rparr>))
        (exec_instruction E (p + 1) (code ! (p + 1)) (m2\<lparr>vm_pc := p + 2\<rparr>))"
      using that by (intro exec_similar [OF _ _ _ lt(1,1) t]) (auto simp: similar_def t_def)
    moreover have "vm_step E code m1 =
        exec_instruction E (p + 1) (code ! (p + 1)) (m1\<lparr>vm_pc := p + 2\<rparr>)"
      using that lt by (simp add: similar_def vm_step_def)
    moreover have "m2\<lparr>vm_pc := p + 2\<rparr> = m2" using that by (simp add: similar_def)
    ultimately show ?thesis by simp
  qed
  show ?thesis
    using first second unfolding pair_seq_def
    by (cases "(similar code code ?P, vm_step E code m, exec_instruction E p (code ! p) (m\<lparr>vm_pc := p + 2\<rparr>))"
        rule: rel_exec.cases) (auto simp: then_exec_def)
qed

lemma same_core_trans: "same_core a b \<Longrightarrow> same_core b c \<Longrightarrow> same_core a c"
  by (simp add: same_core_def)

lemma rel_exec_trans:
  assumes "rel_exec K1 r1 r2" "rel_exec K2 r2 r3" "\<And>a b c. K1 a b \<Longrightarrow> K2 b c \<Longrightarrow> K3 a c"
  shows "rel_exec K3 r1 r3"
  using assms by (cases r1; cases r2; cases r3) auto

lemma sim_pair:
  assumes E: "gt_zero_ok E" and round: "fused_round code code'"
    and p: "p \<in> starts code" "pair_at code p" "vm_pc m = p"
    and sim: "similar code code' (pc_map code) m m'"
  defines "two \<equiv> then_exec (vm_step E code m) (vm_step E code)"
  shows "(\<exists>m1. two = Next m1 \<and> similar code code' (pc_map code) m1 m') \<or>
    rel_exec (similar code code' (pc_map code)) two (vm_step E code' m') \<or> (\<exists>e. two = Fail e)"
proof -
  let ?q = "new_index (kept_of code) p"
  have pc: "vm_pc m' = ?q" using sim p(3) by (auto simp: similar_def pc_map_def)
  note core = sim [unfolded similar_def]
  have next_pc: "(p + 2, ?q + (if push_at code p = None then 0 else 1)) \<in> pc_map code"
    using next_mapped [OF p(1)] p(2) by simp
  have steps: "rel_exec (similar code code Id) two (pair_seq E code p m)"
    unfolding two_def using core p by (intro two_steps) auto
  show ?thesis
  proof (cases "\<exists>e. pair_seq E code p m = Fail e")
    case True
    then show ?thesis using steps by (cases two) auto
  next
    case False
    note seq = pair_exec [OF E p(2), of m]
    show ?thesis
    proof (cases "push_at code p")
      case None
      then have "pair_seq E code p m = Next (m\<lparr>vm_pc := p + 2\<rparr>)" using seq False by auto
      then obtain m1 where m1: "two = Next m1" "similar code code Id m1 (m\<lparr>vm_pc := p + 2\<rparr>)"
        using steps by (cases two) auto
      then have "similar code code' (pc_map code) m1 m'"
        using core next_pc None pc by (simp add: similar_def same_core_def)
      with m1 show ?thesis by blast
    next
      case (Some ins)
      note shape = pair_shape(3) [OF p(2) Some]
      obtain t' where new: "?q < length code'" "code' ! ?q = retarget t' ins"
        "\<forall>t. branch_target ins = Some t \<longrightarrow> (t, t') \<in> pc_map code"
        using new_retarget [OF round p(1) Some] shape by blast
      have "entry_ok m (code ! p) p" "entry_ok m' (code' ! ?q) ?q"
        using core caches_entry starts_bound [OF p(1)] new(1) by blast+
      then have "entry_ok m ins p" "entry_ok m' ins ?q"
        using shape unfolding entry_ok_def new(2) retarget_cache_name by metis+
      then have start: "paired (pc_map code) p ?q ins (m\<lparr>vm_pc := p + 2\<rparr>) (m'\<lparr>vm_pc := ?q + 1\<rparr>)
          (m\<lparr>vm_pc := p + 2\<rparr>) (m'\<lparr>vm_pc := ?q + 1\<rparr>)"
        using core next_pc Some by (intro paired_start) (auto simp: caches_ok_def)
      have "vm_step E code' m' = exec_instruction E ?q (retarget t' ins) (m'\<lparr>vm_pc := ?q + 1\<rparr>)"
        using new(1,2) pc by (simp add: vm_step_def)
      with exec_instruction_paired [OF start new(3), of E] seq False Some
      have "rel_exec (paired (pc_map code) p ?q ins (m\<lparr>vm_pc := p + 2\<rparr>) (m'\<lparr>vm_pc := ?q + 1\<rparr>))
          (pair_seq E code p m) (vm_step E code' m')" by simp
      have "rel_exec (similar code code' (pc_map code)) two (vm_step E code' m')"
      proof (rule rel_exec_trans [OF steps \<open>rel_exec _ (pair_seq E code p m) _\<close>])
        fix a b c
        assume ab: "similar code code Id a b"
          and bc: "paired (pc_map code) p ?q ins (m\<lparr>vm_pc := p + 2\<rparr>) (m'\<lparr>vm_pc := ?q + 1\<rparr>) b c"
        have "caches_ok code' c"
        proof (rule follows_caches)
          show "follows ?q ins (m'\<lparr>vm_pc := ?q + 1\<rparr>) c" using bc unfolding paired_def by blast
          show "caches_ok code' (m'\<lparr>vm_pc := ?q + 1\<rparr>)" using core by simp
          show "\<forall>second. cache_name second (code' ! ?q) = cache_name second ins" by (simp add: new(2))
        qed (rule new(1))
        moreover have "same_core a c"
          using ab bc unfolding similar_def paired_def by (blast intro: same_core_trans)
        moreover have "(vm_pc a, vm_pc c) \<in> pc_map code" "caches_ok code a"
          using ab bc unfolding similar_def paired_def by simp_all
        ultimately show "similar code code' (pc_map code) a c" unfolding similar_def by simp
      qed
      then show ?thesis by blast
    qed
  qed
qed

lemma vm_run_Suc: "vm_run E code fuel m = Some r \<Longrightarrow> vm_run E code (Suc fuel) m = Some r"
proof (induction fuel arbitrary: m)
  case (Suc fuel)
  then show ?case by (cases "vm_step E code m") auto
qed simp

lemma run_two:
  assumes "vm_run E code fuel m = Some (Returned v)"
  obtains "then_exec (vm_step E code m) (vm_step E code) = Returned v"
  | m1 f where "then_exec (vm_step E code m) (vm_step E code) = Next m1" "f < fuel"
      "vm_run E code f m1 = Some (Returned v)"
proof (cases fuel)
  case (Suc f)
  show ?thesis
  proof (cases "vm_step E code m")
    case (Next m1)
    show ?thesis
    proof (cases f)
      case (Suc f2)
      then show ?thesis
        using that(1) that(2) [of _ f2] assms \<open>fuel = Suc f\<close> Next
        by (cases "vm_step E code m1") (simp_all add: then_exec_def)
    qed (use assms Suc Next in simp)
  qed (use that assms Suc in \<open>auto simp: then_exec_def\<close>)
qed (use assms in simp)

lemma simulation:
  assumes E: "gt_zero_ok E" and round: "fused_round code code'"
  shows "similar code code' (pc_map code) m m' \<Longrightarrow> vm_run E code fuel m = Some (Returned v) \<Longrightarrow>
    \<exists>fuel'. vm_run E code' fuel' m' = Some (Returned v)"
proof (induction fuel arbitrary: m m' rule: less_induct)
  case (less fuel)
  note sim = less.prems(1) and run = less.prems(2)
  obtain f where f: "fuel = Suc f" using run by (cases fuel) auto
  have stutter: "\<exists>fuel'. vm_run E code' fuel' m' = Some (Returned v)"
    if "similar code code' (pc_map code) m1 m'" "g < fuel" "vm_run E code g m1 = Some (Returned v)" for m1 g
    using less.IH [OF that(2,1,3)] .
  have one: "\<exists>fuel'. vm_run E code' fuel' m' = Some (Returned v)"
    if rel: "rel_exec (similar code code' (pc_map code)) r (vm_step E code' m')"
      and r: "r = Returned v \<or> (\<exists>m1 g. r = Next m1 \<and> g < fuel \<and> vm_run E code g m1 = Some (Returned v))" for r
    using r
  proof (elim disjE exE conjE)
    assume "r = Returned v"
    with rel have "vm_run E code' (Suc 0) m' = Some (Returned v)" by (cases "vm_step E code' m'") auto
    then show ?thesis ..
  next
    fix m1 g assume m1: "r = Next m1" "g < fuel" "vm_run E code g m1 = Some (Returned v)"
    then obtain m1' where m1': "vm_step E code' m' = Next m1'" "similar code code' (pc_map code) m1 m1'"
      using rel by (cases "vm_step E code' m'") auto
    obtain fuel' where "vm_run E code' fuel' m1' = Some (Returned v)"
      using less.IH [OF m1(2) m1'(2) m1(3)] by blast
    with m1' have "vm_run E code' (Suc fuel') m' = Some (Returned v)" by simp
    then show ?thesis ..
  qed
  consider (finish) "vm_pc m = length code" | (pair) "vm_pc m \<in> starts code" "pair_at code (vm_pc m)"
    | (single) "vm_pc m \<in> starts code" "\<not> pair_at code (vm_pc m)"
    using sim by (auto simp: similar_def pc_map_def)
  then show ?case
  proof cases
    case finish
    have "takeWhile (\<lambda>j. j < length code) (kept_of code) = kept_of code"
      using kept_steps_range [of _ "try_boundaries code" code 0] by (simp add: takeWhile_eq_all_conv)
    then have "new_index (kept_of code) (length code) = length (kept_of code)"
      by (simp only: new_index_def)
    then have "vm_pc m' = length code'"
      using sim finish round remap_code_spec(1) [of _ _ _ _ code'] starts_bound [of "length code" code]
      by (auto simp: similar_def pc_map_def fused_round_def)
    then have "vm_run E code' (Suc 0) m' = Some (Returned v)"
      using run f finish sim by (auto simp: vm_step_def similar_def same_core_def split: if_splits)
    then show ?thesis ..
  next
    case pair
    from sim_pair [OF E round pair refl sim] run_two [OF run] show ?thesis
      using stutter one by (metis exec.distinct exec.inject)
  next
    case single
    have "vm_step E code m = Returned v \<or>
        (\<exists>m1 g. vm_step E code m = Next m1 \<and> g < fuel \<and> vm_run E code g m1 = Some (Returned v))"
      using run f by (cases "vm_step E code m") auto
    with sim_single [OF round single refl sim, of E] show ?thesis
      using stutter one [of "vm_step E code m"] by auto
  qed
qed

section \<open>Properties\<close>

text \<open>C14: A round of the peephole pass preserves results: when no jump of the code leads to the second
  instruction of a fused pair, and the code, entered with any stack, locals, captures and globals,
  returns a value, then the fused code entered in the same way returns the same value.\<close>

theorem fuse_preserves_results:
  assumes "gt_zero_ok E" "code_ok code" "no_landing code" "globals_ok m"
    and "fuse_level False code spans marks = Some (code', spans', marks', True)"
    and "vm_run E code fuel (enter_code code m) = Some (Returned v)"
  shows "\<exists>fuel'. vm_run E code' fuel' (enter_code code' m) = Some (Returned v)"
proof (rule simulation [OF assms(1) _ _ assms(6)])
  have ne: "code \<noteq> []" using assms(5) by (auto simp: fuse_level_def)
  then show "fused_round code code'"
    using assms(2,3,5) by (auto simp: fused_round_def fuse_level_eq split: if_splits)
  have "0 \<in> starts code" using ne by (subst walk_steps.simps) simp
  then have "(0, 0) \<in> pc_map code"
    by (force simp: pc_map_def new_index_first)
  then show "similar code code' (pc_map code) (enter_code code m) (enter_code code' m)"
    using assms(4) by (simp add: similar_def same_core_def enter_code_def caches_ok_def globals_ok_def
        entry_ok_def cached_slot_def)
qed

theorem fuse_preserves_results_witness:
  "\<exists>code' fuel'. fst (the (fuse_level False
        [I_LoadConst (V_Int 3), I_StoreLocalKeep 0, I_Pop, I_BinaryOp Bin_Gt (O_Local 0) (O_Const (V_Int 0)),
         I_JumpIfFalse 6, I_LoadLocal 0, I_Return] [] [])) = code' \<and>
     vm_run int_core code' fuel' (enter_code code' (fresh_vm [Slot_Value (V_Int 0)] code')) =
       Some (Returned (V_Int 3))"
proof -
  let ?code = "[I_LoadConst (V_Int 3), I_StoreLocalKeep 0, I_Pop,
      I_BinaryOp Bin_Gt (O_Local 0) (O_Const (V_Int 0)), I_JumpIfFalse 6, I_LoadLocal 0, I_Return]"
  let ?new = "[I_LoadConst (V_Int 3), I_StoreLocal 0, I_JumpIfLEZLocal 0 4, I_LoadLocal 0, I_Return]
      :: unit instruction list"
  let ?m = "fresh_vm [Slot_Value (V_Int 0)] ?new"
  have "code_ok ?code"
    by (simp add: code_ok_def target_ok_def branch_target_def jump_operand_def)
  moreover have "no_landing ?code"
    by (auto simp: no_landing_def branch_target_def jump_operand_def less_Suc_eq at_defs)
  moreover have "gt_zero_ok int_core" "globals_ok ?m"
    by (simp_all add: gt_zero_ok_def int_core_def globals_ok_def fresh_vm_def)
  moreover  have level: "fuse_level False ?code [] [] = Some (?new, replicate 5 None, [], True)" by code_simp
  moreover have "vm_run int_core ?code 8 (enter_code ?code ?m) = Some (Returned (V_Int 3))" by code_simp
  ultimately obtain fuel' where run: "vm_run int_core ?new fuel' (enter_code ?new ?m) = Some (Returned (V_Int 3))"
    using fuse_preserves_results [of int_core ?code ?m] by blast
  show ?thesis using level run by (intro exI [of _ ?new] exI [of _ fuel']) simp
qed

text \<open>The code of such a conditional: \<open>7\<close>, the condition, the two branches, the \<open>Pop\<close>.\<close>

definition discarded_conditional :: "unit instruction list" where
  "discarded_conditional =
     [I_LoadConst (V_Int 7), I_LoadConst (V_Bool True), I_JumpIfFalse 5, I_LoadLocal 0, I_Jump 6,
      I_LoadConst empty_list, I_Pop, I_Return]"


text \<open>The fused comparison of a local with zero lets a NaN pass where the comparison itself fails.\<close>

theorem fuse_lez_nan:
  "\<exists>fused spans marks.
     fuse [I_BinaryOp Bin_Gt (O_Local 0) (O_Const (V_Int 0)), I_JumpIfFalse 3, I_LoadLocal 0, I_Return] [] [] =
       Some (fused, spans, marks) \<and>
     vm_run int_core [I_BinaryOp Bin_Gt (O_Local 0) (O_Const (V_Int 0)), I_JumpIfFalse 3, I_LoadLocal 0, I_Return]
       10 (fresh_vm [Slot_Value (V_Float 0x7ff8000000000000)] fused) = Some (Fail W_Domain) \<and>
     vm_run int_core fused 10 (fresh_vm [Slot_Value (V_Float 0x7ff8000000000000)] fused) =
       Some (Returned (V_Float 0x7ff8000000000000))"
proof -
  let ?code = "[I_BinaryOp Bin_Gt (O_Local 0) (O_Const (V_Int 0)), I_JumpIfFalse 3, I_LoadLocal 0, I_Return]"
  let ?fused = "[I_JumpIfLEZLocal 0 2, I_LoadLocal 0, I_Return] :: unit instruction list"
  have "fuse ?code [] [] = Some (?fused, replicate 3 None, [])" by code_simp
  moreover have "vm_run int_core ?code 10 (fresh_vm [Slot_Value (V_Float 0x7ff8000000000000)] ?fused) =
      Some (Fail W_Domain)" by code_simp
  moreover have "vm_run int_core ?fused 10 (fresh_vm [Slot_Value (V_Float 0x7ff8000000000000)] ?fused) =
      Some (Returned (V_Float 0x7ff8000000000000))"
  proof -
    have "\<not> f64_le_zero 0x7ff8000000000000"
      by (simp add: f64_le_zero_def f64_is_nan_def f64_is_finite_def)
    then show ?thesis
      by (simp add: eval_nat_numeral vm_step_def fresh_vm_def exec_instruction_def exec_jump_def
          local_slot_def slot_read_def exec_load_def read_local_target_def push_result_def push_def
          exec_misc_def)
  qed
  ultimately show ?thesis by blast
qed

end
