(* ===== verification/Vm_Int.thy ===== *)
theory Vm_Int
  imports Vm
begin

text \<open>
  The integer fast path of the interpreter computes the operators of the integers: where it
  returns an integer, the value is the exact one, and it declines exactly on overflow, on a zero
  divisor and on operators it does not know.
\<close>

lemma i64_sint_range: "- (2 ^ 63) \<le> sint (x :: i64)" "sint (x :: i64) < 2 ^ 63"
  using sint_range_size [of x] by (simp_all add: word_size)

lemma sint_word_of_int: "- (2 ^ 63) \<le> n \<Longrightarrow> n < 2 ^ 63 \<Longrightarrow> sint (word_of_int n :: i64) = n"
  by (simp add: sint_word_ariths signed_of_int signed_take_bit_int_eq_self)

lemma checked_Some: "checked n = Some v \<longleftrightarrow> - (2 ^ 63) \<le> n \<and> n < 2 ^ 63 \<and> v = V_Int (word_of_int n)"
  by (auto simp: checked_def)

lemma sint_xor_sign: "0 \<le> sint (xor l (r :: i64)) \<longleftrightarrow> (sint l < 0 \<longleftrightarrow> sint r < 0)"
  using bit_last_iff [of l] bit_last_iff [of r] bit_last_iff [of "xor l r"]
  by (auto simp: bit_simps not_less)

text \<open>Truncating division and remainder of the machine, in mathematical integers.\<close>

lemma sdiv_range:
  fixes l r :: i64
  assumes "sint r \<noteq> 0" "\<not> (sint l = - (2 ^ 63) \<and> sint r = - 1)"
  shows "sint (word_of_int (sint l sdiv sint r) :: i64) = sint l sdiv sint r"
proof (rule sint_word_of_int)
  have range: "- \<bar>sint l\<bar> \<le> sint l sdiv sint r" "sint l sdiv sint r \<le> \<bar>sint l\<bar>"
    using sdiv_int_range [of "sint l" "sint r"] by simp_all
  with i64_sint_range [of l] show "- (2 ^ 63) \<le> sint l sdiv sint r" by linarith
  show "sint l sdiv sint r < 2 ^ 63"
  proof (cases "sint l = - (2 ^ 63)")
    case False
    with range i64_sint_range [of l] show ?thesis by linarith
  next
    case True
    then have "sint l sdiv sint r \<noteq> - sint l"
      using assms int_sdiv_negated_is_minus1 [of "sint l" "sint r"] by auto
    with range i64_sint_range [of l] True show ?thesis by linarith
  qed
qed

lemma smod_range:
  fixes l r :: i64
  assumes "sint r \<noteq> 0"
  shows "sint (word_of_int (sint l smod sint r) :: i64) = sint l smod sint r"
proof (rule sint_word_of_int)
  have "- \<bar>sint r\<bar> + 1 \<le> sint l smod sint r" "sint l smod sint r \<le> \<bar>sint r\<bar> - 1"
    using smod_int_range [OF assms, of "sint l"] by simp_all
  with i64_sint_range [of r] show "- (2 ^ 63) \<le> sint l smod sint r" "sint l smod sint r < 2 ^ 63"
    by linarith+
qed

lemma smod_eq_0_iff: "(a :: int) smod b = 0 \<longleftrightarrow> b dvd a"
  by (auto simp: smod_int_alt_def sgn_if mod_eq_0_iff_dvd)

lemma floor_from_truncated:
  fixes a b :: int
  assumes "b \<noteq> 0"
  shows "a div b = (if a smod b = 0 \<or> (a < 0 \<longleftrightarrow> b < 0) then a sdiv b else a sdiv b - 1)"
  unfolding divide_int_eq_signed_divide_int smod_eq_0_iff
  using assms by (auto simp: sgn_if)

lemma i64_min_iff: "l = i64_min \<longleftrightarrow> sint (l :: i64) = - (2 ^ 63)"
proof -
  have "sint i64_min = - (2 ^ 63)" unfolding i64_min_def by (rule sint_word_of_int) simp_all
  then show ?thesis by (metis signed_word_eqI)
qed

lemma minus_one_iff: "r = - 1 \<longleftrightarrow> sint (r :: i64) = - 1"
  by (metis signed_word_eqI sint_n1)

lemma divisor_iff:
  "(r = 0 \<or> (l = i64_min \<and> r = - 1)) = (sint r = 0 \<or> (sint l = - (2 ^ 63) \<and> sint (r :: i64) = - 1))"
  by (simp only: i64_min_iff minus_one_iff signed_eq_0_iff)

lemma eval_int_floor_div:
  assumes "\<not> (sint r = 0 \<or> (sint l = - (2 ^ 63) \<and> sint r = - 1))"
  shows "\<exists>z. eval_int_binary E Bin_FloorDiv l r = Some (V_Int z) \<and> sint z = sint l div sint r"
proof -
  let ?q = "word_of_int (sint l sdiv sint r) :: i64" and ?m = "word_of_int (sint l smod sint r) :: i64"
  have q: "sint ?q = sint l sdiv sint r" and m: "sint ?m = sint l smod sint r"
    using assms sdiv_range smod_range by blast+
  have z: "?m = 0 \<longleftrightarrow> sint l smod sint r = 0" using m by (metis signed_eq_0_iff)
  have floor: "sint l div sint r =
      (if ?m = 0 \<or> 0 \<le> sint (xor l r) then sint ?q else sint ?q - 1)"
    unfolding q z sint_xor_sign using assms by (intro floor_from_truncated) simp
  have "sint (if ?m = 0 \<or> 0 \<le> sint (xor l r) then ?q else ?q - 1) = sint l div sint r"
  proof (cases "?m = 0 \<or> 0 \<le> sint (xor l r)")
    case False
    have range: "- \<bar>sint l\<bar> \<le> sint l sdiv sint r"
      using sdiv_int_range [of "sint l" "sint r"] by simp
    have "sint l sdiv sint r \<noteq> - (2 ^ 63)"
    proof
      assume min: "sint l sdiv sint r = - (2 ^ 63)"
      then have "sint l = sint l sdiv sint r"
        using range i64_sint_range [of l] by linarith
      with min int_sdiv_same_is_1 [of "sint l" "sint r"] have "sint r = 1" by auto
      then have "sint l smod sint r = 0" by (simp add: smod_int_alt_def)
      with False z show False by simp
    qed
    moreover have "- (2 ^ 63) \<le> sint l sdiv sint r" "sint l sdiv sint r < 2 ^ 63"
      using i64_sint_range [of ?q] unfolding q by simp_all
    ultimately have "sint (word_of_int (sint l sdiv sint r - 1) :: i64) = sint l sdiv sint r - 1"
      by (intro sint_word_of_int) linarith+
    with floor False q show ?thesis by (simp only: wi_hom_sub word_1_wi if_False)
  qed (use floor in simp)
  then show ?thesis
    using assms divisor_iff [of r l] by (auto simp: eval_int_binary_def Let_def)
qed

text \<open>C17: Integer arithmetic of the fast path is exact. Sums, differences and products that fit in 64
  bits are the mathematical ones and the others are declined; the remainder truncates towards
  zero and floor division rounds down, and both are declined exactly for a zero divisor and for
  the one quotient that does not fit.\<close>

theorem eval_int_binary_exact:
  "\<forall>op \<in> {Bin_Add, Bin_Subtract, Bin_Multiply, Bin_Modulo, Bin_FloorDiv}.
     let exact = (case op of
           Bin_Add \<Rightarrow> sint l + sint r | Bin_Subtract \<Rightarrow> sint l - sint r
         | Bin_Multiply \<Rightarrow> sint l * sint r
         | Bin_Modulo \<Rightarrow> sgn (sint l) * (\<bar>sint l\<bar> mod \<bar>sint r\<bar>)
         | _ \<Rightarrow> sint l div sint r);
       declined = (if op \<in> {Bin_Modulo, Bin_FloorDiv}
         then sint r = 0 \<or> (sint l = - (2 ^ 63) \<and> sint r = - 1)
         else \<not> (- (2 ^ 63) \<le> exact \<and> exact < 2 ^ 63)) in
     if declined then eval_int_binary E op l r = None
     else \<exists>z. eval_int_binary E op l r = Some (V_Int z) \<and> sint z = exact"
    (is "\<forall>op \<in> _. ?exact op")
proof -
  have arith: "if - (2 ^ 63) \<le> n \<and> n < 2 ^ 63 then \<exists>z. checked n = Some (V_Int z) \<and> sint z = n
      else checked n = None" for n
    by (simp add: checked_def sint_word_of_int)
  have modulo: "\<exists>z. eval_int_binary E Bin_Modulo l r = Some (V_Int z) \<and>
      sint z = sgn (sint l) * (\<bar>sint l\<bar> mod \<bar>sint r\<bar>)"
    if "\<not> (sint r = 0 \<or> (sint l = - (2 ^ 63) \<and> sint r = - 1))"
    using that divisor_iff [of r l] smod_range [of r l]
    by (auto simp: eval_int_binary_def smod_int_alt_def)
  have none: "eval_int_binary E Bin_Modulo l r = None" "eval_int_binary E Bin_FloorDiv l r = None"
    if "sint r = 0 \<or> (sint l = - (2 ^ 63) \<and> sint r = - 1)"
    using that divisor_iff [of r l] by (auto simp: eval_int_binary_def)
  show ?thesis
  proof
    fix op assume "op \<in> {Bin_Add, Bin_Subtract, Bin_Multiply, Bin_Modulo, Bin_FloorDiv}"
    then consider "op = Bin_Add" | "op = Bin_Subtract" | "op = Bin_Multiply" | "op = Bin_Modulo"
      | "op = Bin_FloorDiv" by auto
    then show "?exact op"
    proof cases
      case 1 then show ?thesis using arith [of "sint l + sint r"] by (auto simp: Let_def eval_int_binary_def split: if_splits)
    next
      case 2 then show ?thesis using arith [of "sint l - sint r"] by (auto simp: Let_def eval_int_binary_def split: if_splits)
    next
      case 3 then show ?thesis using arith [of "sint l * sint r"] by (auto simp: Let_def eval_int_binary_def split: if_splits)
    next
      case 4 then show ?thesis using modulo none by (simp add: Let_def)
    next
      case 5 then show ?thesis using eval_int_floor_div [of r l E] none by (simp add: Let_def)
    qed
  qed
qed

theorem eval_int_binary_exact_witness:
  "\<exists>z. eval_int_binary int_core Bin_FloorDiv (word_of_int (-7)) 2 = Some (V_Int z) \<and> sint z = -4"
  using eval_int_binary_exact [of "word_of_int (-7)" 2 int_core] by (simp add: Let_def)

end
