(* ===== verification/Cas_Data.thy ===== *)
theory Cas_Data
  imports Operators
begin

text \<open>
  Symbolic data of \<open>wqpl/src/value/cas.rs\<close> and the callable expressions of
  \<open>wqpl/src/value/func.rs\<close>. Both types contain values, so they are parametrised by the value
  type \<open>'v\<close>, which \<open>Value\<close> instantiates with itself. A \<open>CasSymbol\<close> is its name.
\<close>

datatype cas_op = CO_Add | CO_Subtract | CO_Multiply | CO_Divide | CO_Power

datatype cas_const = CC_Pi | CC_E | CC_Infinity | CC_NegInfinity | CC_Undefined

datatype cas_function =
    CF_Abs | CF_Sgn | CF_Sin | CF_Cos | CF_Tan | CF_Sec | CF_Csc | CF_Cot | CF_Erf | CF_Erfc
  | CF_Gamma | CF_LnGamma | CF_Si | CF_Ci | CF_Ei | CF_En | CF_EllPk | CF_EllPe | CF_EllIk
  | CF_EllIe | CF_Heaviside | CF_Delta | CF_Exp | CF_Ln | CF_Log | CF_Log2 | CF_Log10 | CF_Sqrt
  | CF_ArcSin | CF_ArcCos | CF_ArcTan | CF_ArcTan2 | CF_Sinh | CF_Cosh | CF_Tanh | CF_ArcSinh
  | CF_ArcCosh | CF_ArcTanh | CF_Floor | CF_Ceil | CF_Round

datatype limit_direction = LD_Right | LD_Left

datatype 'v cas_scope = CasScope (scope_body: 'v) (scope_hint: ustr)

datatype 'v cas_predicate =
    CP_Zero 'v | CP_NonZero 'v | CP_Positive 'v | CP_Negative 'v | CP_NonNegative 'v
  | CP_Real 'v | CP_Integer 'v

datatype 'v cas_kind =
    CK_Var ustr
  | CK_BoundVar u32
  | CK_Const cas_const
  | CK_Op cas_op "'v list"
  | CK_Function cas_function "'v list"
  | CK_Apply ustr "'v list"
  | CK_NamedArg ustr 'v
  | CK_Integral "'v cas_scope" "('v \<times> 'v) option"
  | CK_Limit "'v cas_scope" 'v "limit_direction option"
  | CK_Eq 'v 'v
  | CK_Predicate "'v cas_predicate"

datatype 'v callable_expr =
    CE_Const 'v
  | CE_Call 'v
  | CE_Unary unary_operator "'v callable_expr"
  | CE_Binary binary_operator "'v callable_expr" "'v callable_expr"

section \<open>Names\<close>

definition cas_op_symbol :: "cas_op \<Rightarrow> string" where
  "cas_op_symbol op = (case op of
     CO_Add \<Rightarrow> ''+'' | CO_Subtract \<Rightarrow> ''-'' | CO_Multiply \<Rightarrow> ''*'' | CO_Divide \<Rightarrow> ''/'' | CO_Power \<Rightarrow> ''^'')"

definition cas_const_from_name :: "ustr \<Rightarrow> cas_const option" where
  "cas_const_from_name name = map_of
    [(lit ''pi'', CC_Pi), (lit ''e'', CC_E), (lit ''inf'', CC_Infinity), (lit ''oo'', CC_Infinity),
     (lit ''-inf'', CC_NegInfinity), (lit ''-oo'', CC_NegInfinity), (lit ''_oo'', CC_NegInfinity),
     (lit ''undef'', CC_Undefined)] name"

definition cas_const_name :: "cas_const \<Rightarrow> string" where
  "cas_const_name c = (case c of
     CC_Pi \<Rightarrow> ''pi'' | CC_E \<Rightarrow> ''e'' | CC_Infinity \<Rightarrow> ''inf'' | CC_NegInfinity \<Rightarrow> ''-inf''
   | CC_Undefined \<Rightarrow> ''undef'')"

definition cas_function_arity :: "cas_function \<Rightarrow> nat" where
  "cas_function_arity f =
     (if f \<in> {CF_En, CF_EllIk, CF_EllIe, CF_Log, CF_ArcTan2} then 2 else 1)"

definition accepts_arity :: "cas_function \<Rightarrow> nat \<Rightarrow> bool" where
  "accepts_arity f arity \<longleftrightarrow> arity \<in> set [cas_function_arity f]"

definition cas_function_name :: "cas_function \<Rightarrow> string" where
  "cas_function_name f = (case f of
    CF_Abs \<Rightarrow> ''abs'' | CF_Sgn \<Rightarrow> ''sgn'' | CF_Sin \<Rightarrow> ''sin''
  | CF_Cos \<Rightarrow> ''cos'' | CF_Tan \<Rightarrow> ''tan'' | CF_Sec \<Rightarrow> ''sec''
  | CF_Csc \<Rightarrow> ''csc'' | CF_Cot \<Rightarrow> ''cot'' | CF_Erf \<Rightarrow> ''erf''
  | CF_Erfc \<Rightarrow> ''erfc'' | CF_Gamma \<Rightarrow> ''gamma''
  | CF_LnGamma \<Rightarrow> ''lngamma'' | CF_Si \<Rightarrow> ''si''
  | CF_Ci \<Rightarrow> ''ci'' | CF_Ei \<Rightarrow> ''ei'' | CF_En \<Rightarrow> ''en''
  | CF_EllPk \<Rightarrow> ''ellpk'' | CF_EllPe \<Rightarrow> ''ellpe''
  | CF_EllIk \<Rightarrow> ''ellik'' | CF_EllIe \<Rightarrow> ''ellie''
  | CF_Heaviside \<Rightarrow> ''heaviside'' | CF_Delta \<Rightarrow> ''delta''
  | CF_Exp \<Rightarrow> ''exp'' | CF_Ln \<Rightarrow> ''ln'' | CF_Log \<Rightarrow> ''log''
  | CF_Log2 \<Rightarrow> ''log2'' | CF_Log10 \<Rightarrow> ''log10''
  | CF_Sqrt \<Rightarrow> ''sqrt'' | CF_ArcSin \<Rightarrow> ''arcsin''
  | CF_ArcCos \<Rightarrow> ''arccos'' | CF_ArcTan \<Rightarrow> ''arctan''
  | CF_ArcTan2 \<Rightarrow> ''arctan2'' | CF_Sinh \<Rightarrow> ''sinh''
  | CF_Cosh \<Rightarrow> ''cosh'' | CF_Tanh \<Rightarrow> ''tanh''
  | CF_ArcSinh \<Rightarrow> ''arcsinh'' | CF_ArcCosh \<Rightarrow> ''arccosh''
  | CF_ArcTanh \<Rightarrow> ''arctanh'' | CF_Floor \<Rightarrow> ''floor''
  | CF_Ceil \<Rightarrow> ''ceil'' | CF_Round \<Rightarrow> ''round'')"

definition cas_function_from_name :: "ustr \<Rightarrow> cas_function option" where
  "cas_function_from_name name = map_of
   [(lit ''abs'', CF_Abs), (lit ''sgn'', CF_Sgn), (lit ''sin'', CF_Sin), (lit ''cos'', CF_Cos)
  , (lit ''tan'', CF_Tan), (lit ''sec'', CF_Sec), (lit ''csc'', CF_Csc), (lit ''cot'', CF_Cot)
  , (lit ''erf'', CF_Erf), (lit ''erfc'', CF_Erfc), (lit ''gamma'', CF_Gamma)
  , (lit ''lngamma'', CF_LnGamma), (lit ''si'', CF_Si), (lit ''ci'', CF_Ci), (lit ''ei'', CF_Ei)
  , (lit ''en'', CF_En), (lit ''ellpk'', CF_EllPk), (lit ''ellpe'', CF_EllPe)
  , (lit ''ellik'', CF_EllIk), (lit ''ellie'', CF_EllIe), (lit ''heaviside'', CF_Heaviside)
  , (lit ''delta'', CF_Delta), (lit ''exp'', CF_Exp), (lit ''ln'', CF_Ln), (lit ''log'', CF_Log)
  , (lit ''log2'', CF_Log2), (lit ''log10'', CF_Log10), (lit ''sqrt'', CF_Sqrt)
  , (lit ''arcsin'', CF_ArcSin), (lit ''arccos'', CF_ArcCos), (lit ''arctan'', CF_ArcTan)
  , (lit ''arctan2'', CF_ArcTan2), (lit ''sinh'', CF_Sinh), (lit ''cosh'', CF_Cosh)
  , (lit ''tanh'', CF_Tanh), (lit ''arcsinh'', CF_ArcSinh), (lit ''arccosh'', CF_ArcCosh)
  , (lit ''arctanh'', CF_ArcTanh), (lit ''floor'', CF_Floor), (lit ''ceil'', CF_Ceil)
  , (lit ''round'', CF_Round)] name"

lemma cas_const_name_round_trip: "cas_const_from_name (lit (cas_const_name c)) = Some c"
  by (cases c; hypsubst; code_simp)

definition predicate_name :: "'v cas_predicate \<Rightarrow> string" where
  "predicate_name p = (case p of
     CP_Zero _ \<Rightarrow> ''zero'' | CP_NonZero _ \<Rightarrow> ''nonzero'' | CP_Positive _ \<Rightarrow> ''positive''
   | CP_Negative _ \<Rightarrow> ''negative'' | CP_NonNegative _ \<Rightarrow> ''nonnegative'' | CP_Real _ \<Rightarrow> ''real''
   | CP_Integer _ \<Rightarrow> ''integer'')"

definition predicate_expr :: "'v cas_predicate \<Rightarrow> 'v" where
  "predicate_expr p = (case p of
     CP_Zero e \<Rightarrow> e | CP_NonZero e \<Rightarrow> e | CP_Positive e \<Rightarrow> e | CP_Negative e \<Rightarrow> e
   | CP_NonNegative e \<Rightarrow> e | CP_Real e \<Rightarrow> e | CP_Integer e \<Rightarrow> e)"

definition with_expr :: "'v cas_predicate \<Rightarrow> 'w \<Rightarrow> 'w cas_predicate" where
  "with_expr p e = (case p of
     CP_Zero _ \<Rightarrow> CP_Zero e | CP_NonZero _ \<Rightarrow> CP_NonZero e | CP_Positive _ \<Rightarrow> CP_Positive e
   | CP_Negative _ \<Rightarrow> CP_Negative e | CP_NonNegative _ \<Rightarrow> CP_NonNegative e | CP_Real _ \<Rightarrow> CP_Real e
   | CP_Integer _ \<Rightarrow> CP_Integer e)"

end
