(* ===== verification/Int_Range.thy ===== *)
theory Int_Range
  imports Prelude
begin

text \<open>
  Virtual integer ranges: \<open>IntRangeData\<close> and its double-ended iterator
  (\<open>wqpl/src/value/seq.rs\<close>), and the affine image of a range
  (\<open>affine_int_range\<close> of \<open>wqpl/src/value/op/arith.rs\<close>). An \<open>i64\<close> is a 64-bit word read
  with \<open>sint\<close>; a checked operation returns \<open>None\<close> when the exact result leaves the type.
\<close>

section \<open>Checked machine arithmetic\<close>

definition fits_i64 :: "int \<Rightarrow> bool" where
  "fits_i64 n \<longleftrightarrow> - (2 ^ 63) \<le> n \<and> n < 2 ^ 63"

definition to_i64 :: "int \<Rightarrow> i64 option" where
  "to_i64 n = (if fits_i64 n then Some (word_of_int n) else None)"

definition to_i128 :: "int \<Rightarrow> int option" where
  "to_i128 n = (if - (2 ^ 127) \<le> n \<and> n < 2 ^ 127 then Some n else None)"

definition checked_add :: "i64 \<Rightarrow> i64 \<Rightarrow> i64 option" where
  "checked_add a b = to_i64 (sint a + sint b)"

definition checked_sub :: "i64 \<Rightarrow> i64 \<Rightarrow> i64 option" where
  "checked_sub a b = to_i64 (sint a - sint b)"

definition checked_mul :: "i64 \<Rightarrow> i64 \<Rightarrow> i64 option" where
  "checked_mul a b = to_i64 (sint a * sint b)"

definition checked_neg :: "i64 \<Rightarrow> i64 option" where
  "checked_neg a = to_i64 (- sint a)"

lemma sint_range: "- (2 ^ 63) \<le> sint (a :: i64) \<and> sint a < 2 ^ 63"
  using sint_greater_eq [of a] sint_less [of a] by simp

lemma fits_sint [simp]: "fits_i64 (sint (a :: i64))"
  using sint_range [of a] by (simp add: fits_i64_def)

lemma sint_of_int: "fits_i64 n \<Longrightarrow> sint (word_of_int n :: i64) = n"
  unfolding fits_i64_def by (simp add: sint_sbintrunc' signed_take_bit_int_eq_self)

lemma word_of_sint [simp]: "word_of_int (sint (a :: i64)) = a"
  by simp

lemma to_i64_Some: "to_i64 n = Some w \<longleftrightarrow> fits_i64 n \<and> sint w = n"
  unfolding to_i64_def using sint_of_int [of n] by auto

lemma to_i64_None: "to_i64 n = None \<longleftrightarrow> \<not> fits_i64 n"
  unfolding to_i64_def by auto

lemma to_i64_sint [simp]: "to_i64 (sint a) = Some a"
  unfolding to_i64_Some by simp

lemma fits_between: "fits_i64 a \<Longrightarrow> fits_i64 b \<Longrightarrow> a \<le> n \<Longrightarrow> n \<le> b \<Longrightarrow> fits_i64 n"
  unfolding fits_i64_def by linarith

section \<open>IntRangeData\<close>

record int_range =
  ir_start :: i64
  ir_step :: i64
  ir_len :: nat

definition new_int_range :: "i64 \<Rightarrow> i64 \<Rightarrow> nat \<Rightarrow> int_range" where
  "new_int_range start step len = \<lparr>ir_start = start, ir_step = step, ir_len = len\<rparr>"

definition ir_get :: "int_range \<Rightarrow> nat \<Rightarrow> i64 option" where
  "ir_get r idx =
     (if ir_len r \<le> idx then None
      else Option.bind (to_i128 (int idx)) (\<lambda>i.
             Option.bind (to_i128 (sint (ir_step r) * i)) (\<lambda>p.
               Option.bind (to_i128 (sint (ir_start r) + p)) to_i64)))"

definition last_value :: "int_range \<Rightarrow> i64 option" where
  "last_value r = (if ir_len r = 0 then None else ir_get r (ir_len r - 1))"

record int_range_iter =
  it_next :: i64
  it_back :: i64
  it_step :: i64
  it_remaining :: nat

definition ir_iter :: "int_range \<Rightarrow> int_range_iter" where
  "ir_iter r = \<lparr>it_next = ir_start r,
     it_back = (case last_value r of Some v \<Rightarrow> v | None \<Rightarrow> ir_start r),
     it_step = ir_step r, it_remaining = ir_len r\<rparr>"

definition iter_next :: "int_range_iter \<Rightarrow> (i64 \<times> int_range_iter) option" where
  "iter_next it =
     (if it_remaining it = 0 then None
      else let it' = it\<lparr>it_remaining := it_remaining it - 1\<rparr> in
        Some (it_next it,
          if 0 < it_remaining it' then it'\<lparr>it_next := it_next it + it_step it\<rparr> else it'))"

definition iter_next_back :: "int_range_iter \<Rightarrow> (i64 \<times> int_range_iter) option" where
  "iter_next_back it =
     (if it_remaining it = 0 then None
      else let it' = it\<lparr>it_remaining := it_remaining it - 1\<rparr> in
        Some (it_back it,
          if 0 < it_remaining it' then it'\<lparr>it_back := it_back it - it_step it\<rparr> else it'))"

lemma iter_next_remaining:
  "iter_next it = Some (v, it') \<Longrightarrow> it_remaining it' < it_remaining it"
  by (auto simp: iter_next_def Let_def split: if_splits)

lemma iter_next_back_remaining:
  "iter_next_back it = Some (v, it') \<Longrightarrow> it_remaining it' < it_remaining it"
  by (auto simp: iter_next_back_def Let_def split: if_splits)

function iter_collect :: "int_range_iter \<Rightarrow> i64 list" where
  "iter_collect it =
     (case iter_next it of None \<Rightarrow> [] | Some (v, it') \<Rightarrow> v # iter_collect it')"
  by pat_completeness auto
termination by (relation "measure it_remaining") (auto dest: iter_next_remaining)

declare iter_collect.simps [simp del]

definition ir_to_vec :: "int_range \<Rightarrow> i64 list" where
  "ir_to_vec r = iter_collect (ir_iter r)"

definition ir_reversed :: "int_range \<Rightarrow> int_range option" where
  "ir_reversed r =
     (if ir_len r \<le> 1 then Some r
      else Option.bind (last_value r) (\<lambda>v.
             Option.bind (checked_neg (ir_step r)) (\<lambda>s. Some (new_int_range v s (ir_len r)))))"

definition affine_int_range :: "int_range \<Rightarrow> i64 \<Rightarrow> i64 \<Rightarrow> int_range option" where
  "affine_int_range r scale offset =
     (if ir_len r = 0 then Some (new_int_range 0 1 0)
      else Option.bind (checked_mul (ir_step r) scale) (\<lambda>step.
        if step = 0 then None
        else Option.bind (Option.bind (checked_mul (ir_start r) scale) (\<lambda>a. checked_add a offset)) (\<lambda>start.
          Option.bind (Option.bind (last_value r)
              (\<lambda>l. Option.bind (checked_mul l scale) (\<lambda>a. checked_add a offset))) (\<lambda>_.
            Some (new_int_range start step (ir_len r))))))"

lemma iter_collect_None: "iter_next it = None \<Longrightarrow> iter_collect it = []"
  by (subst iter_collect.simps) simp

lemma iter_collect_Some: "iter_next it = Some (v, it') \<Longrightarrow> iter_collect it = v # iter_collect it'"
  by (subst iter_collect.simps) simp

lemma length_iter_collect: "length (iter_collect it) = it_remaining it"
proof (induction it rule: measure_induct_rule [of it_remaining])
  case (less it)
  show ?case
  proof (cases "iter_next it")
    case None
    then show ?thesis by (simp add: iter_collect_None) (simp add: iter_next_def Let_def split: if_splits)
  next
    case (Some p)
    obtain v it' where p: "iter_next it = Some (v, it')" using Some by (cases p) simp
    have "it_remaining it = Suc (it_remaining it')"
      using p by (auto simp: iter_next_def Let_def split: if_splits)
    then show ?thesis using less [of it'] by (simp add: iter_collect_Some [OF p])
  qed
qed

lemma length_ir_to_vec [simp]: "length (ir_to_vec r) = ir_len r"
  by (simp add: ir_to_vec_def length_iter_collect ir_iter_def)

section \<open>Elements of a range\<close>

text \<open>The elements as exact integers, and the ranges whose elements are all machine integers.\<close>

definition elem :: "int_range \<Rightarrow> nat \<Rightarrow> int" where
  "elem r i = sint (ir_start r) + int i * sint (ir_step r)"

definition range_ok :: "int_range \<Rightarrow> bool" where
  "range_ok r \<longleftrightarrow> ir_step r \<noteq> 0 \<and> (0 < ir_len r \<longrightarrow> fits_i64 (elem r (ir_len r - 1)))"

definition ir_elems :: "int_range \<Rightarrow> i64 list" where
  "ir_elems r = map (\<lambda>i. word_of_int (elem r i)) [0..<ir_len r]"

lemma elem_between:
  assumes "i \<le> j"
  shows "(elem r 0 \<le> elem r i \<and> elem r i \<le> elem r j) \<or> (elem r j \<le> elem r i \<and> elem r i \<le> elem r 0)"
proof (cases "0 \<le> sint (ir_step r)")
  case True
  then have "0 \<le> int i * sint (ir_step r)" "int i * sint (ir_step r) \<le> int j * sint (ir_step r)"
    using assms by (simp_all add: mult_right_mono)
  then show ?thesis unfolding elem_def by simp
next
  case False
  then have "int i * sint (ir_step r) \<le> 0" "int j * sint (ir_step r) \<le> int i * sint (ir_step r)"
    using assms by (simp_all add: mult_right_mono_neg mult_nonneg_nonpos)
  then show ?thesis unfolding elem_def by simp
qed

lemma elem_fits:
  assumes ok: "range_ok r" and i: "i < ir_len r"
  shows "fits_i64 (elem r i)"
proof -
  have "fits_i64 (elem r (ir_len r - 1))" using ok i unfolding range_ok_def by auto
  moreover have "fits_i64 (elem r 0)" unfolding elem_def by simp
  moreover have "i \<le> ir_len r - 1" using i by simp
  ultimately show ?thesis using elem_between [of i "ir_len r - 1" r] fits_between by blast
qed

lemma step_nonzero: "range_ok r \<Longrightarrow> sint (ir_step r) \<noteq> 0"
  unfolding range_ok_def using word_of_sint [of "ir_step r"] by (metis of_int_0)

lemma index_bound:
  assumes ok: "range_ok r" and i: "i < ir_len r"
  shows "int i < 2 ^ 64"
proof -
  have "fits_i64 (elem r i)" by (rule elem_fits [OF ok i])
  moreover have "fits_i64 (elem r 0)" by (simp add: elem_def)
  ultimately have "\<bar>int i * sint (ir_step r)\<bar> < 2 ^ 64" unfolding elem_def fits_i64_def by (simp add: abs_if)
  moreover have "1 \<le> \<bar>sint (ir_step r)\<bar>" using step_nonzero [OF ok] by linarith
  then have "int i * 1 \<le> int i * \<bar>sint (ir_step r)\<bar>" by (intro mult_left_mono) auto
  ultimately show ?thesis by (simp add: abs_mult)
qed

lemma i128_of_i64: "fits_i64 n \<Longrightarrow> to_i128 n = Some n"
  unfolding to_i128_def fits_i64_def by auto

lemma ir_get_elem:
  assumes ok: "range_ok r" and i: "i < ir_len r"
  shows "ir_get r i = Some (word_of_int (elem r i))"
proof -
  have fit: "fits_i64 (elem r i)" by (rule elem_fits [OF ok i])
  have idx: "to_i128 (int i) = Some (int i)" using index_bound [OF ok i] unfolding to_i128_def by simp
  have "fits_i64 (elem r 0)" unfolding elem_def by simp
  with fit have "- (2 ^ 64) \<le> int i * sint (ir_step r) \<and> int i * sint (ir_step r) < 2 ^ 64"
    unfolding elem_def fits_i64_def by auto
  then have prod: "to_i128 (sint (ir_step r) * int i) = Some (sint (ir_step r) * int i)"
    unfolding to_i128_def by (auto simp: mult.commute)
  have sum: "sint (ir_start r) + sint (ir_step r) * int i = elem r i" unfolding elem_def by (simp add: mult.commute)
  show ?thesis using i fit
    by (simp add: ir_get_def idx prod sum i128_of_i64 to_i64_def)
qed

lemma ir_get_None: "ir_len r \<le> i \<Longrightarrow> ir_get r i = None"
  by (simp add: ir_get_def)

lemma last_value_elem:
  "range_ok r \<Longrightarrow> 0 < ir_len r \<Longrightarrow> last_value r = Some (word_of_int (elem r (ir_len r - 1)))"
  by (simp add: last_value_def ir_get_elem)

section \<open>The iterator\<close>

text \<open>What is left to be delivered, and the invariant that ties the two ends together.\<close>

definition pending :: "int_range_iter \<Rightarrow> i64 list" where
  "pending it = map (\<lambda>i. it_next it + of_nat i * it_step it) [0..<it_remaining it]"

definition iter_ok :: "int_range_iter \<Rightarrow> bool" where
  "iter_ok it \<longleftrightarrow> (0 < it_remaining it \<longrightarrow>
     it_back it = it_next it + of_nat (it_remaining it - 1) * it_step it)"

lemma pending_Nil: "it_remaining it = 0 \<Longrightarrow> pending it = []"
  by (simp add: pending_def)

lemma iter_next_pending:
  assumes "iter_ok it"
  shows "case iter_next it of
      None \<Rightarrow> pending it = []
    | Some (v, it') \<Rightarrow> pending it = v # pending it' \<and> iter_ok it'"
proof (cases "it_remaining it")
  case 0
  then show ?thesis by (simp add: iter_next_def pending_def)
next
  case (Suc n)
  have "pending it = it_next it # map (\<lambda>i. it_next it + of_nat (Suc i) * it_step it) [0..<n]"
    unfolding pending_def Suc map_upt_Suc by simp
  then show ?thesis using assms Suc
    by (auto simp: iter_next_def pending_def iter_ok_def Let_def algebra_simps)
qed

lemma iter_next_back_pending:
  assumes "iter_ok it"
  shows "case iter_next_back it of
      None \<Rightarrow> pending it = []
    | Some (v, it') \<Rightarrow> pending it = pending it' @ [v] \<and> iter_ok it'"
proof (cases "it_remaining it")
  case 0
  then show ?thesis by (simp add: iter_next_back_def pending_def)
next
  case (Suc n)
  then show ?thesis using assms
    by (cases n) (auto simp: iter_next_back_def pending_def iter_ok_def Let_def algebra_simps)
qed

lemma iter_collect_pending: "iter_ok it \<Longrightarrow> iter_collect it = pending it"
proof (induction it rule: iter_collect.induct)
  case (1 it)
  show ?case using iter_next_pending [OF 1(2)] 1(1)
    by (subst iter_collect.simps) (auto split: option.splits)
qed

lemma elem_word: "word_of_int (elem r i) = ir_start r + of_nat i * ir_step r"
  by (simp add: elem_def)

lemma ir_iter_ok: "range_ok r \<Longrightarrow> iter_ok (ir_iter r)"
  by (cases "ir_len r") (simp_all add: iter_ok_def ir_iter_def last_value_elem elem_word)

lemma pending_ir_iter: "pending (ir_iter r) = ir_elems r"
  by (simp add: pending_def ir_iter_def ir_elems_def elem_word)

lemma ir_to_vec_elems: "range_ok r \<Longrightarrow> ir_to_vec r = ir_elems r"
  by (simp add: ir_to_vec_def iter_collect_pending ir_iter_ok pending_ir_iter)

lemma length_ir_elems [simp]: "length (ir_elems r) = ir_len r"
  by (simp add: ir_elems_def)

lemma nth_ir_elems: "i < ir_len r \<Longrightarrow> ir_elems r ! i = word_of_int (elem r i)"
  by (simp add: ir_elems_def)

lemma ir_get_nth:
  "range_ok r \<Longrightarrow> ir_get r i = (if i < ir_len r then Some (ir_elems r ! i) else None)"
  by (simp add: ir_get_elem ir_get_None nth_ir_elems)

text \<open>Pulling from both ends in any order: \<open>True\<close> asks for the front.\<close>

fun pull :: "bool list \<Rightarrow> int_range_iter \<Rightarrow> i64 list \<times> i64 list \<times> int_range_iter" where
  "pull [] it = ([], [], it)"
| "pull (front # ds) it =
     (case (if front then iter_next it else iter_next_back it) of
        None \<Rightarrow> pull ds it
      | Some (v, it') \<Rightarrow>
          (case pull ds it' of (fs, bs, it'') \<Rightarrow>
             if front then (v # fs, bs, it'') else (fs, v # bs, it'')))"

lemma pull_pending:
  "iter_ok it \<Longrightarrow> pull ds it = (fs, bs, it') \<Longrightarrow> iter_ok it' \<and> pending it = fs @ pending it' @ rev bs"
proof (induction ds it arbitrary: fs bs it' rule: pull.induct)
  case (2 front ds it)
  then show ?case
    using iter_next_pending [OF 2(3)] iter_next_back_pending [OF 2(3)]
    by (cases front) (fastforce split: option.splits prod.splits)+
qed auto

text \<open>However a consumer interleaves \<open>next\<close> and \<open>next_back\<close> on the iterator of a range,
  it sees the elements of the range from the two ends: what the front delivered, what is still
  pending and the reverse of what the back delivered are together the exact arithmetic
  progression, so nothing is skipped, repeated or wrapped.\<close>

theorem range_iter_double_ended:
  assumes "range_ok r" and "pull ds (ir_iter r) = (fs, bs, it)"
  shows "map sint (fs @ pending it @ rev bs) = map (elem r) [0..<ir_len r]"
proof -
  have "fs @ pending it @ rev bs = ir_elems r"
    using pull_pending [OF ir_iter_ok [OF assms(1)] assms(2)] pending_ir_iter by simp
  then show ?thesis using elem_fits [OF assms(1)]
    by (simp only: ir_elems_def map_map) (simp add: sint_of_int)
qed

theorem range_iter_double_ended_witness:
  "map sint [2, 5, 8, 11 :: i64] = map (elem (new_int_range 2 3 4)) [0..<4]"
  using range_iter_double_ended [of "new_int_range 2 3 4" "[True, False]" "[2]" "[11]"
      "\<lparr>it_next = 5, it_back = 8, it_step = 3, it_remaining = 2\<rparr>"]
  by (simp add: new_int_range_def range_ok_def elem_def fits_i64_def ir_iter_def last_value_def
      ir_get_def to_i128_def to_i64_def iter_next_def iter_next_back_def pending_def Let_def upt_rec)

lemma range_ok_Nil: "step \<noteq> 0 \<Longrightarrow> range_ok (new_int_range start step 0)"
  by (simp add: range_ok_def new_int_range_def)

lemma ir_elems_Nil: "ir_len r = 0 \<Longrightarrow> ir_elems r = []"
  by (simp add: ir_elems_def)

text \<open>Reversal and affine images are the reversal and the image of the elements.\<close>

lemma ir_reversed_elems:
  assumes ok: "range_ok r" and rev: "ir_reversed r = Some r'"
  shows "range_ok r' \<and> ir_elems r' = rev (ir_elems r)"
proof (cases "ir_len r \<le> 1")
  case True
  then have "ir_elems r = rev (ir_elems r)" by (cases "ir_len r") (auto simp: ir_elems_def)
  then show ?thesis using True ok rev by (simp add: ir_reversed_def)
next
  case False
  let ?n = "ir_len r"
  from False have pos: "0 < ?n" by simp
  obtain s where s: "checked_neg (ir_step r) = Some s" and
    r': "r' = new_int_range (word_of_int (elem r (?n - 1))) s ?n"
    using rev False by (auto simp: ir_reversed_def last_value_elem [OF ok pos] split: Option.bind_splits)
  have neg: "sint s = - sint (ir_step r)" using s unfolding checked_neg_def to_i64_Some by simp
  have last: "sint (word_of_int (elem r (?n - 1)) :: i64) = elem r (?n - 1)"
    by (rule sint_of_int, rule elem_fits [OF ok]) (use pos in simp)
  have el: "elem r' i = elem r (?n - 1 - i)" if "i < ?n" for i
  proof -
    have "elem r' i = elem r (?n - 1) - int i * sint (ir_step r)"
      unfolding r' elem_def [of "new_int_range _ _ _"] by (simp add: new_int_range_def neg last [simplified])
    then show ?thesis using that pos by (simp add: elem_def of_nat_diff algebra_simps)
  qed
  have "elem r' (?n - 1) = sint (ir_start r)" using el [of "?n - 1"] pos by (simp add: elem_def)
  moreover have "s \<noteq> 0" using neg step_nonzero [OF ok] by auto
  moreover have len: "ir_len r' = ?n" by (simp add: r' new_int_range_def)
  ultimately have "range_ok r'" by (simp add: range_ok_def r' new_int_range_def)
  moreover have "ir_elems r' = rev (ir_elems r)"
    by (rule nth_equalityI) (auto simp: len nth_ir_elems rev_nth el)
  ultimately show ?thesis by simp
qed

lemma affine_int_range_elems:
  assumes ok: "range_ok r" and aff: "affine_int_range r scale offset = Some r'"
  shows "range_ok r' \<and> map sint (ir_elems r') = map (\<lambda>x. sint x * sint scale + sint offset) (ir_elems r)"
proof (cases "ir_len r = 0")
  case True
  then show ?thesis using aff
    by (simp add: affine_int_range_def range_ok_Nil ir_elems_Nil)
      (auto simp: new_int_range_def range_ok_def ir_elems_def)
next
  case False
  let ?n = "ir_len r"
  from False have pos: "0 < ?n" by simp
  obtain step a start where step: "checked_mul (ir_step r) scale = Some step" "step \<noteq> 0" and
    a: "checked_mul (ir_start r) scale = Some a" "checked_add a offset = Some start" and
    l: "Option.bind (checked_mul (word_of_int (elem r (?n - 1))) scale) (\<lambda>a. checked_add a offset) \<noteq> None" and
    r': "r' = new_int_range start step ?n"
    using aff False
    by (auto simp: affine_int_range_def last_value_elem [OF ok pos] split: Option.bind_splits if_splits)
  have stepv: "sint step = sint (ir_step r) * sint scale" and
    startv: "sint start = sint (ir_start r) * sint scale + sint offset"
    using step a unfolding checked_mul_def checked_add_def to_i64_Some by auto
  have last: "sint (word_of_int (elem r (?n - 1)) :: i64) = elem r (?n - 1)"
    by (rule sint_of_int, rule elem_fits [OF ok]) (use pos in simp)
  have el: "elem r' i = elem r i * sint scale + sint offset" for i
    by (simp add: r' elem_def new_int_range_def stepv startv algebra_simps)
  have len: "ir_len r' = ?n" by (simp add: r' new_int_range_def)
  have "fits_i64 (elem r' (?n - 1))"
    using l unfolding el checked_mul_def checked_add_def last
    by (auto simp: to_i64_None to_i64_Some split: Option.bind_splits)
  then have ok': "range_ok r'" using step(2) by (simp add: range_ok_def len) (simp add: r' new_int_range_def)
  have "map sint (ir_elems r') = map (\<lambda>x. sint x * sint scale + sint offset) (ir_elems r)"
  proof (rule nth_equalityI)
    fix i assume "i < length (map sint (ir_elems r'))"
    then have i: "i < ?n" by (simp add: len)
    have "sint (ir_elems r' ! i) = elem r' i" "sint (ir_elems r ! i) = elem r i"
      using i by (simp_all only: nth_ir_elems len sint_of_int elem_fits [OF ok] elem_fits [OF ok'])
    then show "map sint (ir_elems r') ! i = map (\<lambda>x. sint x * sint scale + sint offset) (ir_elems r) ! i"
      using i by (simp add: len el)
  qed (simp add: len)
  with ok' show ?thesis by simp
qed

end
