(* ===== verification/Value.thy ===== *)
theory Value
  imports Cas_Data Int_Range WqError
begin

text \<open>
  Values: \<open>enum Value\<close> and its classification (\<open>wqpl/src/value.rs\<close>), the borrowed sequence
  views and the list builder (\<open>wqpl/src/value/seq.rs\<close>), and conversions
  (\<open>wqpl/src/value/convert.rs\<close>). One constructor per variant. An \<open>Arc\<close> that is compared
  by address (functions, cells, generators, streams) is the number of its allocation; any other
  \<open>Arc\<close> is its content. An arbitrary-precision integer is an \<open>int\<close>, a \<open>Ratio\<close> its numerator and
  denominator, an \<open>IndexMap\<close> its entries in insertion order, and the field of an algebraic number
  the number of its class under the derived equality of \<open>AlgebraicField\<close>.
\<close>

datatype wq_value =
    VInt i64
  | VBigInt int
  | VFloat f64
  | VComplex f64 f64
  | VFraction int int
  | VAlgebraic nat "wq_value list"
  | VChar uchar
  | VTag ustr
  | VBool bool
  | VIntList "i64 list"
  | VIntRange int_range
  | VFloatList "f64 list"
  | VBoolList "bool list"
  | VList "wq_value list"
  | VString ustr
  | VCas "wq_value cas_kind"
  | VDict "(ustr \<times> wq_value) list"
  | VCompiledFunction nat
  | VClosure nat "nat list"
  | VBuiltinFunction ustr u16
  | VLiftedCallable "wq_value callable_expr"
  | VRng nat
  | VStream nat

section \<open>Categories and kinds\<close>

datatype value_category =
    Cat_Int | Cat_Float | Cat_Complex | Cat_Fraction | Cat_Algebraic | Cat_Char | Cat_Tag | Cat_Bool
  | Cat_List | Cat_Cas | Cat_Dict | Cat_Function | Cat_Rng | Cat_Stream

definition category_name :: "value_category \<Rightarrow> string" where
  "category_name c = (case c of
     Cat_Int \<Rightarrow> ''int'' | Cat_Float \<Rightarrow> ''float'' | Cat_Complex \<Rightarrow> ''complex'' | Cat_Fraction \<Rightarrow> ''fraction''
   | Cat_Algebraic \<Rightarrow> ''algebraic'' | Cat_Char \<Rightarrow> ''char'' | Cat_Tag \<Rightarrow> ''tag'' | Cat_Bool \<Rightarrow> ''bool''
   | Cat_List \<Rightarrow> ''list'' | Cat_Cas \<Rightarrow> ''cas'' | Cat_Dict \<Rightarrow> ''dict'' | Cat_Function \<Rightarrow> ''function''
   | Cat_Rng \<Rightarrow> ''rng'' | Cat_Stream \<Rightarrow> ''stream'')"

datatype value_kind =
    Kind_Int | Kind_BigInt | Kind_Float | Kind_Complex | Kind_Fraction | Kind_Algebraic | Kind_Char
  | Kind_Tag | Kind_Bool | Kind_IntList | Kind_FloatList | Kind_BoolList | Kind_List | Kind_String
  | Kind_Cas | Kind_Dict | Kind_Function | Kind_Closure | Kind_BuiltinFunction
  | Kind_FunctionComposition | Kind_Rng | Kind_Stream

definition kind_label :: "value_kind \<Rightarrow> string" where
  "kind_label k = (case k of
     Kind_Int \<Rightarrow> ''int'' | Kind_BigInt \<Rightarrow> ''bigint'' | Kind_Float \<Rightarrow> ''float'' | Kind_Complex \<Rightarrow> ''complex''
   | Kind_Fraction \<Rightarrow> ''fraction'' | Kind_Algebraic \<Rightarrow> ''algebraic'' | Kind_Char \<Rightarrow> ''char''
   | Kind_Tag \<Rightarrow> ''tag'' | Kind_Bool \<Rightarrow> ''bool'' | Kind_IntList \<Rightarrow> ''int-list''
   | Kind_FloatList \<Rightarrow> ''float-list'' | Kind_BoolList \<Rightarrow> ''bool-list'' | Kind_List \<Rightarrow> ''list''
   | Kind_String \<Rightarrow> ''string'' | Kind_Cas \<Rightarrow> ''cas'' | Kind_Dict \<Rightarrow> ''dict'' | Kind_Function \<Rightarrow> ''function''
   | Kind_Closure \<Rightarrow> ''closure'' | Kind_BuiltinFunction \<Rightarrow> ''builtin-function''
   | Kind_FunctionComposition \<Rightarrow> ''function-composition'' | Kind_Rng \<Rightarrow> ''rng'' | Kind_Stream \<Rightarrow> ''stream'')"

definition category :: "wq_value \<Rightarrow> value_category" where
  "category v = (case v of
     VInt _ \<Rightarrow> Cat_Int | VBigInt _ \<Rightarrow> Cat_Int | VFloat _ \<Rightarrow> Cat_Float | VComplex _ _ \<Rightarrow> Cat_Complex
   | VFraction _ _ \<Rightarrow> Cat_Fraction | VAlgebraic _ _ \<Rightarrow> Cat_Algebraic | VChar _ \<Rightarrow> Cat_Char
   | VTag _ \<Rightarrow> Cat_Tag | VBool _ \<Rightarrow> Cat_Bool
   | VIntRange _ \<Rightarrow> Cat_List | VIntList _ \<Rightarrow> Cat_List | VFloatList _ \<Rightarrow> Cat_List | VBoolList _ \<Rightarrow> Cat_List
   | VList _ \<Rightarrow> Cat_List | VString _ \<Rightarrow> Cat_List
   | VCas _ \<Rightarrow> Cat_Cas | VDict _ \<Rightarrow> Cat_Dict
   | VCompiledFunction _ \<Rightarrow> Cat_Function | VClosure _ _ \<Rightarrow> Cat_Function
   | VBuiltinFunction _ _ \<Rightarrow> Cat_Function | VLiftedCallable _ \<Rightarrow> Cat_Function
   | VRng _ \<Rightarrow> Cat_Rng | VStream _ \<Rightarrow> Cat_Stream)"

definition debug_kind :: "wq_value \<Rightarrow> value_kind" where
  "debug_kind v = (case v of
     VInt _ \<Rightarrow> Kind_Int | VBigInt _ \<Rightarrow> Kind_BigInt | VFloat _ \<Rightarrow> Kind_Float | VComplex _ _ \<Rightarrow> Kind_Complex
   | VFraction _ _ \<Rightarrow> Kind_Fraction | VAlgebraic _ _ \<Rightarrow> Kind_Algebraic | VChar _ \<Rightarrow> Kind_Char
   | VTag _ \<Rightarrow> Kind_Tag | VBool _ \<Rightarrow> Kind_Bool
   | VIntRange _ \<Rightarrow> Kind_IntList | VIntList _ \<Rightarrow> Kind_IntList | VFloatList _ \<Rightarrow> Kind_FloatList
   | VBoolList _ \<Rightarrow> Kind_BoolList | VList _ \<Rightarrow> Kind_List | VString _ \<Rightarrow> Kind_String
   | VCas _ \<Rightarrow> Kind_Cas | VDict _ \<Rightarrow> Kind_Dict | VCompiledFunction _ \<Rightarrow> Kind_Function
   | VClosure _ _ \<Rightarrow> Kind_Closure | VBuiltinFunction _ _ \<Rightarrow> Kind_BuiltinFunction
   | VLiftedCallable _ \<Rightarrow> Kind_FunctionComposition | VRng _ \<Rightarrow> Kind_Rng | VStream _ \<Rightarrow> Kind_Stream)"

definition is_cas_expr :: "wq_value \<Rightarrow> bool" where
  "is_cas_expr v = (case v of
     VCas k \<Rightarrow> (case k of CK_Eq _ _ \<Rightarrow> False | CK_Predicate _ \<Rightarrow> False | _ \<Rightarrow> True) | _ \<Rightarrow> False)"

definition is_list :: "wq_value \<Rightarrow> bool" where
  "is_list v = (case v of
     VIntList _ \<Rightarrow> True | VIntRange _ \<Rightarrow> True | VFloatList _ \<Rightarrow> True | VBoolList _ \<Rightarrow> True
   | VList _ \<Rightarrow> True | VString _ \<Rightarrow> True | _ \<Rightarrow> False)"

definition is_dict :: "wq_value \<Rightarrow> bool" where
  "is_dict v = (case v of VDict _ \<Rightarrow> True | _ \<Rightarrow> False)"

definition is_atom :: "wq_value \<Rightarrow> bool" where
  "is_atom v = (case v of
     VInt _ \<Rightarrow> True | VBigInt _ \<Rightarrow> True | VFloat _ \<Rightarrow> True | VComplex _ _ \<Rightarrow> True | VFraction _ _ \<Rightarrow> True
   | VAlgebraic _ _ \<Rightarrow> True | VChar _ \<Rightarrow> True | VTag _ \<Rightarrow> True | VBool _ \<Rightarrow> True | VCas _ \<Rightarrow> True
   | VCompiledFunction _ \<Rightarrow> True | VClosure _ _ \<Rightarrow> True | VBuiltinFunction _ _ \<Rightarrow> True
   | VLiftedCallable _ \<Rightarrow> True | VRng _ \<Rightarrow> True | VStream _ \<Rightarrow> True | _ \<Rightarrow> False)"

definition is_container :: "wq_value \<Rightarrow> bool" where
  "is_container v \<longleftrightarrow> is_list v \<or> is_dict v"

definition is_runtime_callable :: "wq_value \<Rightarrow> bool" where
  "is_runtime_callable v = (case v of
     VCompiledFunction _ \<Rightarrow> True | VClosure _ _ \<Rightarrow> True | VBuiltinFunction _ _ \<Rightarrow> True
   | VLiftedCallable _ \<Rightarrow> True | VRng _ \<Rightarrow> True | _ \<Rightarrow> False)"

definition is_callable :: "wq_value \<Rightarrow> bool" where
  "is_callable v \<longleftrightarrow> is_runtime_callable v \<or> is_cas_expr v"

definition is_char :: "wq_value \<Rightarrow> bool" where
  "is_char v = (case v of VChar _ \<Rightarrow> True | _ \<Rightarrow> False)"

definition empty_list_value :: wq_value where
  "empty_list_value = VList []"

lemma atom_or_container: "is_atom v \<longleftrightarrow> \<not> is_container v"
  by (cases v) (simp_all add: is_atom_def is_container_def is_list_def is_dict_def)

section \<open>Sequence views\<close>

datatype value_seq =
    VS_List "wq_value list" | VS_IntList "i64 list" | VS_IntRange int_range | VS_FloatList "f64 list"
  | VS_BoolList "bool list" | VS_String ustr

definition seq_from_value :: "wq_value \<Rightarrow> value_seq option" where
  "seq_from_value v = (case v of
     VList xs \<Rightarrow> Some (VS_List xs) | VIntList xs \<Rightarrow> Some (VS_IntList xs)
   | VIntRange r \<Rightarrow> Some (VS_IntRange r) | VFloatList xs \<Rightarrow> Some (VS_FloatList xs)
   | VBoolList xs \<Rightarrow> Some (VS_BoolList xs) | VString s \<Rightarrow> Some (VS_String s) | _ \<Rightarrow> None)"

definition seq_len :: "value_seq \<Rightarrow> nat" where
  "seq_len s = (case s of
     VS_List xs \<Rightarrow> length xs | VS_IntList xs \<Rightarrow> length xs | VS_IntRange r \<Rightarrow> ir_len r
   | VS_FloatList xs \<Rightarrow> length xs | VS_BoolList xs \<Rightarrow> length xs | VS_String s \<Rightarrow> length s)"

definition nth_opt :: "'a list \<Rightarrow> nat \<Rightarrow> 'a option" where
  "nth_opt xs i = (if i < length xs then Some (xs ! i) else None)"

definition seq_get :: "value_seq \<Rightarrow> nat \<Rightarrow> wq_value option" where
  "seq_get s i = (case s of
     VS_List xs \<Rightarrow> nth_opt xs i
   | VS_IntList xs \<Rightarrow> map_option VInt (nth_opt xs i)
   | VS_IntRange r \<Rightarrow> map_option VInt (ir_get r i)
   | VS_FloatList xs \<Rightarrow> map_option VFloat (nth_opt xs i)
   | VS_BoolList xs \<Rightarrow> map_option VBool (nth_opt xs i)
   | VS_String s \<Rightarrow> map_option VChar (nth_opt s i))"

definition seq_values :: "value_seq \<Rightarrow> wq_value list" where
  "seq_values s = (case s of
     VS_List xs \<Rightarrow> xs | VS_IntList xs \<Rightarrow> map VInt xs | VS_IntRange r \<Rightarrow> map VInt (ir_to_vec r)
   | VS_FloatList xs \<Rightarrow> map VFloat xs | VS_BoolList xs \<Rightarrow> map VBool xs | VS_String s \<Rightarrow> map VChar s)"

definition value_len :: "wq_value \<Rightarrow> nat" where
  "value_len v = (case seq_from_value v of
     Some s \<Rightarrow> seq_len s
   | None \<Rightarrow> (case v of VDict m \<Rightarrow> length m | _ \<Rightarrow> 1))"

definition is_empty :: "wq_value \<Rightarrow> bool" where
  "is_empty v \<longleftrightarrow> value_len v = 0"

definition is_unit_value :: "wq_value \<Rightarrow> bool" where
  "is_unit_value v \<longleftrightarrow> is_list v \<and> is_empty v"

definition is_string :: "wq_value \<Rightarrow> bool" where
  "is_string v \<longleftrightarrow> (case v of VString _ \<Rightarrow> True | VChar _ \<Rightarrow> True | _ \<Rightarrow> False) \<or> is_unit_value v \<or>
     (case v of VList xs \<Rightarrow> list_all is_char xs | _ \<Rightarrow> False)"

end
