(* ===== verification/Value_Seq.thy ===== *)
theory Value_Seq
  imports Value "HOL-Library.Signed_Division"
begin

text \<open>
  The rest of \<open>wqpl/src/value/seq.rs\<close> (exact integer sequences, list storage, gathering and the
  packing builder) and the conversions of \<open>wqpl/src/value/convert.rs\<close>, with the sequence they all
  stand for: \<open>items v\<close>, the list of element values of a list-like value.
\<close>

section \<open>Exact integer sequences and list storage\<close>

datatype exact_int_seq_view =
    EI_Atom i64 | EI_PackedSlice "i64 list" | EI_PackedRange int_range | EI_General "i64 list"

definition exact_int_atom :: "wq_value \<Rightarrow> i64 option" where
  "exact_int_atom v = (case v of VInt i \<Rightarrow> Some i | VBigInt b \<Rightarrow> to_i64 b | _ \<Rightarrow> None)"

definition packed_int_seq :: "wq_value \<Rightarrow> exact_int_seq_view option" where
  "packed_int_seq v = (case v of
     VIntList xs \<Rightarrow> Some (EI_PackedSlice xs) | VIntRange r \<Rightarrow> Some (EI_PackedRange r) | _ \<Rightarrow> None)"

definition native_int_seq :: "wq_value \<Rightarrow> exact_int_seq_view option" where
  "native_int_seq v = (case v of
     VInt i \<Rightarrow> Some (EI_Atom i) | VIntList _ \<Rightarrow> packed_int_seq v | VIntRange _ \<Rightarrow> packed_int_seq v
   | _ \<Rightarrow> None)"

definition exact_int_seq :: "wq_value \<Rightarrow> exact_int_seq_view option" where
  "exact_int_seq v = (case v of
     VInt i \<Rightarrow> Some (EI_Atom i)
   | VBigInt b \<Rightarrow> map_option EI_Atom (to_i64 b)
   | VIntList _ \<Rightarrow> packed_int_seq v
   | VIntRange _ \<Rightarrow> packed_int_seq v
   | VList xs \<Rightarrow> map_option EI_General (those (map exact_int_atom xs))
   | _ \<Rightarrow> None)"

definition int_seq_vec :: "exact_int_seq_view \<Rightarrow> i64 list" where
  "int_seq_vec s = (case s of
     EI_Atom i \<Rightarrow> [i] | EI_PackedSlice xs \<Rightarrow> xs | EI_PackedRange r \<Rightarrow> ir_to_vec r | EI_General xs \<Rightarrow> xs)"

definition int_seq_len :: "exact_int_seq_view \<Rightarrow> nat" where
  "int_seq_len s = (case s of
     EI_Atom _ \<Rightarrow> 1 | EI_PackedSlice xs \<Rightarrow> length xs | EI_PackedRange r \<Rightarrow> ir_len r | EI_General xs \<Rightarrow> length xs)"

datatype list_storage_seq =
    LS_List "wq_value list" | LS_Int exact_int_seq_view | LS_Float "f64 list" | LS_Bool "bool list"

definition list_storage_from_value :: "wq_value \<Rightarrow> list_storage_seq option" where
  "list_storage_from_value v = (case v of
     VList xs \<Rightarrow> Some (LS_List xs)
   | VIntList _ \<Rightarrow> map_option LS_Int (packed_int_seq v)
   | VIntRange _ \<Rightarrow> map_option LS_Int (packed_int_seq v)
   | VFloatList xs \<Rightarrow> Some (LS_Float xs)
   | VBoolList xs \<Rightarrow> Some (LS_Bool xs)
   | _ \<Rightarrow> None)"

definition storage_values :: "list_storage_seq \<Rightarrow> wq_value list" where
  "storage_values s = (case s of
     LS_List xs \<Rightarrow> xs | LS_Int xs \<Rightarrow> map VInt (int_seq_vec xs)
   | LS_Float xs \<Rightarrow> map VFloat xs | LS_Bool xs \<Rightarrow> map VBool xs)"

section \<open>The list builder\<close>

text \<open>Capacities only reserve memory and are left out.\<close>

datatype seq_builder =
    SB_Empty | SB_Int "i64 list" | SB_Float "f64 list" | SB_Bool "bool list" | SB_String ustr
  | SB_General "wq_value list"

definition builder_push :: "seq_builder \<Rightarrow> wq_value \<Rightarrow> seq_builder" where
  "builder_push b v =
     (case b of
        SB_Empty \<Rightarrow>
          (case v of VInt i \<Rightarrow> SB_Int [i] | VBool x \<Rightarrow> SB_Bool [x] | VFloat f \<Rightarrow> SB_Float [f]
           | VChar c \<Rightarrow> SB_String [c] | _ \<Rightarrow> SB_General [v])
      | SB_Int xs \<Rightarrow> (case v of VInt i \<Rightarrow> SB_Int (xs @ [i]) | _ \<Rightarrow> SB_General (map VInt xs @ [v]))
      | SB_Float xs \<Rightarrow> (case v of VFloat f \<Rightarrow> SB_Float (xs @ [f]) | _ \<Rightarrow> SB_General (map VFloat xs @ [v]))
      | SB_Bool xs \<Rightarrow> (case v of VBool x \<Rightarrow> SB_Bool (xs @ [x]) | _ \<Rightarrow> SB_General (map VBool xs @ [v]))
      | SB_String s \<Rightarrow> (case v of VChar c \<Rightarrow> SB_String (s @ [c]) | _ \<Rightarrow> SB_General (map VChar s @ [v]))
      | SB_General xs \<Rightarrow> SB_General (xs @ [v]))"

definition builder_finish :: "seq_builder \<Rightarrow> wq_value" where
  "builder_finish b = (case b of
     SB_Empty \<Rightarrow> empty_list_value | SB_Int xs \<Rightarrow> VIntList xs | SB_Float xs \<Rightarrow> VFloatList xs
   | SB_Bool xs \<Rightarrow> VBoolList xs | SB_String s \<Rightarrow> VString s | SB_General xs \<Rightarrow> VList xs)"

definition from_items :: "wq_value list \<Rightarrow> wq_value" where
  "from_items xs = builder_finish (foldl builder_push SB_Empty xs)"

definition seq_gather :: "value_seq \<Rightarrow> nat list \<Rightarrow> wq_value option" where
  "seq_gather s idxs = (case s of
     VS_List xs \<Rightarrow> map_option from_items (those (map (nth_opt xs) idxs))
   | VS_IntList xs \<Rightarrow> map_option VIntList (those (map (nth_opt xs) idxs))
   | VS_IntRange r \<Rightarrow> map_option VIntList (those (map (ir_get r) idxs))
   | VS_FloatList xs \<Rightarrow> map_option VFloatList (those (map (nth_opt xs) idxs))
   | VS_BoolList xs \<Rightarrow> map_option VBoolList (those (map (nth_opt xs) idxs))
   | VS_String cs \<Rightarrow> map_option VString (those (map (nth_opt cs) idxs)))"

section \<open>Conversions\<close>

definition try_rust_bool :: "wq_value \<Rightarrow> bool option" where
  "try_rust_bool v = (case v of VBool b \<Rightarrow> Some b | _ \<Rightarrow> None)"

definition char_of :: "wq_value \<Rightarrow> uchar option" where
  "char_of v = (case v of VChar c \<Rightarrow> Some c | _ \<Rightarrow> None)"

definition try_rust_string :: "wq_value \<Rightarrow> ustr option" where
  "try_rust_string v = (case v of
     VString s \<Rightarrow> Some s | VChar c \<Rightarrow> Some [c] | VList xs \<Rightarrow> those (map char_of xs)
   | _ \<Rightarrow> if is_unit_value v then Some [] else None)"

definition try_flatten_string :: "wq_value \<Rightarrow> ustr option" where
  "try_flatten_string v = (case v of
     VChar c \<Rightarrow> Some [c]
   | VString s \<Rightarrow> Some s
   | VList xs \<Rightarrow>
       if xs = [] then Some []
       else if \<not> list_all is_string xs then None
       else map_option concat (those (map try_rust_string xs))
   | _ \<Rightarrow> if is_unit_value v then Some [] else None)"

definition as_char_slice :: "wq_value \<Rightarrow> wq_value list option" where
  "as_char_slice v =
     (if is_unit_value v \<and> (case v of VString _ \<Rightarrow> False | VList _ \<Rightarrow> False | _ \<Rightarrow> True) then Some []
      else case v of
        VString s \<Rightarrow> Some (map VChar s)
      | VList xs \<Rightarrow> if list_all is_char xs then Some xs else None
      | VChar c \<Rightarrow> Some [VChar c]
      | _ \<Rightarrow> None)"

definition to_u8 :: "i64 \<Rightarrow> u8 option" where
  "to_u8 i = (if 0 \<le> sint i \<and> sint i < 256 then Some (word_of_int (sint i)) else None)"

definition can_convert_to_vec_u8 :: "wq_value \<Rightarrow> bool" where
  "can_convert_to_vec_u8 v =
     (case exact_int_seq v of None \<Rightarrow> False
      | Some s \<Rightarrow> list_all (\<lambda>i. to_u8 i \<noteq> None) (int_seq_vec s))"

definition try_vec_u8 :: "wq_value \<Rightarrow> u8 list option" where
  "try_vec_u8 v =
     (case exact_int_seq v of None \<Rightarrow> None | Some s \<Rightarrow> those (map to_u8 (int_seq_vec s)))"

definition value_from_bigint :: "int \<Rightarrow> wq_value" where
  "value_from_bigint n = (case to_i64 n of Some i \<Rightarrow> VInt i | None \<Rightarrow> VBigInt n)"

definition usize_into_value :: "nat \<Rightarrow> wq_value" where
  "usize_into_value n = (case to_i64 (int n) of Some i \<Rightarrow> VInt i | None \<Rightarrow> VBigInt (int n))"

definition is_fraction :: "wq_value \<Rightarrow> bool" where
  "is_fraction v = (case v of VFraction _ _ \<Rightarrow> True | _ \<Rightarrow> False)"

definition rational_parts :: "wq_value \<Rightarrow> (int \<times> int) option" where
  "rational_parts v = (case v of
     VFraction n d \<Rightarrow> Some (n, d) | VInt n \<Rightarrow> Some (sint n, 1) | VBigInt n \<Rightarrow> Some (n, 1) | _ \<Rightarrow> None)"

function gcd_loop :: "int \<Rightarrow> int \<Rightarrow> int" where
  "gcd_loop a b = (if b = 0 then a else gcd_loop b (a smod b))"
  by pat_completeness auto
termination
proof (relation "measure (\<lambda>(a, b). nat \<bar>b\<bar>)")
  fix a b :: int assume "b \<noteq> 0"
  then show "((b, a smod b), a, b) \<in> measure (\<lambda>(a, b). nat \<bar>b\<bar>)"
    using smod_int_range [of b a] by auto
qed simp

declare gcd_loop.simps [simp del]

definition gcd_bigint :: "int \<Rightarrow> int \<Rightarrow> int" where
  "gcd_bigint a b = gcd_loop \<bar>a\<bar> \<bar>b\<bar>"

definition from_fraction_parts :: "int \<Rightarrow> int \<Rightarrow> wq_value" where
  "from_fraction_parts numer denom =
     (if numer = 0 then VFraction 0 1
      else let g = gcd_bigint numer denom; n = numer sdiv g; d = denom sdiv g in
        if d < 0 then VFraction (- n) (- d) else VFraction n d)"

section \<open>The items of a list\<close>

definition items :: "wq_value \<Rightarrow> wq_value list" where
  "items v = (case seq_from_value v of Some s \<Rightarrow> seq_values s | None \<Rightarrow> [])"

lemma list_has_seq: "is_list v \<longleftrightarrow> seq_from_value v \<noteq> None"
  by (cases v) (simp_all add: is_list_def seq_from_value_def)

lemma items_simps:
  "items (VList xs) = xs" "items (VIntList is) = map VInt is" "items (VIntRange r) = map VInt (ir_to_vec r)"
  "items (VFloatList fs) = map VFloat fs" "items (VBoolList bs) = map VBool bs"
  "items (VString cs) = map VChar cs"
  by (simp_all add: items_def seq_from_value_def seq_values_def)

lemma items_no_list: "\<not> is_list v \<Longrightarrow> items v = []"
  by (simp add: list_has_seq items_def)

text \<open>The ranges inside a value are those the program builds.\<close>

primrec seq_ok :: "value_seq \<Rightarrow> bool" where
  "seq_ok (VS_IntRange r) = range_ok r"
| "seq_ok (VS_List xs) = True"
| "seq_ok (VS_IntList xs) = True"
| "seq_ok (VS_FloatList xs) = True"
| "seq_ok (VS_BoolList xs) = True"
| "seq_ok (VS_String xs) = True"

lemma length_seq_values [simp]: "length (seq_values s) = seq_len s"
  by (cases s) (simp_all add: seq_values_def seq_len_def)

lemma nth_opt_map: "nth_opt (map f xs) i = map_option f (nth_opt xs i)"
  by (simp add: nth_opt_def)

lemma seq_get_nth: "seq_ok s \<Longrightarrow> seq_get s i = nth_opt (seq_values s) i"
  by (cases s)
    (simp_all add: seq_get_def seq_values_def nth_opt_map ir_to_vec_elems ir_get_nth, simp add: nth_opt_def)

fun builder_items :: "seq_builder \<Rightarrow> wq_value list" where
  "builder_items SB_Empty = []"
| "builder_items (SB_Int xs) = map VInt xs"
| "builder_items (SB_Float xs) = map VFloat xs"
| "builder_items (SB_Bool xs) = map VBool xs"
| "builder_items (SB_String s) = map VChar s"
| "builder_items (SB_General xs) = xs"

lemma builder_items_push: "builder_items (builder_push b v) = builder_items b @ [v]"
  by (cases b; cases v) (simp_all add: builder_push_def)

lemma builder_items_foldl: "builder_items (foldl builder_push b xs) = builder_items b @ xs"
  by (induction xs arbitrary: b) (simp_all add: builder_items_push)

lemma items_finish: "items (builder_finish b) = builder_items b"
  by (cases b) (simp_all add: builder_finish_def items_def seq_from_value_def seq_values_def
      empty_list_value_def)

lemma items_from_items [simp]: "items (from_items xs) = xs"
  by (simp add: from_items_def items_finish builder_items_foldl)

lemma is_list_finish: "is_list (builder_finish b)"
  by (cases b) (simp_all add: builder_finish_def is_list_def empty_list_value_def)

lemma is_list_from_items [simp]: "is_list (from_items xs)"
  by (simp add: from_items_def is_list_finish)

lemma those_map_option: "those (map (\<lambda>x. map_option f (g x)) xs) = map_option (map f) (those (map g xs))"
  by (induction xs) (simp_all split: option.splits add: option.map_comp comp_def)

lemma seq_gather_items:
  assumes ok: "seq_ok s"
  shows "map_option items (seq_gather s idxs) = those (map (nth_opt (seq_values s)) idxs)"
proof (cases s)
  case (VS_IntRange r)
  have r: "ir_get r = nth_opt (ir_elems r)"
    using ok VS_IntRange by (auto simp: ir_get_nth nth_opt_def fun_eq_iff)
  have rv: "ir_to_vec r = ir_elems r" using ok VS_IntRange by (simp add: ir_to_vec_elems)
  have "those (map (nth_opt (map VInt (ir_elems r))) idxs) = map_option (map VInt) (those (map (nth_opt (ir_elems r)) idxs))"
    by (simp only: nth_opt_map [abs_def] those_map_option)
  then show ?thesis unfolding VS_IntRange
    by (simp add: seq_gather_def seq_values_def r rv option.map_comp)
      (simp add: comp_def items_def seq_from_value_def seq_values_def)
next
  case (VS_List xs)
  then show ?thesis by (simp add: seq_gather_def seq_values_def option.map_comp comp_def option.map_ident)
qed (simp_all add: seq_gather_def seq_values_def option.map_comp comp_def nth_opt_map [abs_def]
    those_map_option items_def seq_from_value_def)

lemma zip_members: "p \<in> set (zip as bs) \<Longrightarrow> fst p \<in> set as \<and> snd p \<in> set bs"
  by (cases p) (auto dest: set_zip_leftD set_zip_rightD)

section \<open>Fractions\<close>

lemma gcd_loop_gcd: "0 \<le> a \<Longrightarrow> 0 \<le> b \<Longrightarrow> gcd_loop a b = gcd a b"
proof (induction a b rule: gcd_loop.induct)
  case (1 a b)
  show ?case
  proof (cases "b = 0")
    case True
    then show ?thesis using 1(2) by (subst gcd_loop.simps) simp
  next
    case False
    then have m: "a smod b = a mod b" using 1 by (simp add: smod_mod_positive)
    have "gcd_loop b (a smod b) = gcd b (a smod b)"
      by (rule 1(1)) (use False 1(2,3) m in simp_all)
    moreover have "gcd_loop a b = gcd_loop b (a smod b)" using False by (subst gcd_loop.simps) simp
    ultimately show ?thesis using gcd_red_int [of a b] m by (simp add: gcd.commute)
  qed
qed

lemma gcd_bigint_gcd: "gcd_bigint a b = gcd a b"
  by (simp add: gcd_bigint_def gcd_loop_gcd)

lemma sdiv_dvd: "0 < g \<Longrightarrow> g dvd a \<Longrightarrow> a sdiv g = a div g" for a g :: int
  by (cases "a = 0"; cases "0 < a") (simp_all add: signed_divide_int_def sgn_if dvd_neg_div)

text \<open>A fraction built from any numerator and any non-zero denominator is stored in normal
  form: positive denominator, no common factor, and the same rational number.\<close>

theorem fraction_normal_form:
  assumes "denom \<noteq> 0"
  shows "\<exists>n d. from_fraction_parts numer denom = VFraction n d \<and> 0 < d \<and> coprime n d \<and>
    n * denom = numer * d"
proof (cases "numer = 0")
  case True
  then show ?thesis by (simp add: from_fraction_parts_def)
next
  case False
  let ?g = "gcd numer denom"
  have g: "0 < ?g" using False by simp
  obtain a where a: "numer = ?g * a" by (metis dvdE gcd_dvd1)
  obtain b where b: "denom = ?g * b" by (metis dvdE gcd_dvd2)
  have q: "numer sdiv ?g = a" "denom sdiv ?g = b"
    using g a b sdiv_dvd [OF g, of numer] sdiv_dvd [OF g, of denom]
    by (metis dvd_triv_left nonzero_mult_div_cancel_left less_irrefl)+
  have "b \<noteq> 0" using b assms by auto
  have "coprime a b" using div_gcd_coprime [of numer denom] False q sdiv_dvd [OF g] by simp
  moreover have "a * denom = numer * b" using a b by (metis mult.assoc mult.commute)
  ultimately show ?thesis using \<open>b \<noteq> 0\<close> False
    by (auto simp: from_fraction_parts_def gcd_bigint_gcd q Let_def)
qed

theorem fraction_normal_form_witness:
  "\<exists>n d. from_fraction_parts 6 (- 4) = VFraction n d \<and> 0 < d \<and> coprime n d \<and> n * (- 4) = 6 * d"
  by (rule fraction_normal_form) simp

end
