(* ===== verification/Value_Bc.thy ===== *)
theory Value_Bc
  imports Value_Seq
begin

text \<open>
  Broadcasting: \<open>wqpl/src/value/bc.rs\<close>. The operation that is broadcast may have effects, so it
  takes and returns a state \<open>'s\<close>; the path is passed down instead of being pushed and popped (after
  an error nobody reads it). \<open>BC_Panic\<close> stands for the \<open>unreachable!\<close> arms. A dictionary that is
  rebuilt gets the keys of an existing one in order, so inserting them appends.
\<close>

datatype bc_error =
    BC_Length "nat list" nat nat
  | BC_Key "nat list" ustr ustr
  | BC_Wq "nat list" wq_error
  | BC_Panic

type_synonym ('s, 'a) bc = "'s \<Rightarrow> (bc_error + 'a) \<times> 's"
type_synonym 's op1 = "wq_value \<Rightarrow> 's \<Rightarrow> (wq_error + wq_value) \<times> 's"
type_synonym 's op2 = "wq_value \<Rightarrow> wq_value \<Rightarrow> 's \<Rightarrow> (wq_error + wq_value) \<times> 's"

definition bc_return :: "'a \<Rightarrow> ('s, 'a) bc" where
  "bc_return x s = (Inr x, s)"

definition bc_fail :: "bc_error \<Rightarrow> ('s, 'a) bc" where
  "bc_fail e s = (Inl e, s)"

definition bc_map :: "('a \<Rightarrow> 'b) \<Rightarrow> ('s, 'a) bc \<Rightarrow> ('s, 'b) bc" where
  "bc_map f m s = (case m s of (Inl e, s') \<Rightarrow> (Inl e, s') | (Inr x, s') \<Rightarrow> (Inr (f x), s'))"

definition bc_at_path :: "nat list \<Rightarrow> ('s \<Rightarrow> (wq_error + 'a) \<times> 's) \<Rightarrow> ('s, 'a) bc" where
  "bc_at_path path m s = (case m s of (Inl e, s') \<Rightarrow> (Inl (BC_Wq path e), s') | (Inr x, s') \<Rightarrow> (Inr x, s'))"

definition path_note :: "nat list \<Rightarrow> wq_error \<Rightarrow> wq_error" where
  "path_note path e =
     (if path = [] then e
      else attach_note (lit ''at '' @ concat (map (\<lambda>i. lit ''['' @ show_nat i @ lit '']'') path)) e)"

definition into_wqerror :: "bc_error \<Rightarrow> wq_error" where
  "into_wqerror b = (case b of
     BC_Length path l r \<Rightarrow> path_note path
       (attach_note (lit ''right length is '' @ show_nat r)
         (attach_note (lit ''left length is '' @ show_nat l)
           (with_msg (lit ''list lengths do not match'') (new_error W_Length))))
   | BC_Key path l r \<Rightarrow> path_note path
       (attach_note (lit ''right key is `'' @ r)
         (attach_note (lit ''left key is `'' @ l)
           (with_msg (lit ''dict keys do not match'') (new_error W_Length))))
   | BC_Wq path e \<Rightarrow> path_note path e
   | BC_Panic \<Rightarrow> new_error W_Vm)"

section \<open>Loops\<close>

text \<open>A loop that stops at the first error; it counts its elements from \<open>i\<close>.\<close>

fun traverse :: "(nat \<Rightarrow> 'a \<Rightarrow> ('s, 'b) bc) \<Rightarrow> nat \<Rightarrow> 'a list \<Rightarrow> ('s, 'b list) bc" where
  "traverse g i [] s = (Inr [], s)"
| "traverse g i (x # xs) s =
     (case g i x s of
        (Inl e, s') \<Rightarrow> (Inl e, s')
      | (Inr y, s') \<Rightarrow> bc_map (\<lambda>ys. y # ys) (traverse g (Suc i) xs) s')"

lemma traverse_cong [fundef_cong]:
  assumes "xs = ys" "s = t" "i = j" "\<And>x k u. x \<in> set ys \<Longrightarrow> g k x u = h k x u"
  shows "traverse g i xs s = traverse h j ys t"
proof -
  have "\<forall>x\<in>set ys. \<forall>k u. g k x u = h k x u \<Longrightarrow> traverse g j ys t = traverse h j ys t"
    by (induction ys arbitrary: j t) (auto split: prod.splits sum.splits simp: bc_map_def)
  then show ?thesis using assms by blast
qed

lemma bc_map_cong [fundef_cong]:
  "s = t \<Longrightarrow> m t = n t \<Longrightarrow> (\<And>x u. n t = (Inr x, u) \<Longrightarrow> f x = g x) \<Longrightarrow> bc_map f m s = bc_map g n t"
  by (auto simp: bc_map_def split: prod.splits sum.splits)

section \<open>A measure\<close>

fun weight :: "wq_value \<Rightarrow> nat" where
  "weight (VList xs) = Suc (sum_list (map (\<lambda>x. Suc (weight x)) xs))"
| "weight (VDict m) = Suc (sum_list (map (\<lambda>kv. Suc (weight (snd kv))) m))"
| "weight (VIntList xs) = 2 + 2 * length xs"
| "weight (VIntRange r) = 3 + 2 * ir_len r"
| "weight (VFloatList xs) = 2 + 2 * length xs"
| "weight (VBoolList xs) = 2 + 2 * length xs"
| "weight (VString cs) = 2 + 2 * length cs"
| "weight _ = 1"

lemma sum_list_member: "x \<in> set xs \<Longrightarrow> Suc (f x) \<le> sum_list (map (\<lambda>x. Suc (f x)) xs)" for f :: "'a \<Rightarrow> nat"
  by (induction xs) auto

lemma weight_list [termination_simp]: "x \<in> set xs \<Longrightarrow> weight x < weight (VList xs)"
  using sum_list_member [of x xs weight] by simp

lemma weight_dict [termination_simp]: "kv \<in> set m \<Longrightarrow> weight (snd kv) < weight (VDict m)"
  using sum_list_member [of kv m "\<lambda>kv. weight (snd kv)"] by simp

section \<open>Unary broadcasting\<close>

datatype bc1_stop = Bc1_Atom | Bc1_AtomOrDepth i64

definition stop1 :: "bc1_stop \<Rightarrow> nat list \<Rightarrow> wq_value \<Rightarrow> bool" where
  "stop1 stop path v = (case stop of
     Bc1_Atom \<Rightarrow> is_atom v
   | Bc1_AtomOrDepth el \<Rightarrow> is_atom v \<or> sint el \<le> int (length path))"

function bc1_until :: "bc1_stop \<Rightarrow> 's op1 \<Rightarrow> nat list \<Rightarrow> wq_value \<Rightarrow> ('s, wq_value) bc" where
  "bc1_until stop f path v s =
     (if stop1 stop path v then bc_at_path path (f v) s
      else case v of
        VList xs \<Rightarrow> bc_map from_items (traverse (\<lambda>i x. bc1_until stop f (path @ [i]) x) 0 xs) s
      | VIntList xs \<Rightarrow>
          bc_map from_items (traverse (\<lambda>i x. bc_at_path (path @ [i]) (f (VInt x))) 0 xs) s
      | VIntRange r \<Rightarrow>
          bc_map from_items (traverse (\<lambda>i x. bc_at_path (path @ [i]) (f (VInt x))) 0 (ir_to_vec r)) s
      | VBoolList xs \<Rightarrow>
          bc_map from_items (traverse (\<lambda>i x. bc_at_path (path @ [i]) (f (VBool x))) 0 xs) s
      | VFloatList xs \<Rightarrow>
          bc_map from_items (traverse (\<lambda>i x. bc_at_path (path @ [i]) (f (VFloat x))) 0 xs) s
      | VDict m \<Rightarrow>
          bc_map VDict
            (traverse (\<lambda>i kv. bc_map (Pair (fst kv)) (bc1_until stop f (path @ [i]) (snd kv))) 0 m) s
      | VString cs \<Rightarrow>
          bc_map from_items (traverse (\<lambda>i c. bc_at_path (path @ [i]) (f (VChar c))) 0 cs) s
      | _ \<Rightarrow> bc_fail BC_Panic s)"
  by pat_completeness auto
termination
  by (relation "measure (\<lambda>(_, _, _, v, _). weight v)") (auto simp del: weight.simps simp: termination_simp)

declare bc1_until.simps [simp del]

definition bc1 :: "'s op1 \<Rightarrow> wq_value \<Rightarrow> ('s, wq_value) bc" where
  "bc1 f v = bc1_until Bc1_Atom f [] v"

text \<open>The variant that only runs the operation for its effects.\<close>

function bc1_for_each :: "bc1_stop \<Rightarrow> 's op1 \<Rightarrow> nat list \<Rightarrow> wq_value \<Rightarrow> ('s, unit) bc" where
  "bc1_for_each stop f path v s =
     (if stop1 stop path v then bc_map (\<lambda>_. ()) (bc_at_path path (f v)) s
      else case v of
        VList xs \<Rightarrow> bc_map (\<lambda>_. ()) (traverse (\<lambda>i x. bc1_for_each stop f (path @ [i]) x) 0 xs) s
      | VIntList xs \<Rightarrow>
          bc_map (\<lambda>_. ()) (traverse (\<lambda>i x. bc_at_path (path @ [i]) (f (VInt x))) 0 xs) s
      | VIntRange r \<Rightarrow>
          bc_map (\<lambda>_. ()) (traverse (\<lambda>i x. bc_at_path (path @ [i]) (f (VInt x))) 0 (ir_to_vec r)) s
      | VBoolList xs \<Rightarrow>
          bc_map (\<lambda>_. ()) (traverse (\<lambda>i x. bc_at_path (path @ [i]) (f (VBool x))) 0 xs) s
      | VFloatList xs \<Rightarrow>
          bc_map (\<lambda>_. ()) (traverse (\<lambda>i x. bc_at_path (path @ [i]) (f (VFloat x))) 0 xs) s
      | VDict m \<Rightarrow>
          bc_map (\<lambda>_. ()) (traverse (\<lambda>i kv. bc1_for_each stop f (path @ [i]) (snd kv)) 0 m) s
      | VString cs \<Rightarrow>
          bc_map (\<lambda>_. ()) (traverse (\<lambda>i c. bc_at_path (path @ [i]) (f (VChar c))) 0 cs) s
      | _ \<Rightarrow> bc_fail BC_Panic s)"
  by pat_completeness auto
termination
  by (relation "measure (\<lambda>(_, _, _, v, _). weight v)") (auto simp del: weight.simps simp: termination_simp)

declare bc1_for_each.simps [simp del]

section \<open>Binary broadcasting\<close>

datatype bc2_stop = Bc2_BothAtom | Bc2_BothAtomOrDepth i64

definition stop2 :: "bc2_stop \<Rightarrow> nat list \<Rightarrow> wq_value \<Rightarrow> wq_value \<Rightarrow> bool" where
  "stop2 stop path l r = (case stop of
     Bc2_BothAtom \<Rightarrow> is_atom l \<and> is_atom r
   | Bc2_BothAtomOrDepth el \<Rightarrow> is_atom l \<and> is_atom r \<or> sint el \<le> int (length path))"

text \<open>What the arms of \<open>broadcast_left\<close> and \<open>broadcast_right\<close> do with the container: call the
  operation on each element at once, broadcast into each element, or rebuild a dictionary.\<close>

datatype spread = Sp_Direct "wq_value list" | Sp_Deep "wq_value list" | Sp_Dict "(ustr \<times> wq_value) list" | Sp_Panic

definition spread_of :: "wq_value \<Rightarrow> spread" where
  "spread_of c = (case c of
     VList xs \<Rightarrow> Sp_Deep xs
   | VIntList xs \<Rightarrow> Sp_Direct (map VInt xs)
   | VIntRange r \<Rightarrow> Sp_Direct (map VInt (ir_to_vec r))
   | VBoolList xs \<Rightarrow> Sp_Direct (map VBool xs)
   | VFloatList xs \<Rightarrow> Sp_Direct (map VFloat xs)
   | VDict m \<Rightarrow> Sp_Dict m
   | VString cs \<Rightarrow> Sp_Direct (map VChar cs)
   | _ \<Rightarrow> Sp_Panic)"

text \<open>What the arms of \<open>zip_containers\<close> do with a pair of containers.\<close>

datatype zip_arm =
    Zip_Direct "wq_value list" "wq_value list"
  | Zip_Deep "wq_value list" "wq_value list"
  | Zip_Dicts "(ustr \<times> wq_value) list" "(ustr \<times> wq_value) list"
  | Zip_SeqDict "wq_value list" "(ustr \<times> wq_value) list"
  | Zip_DictSeq "(ustr \<times> wq_value) list" "wq_value list"
  | Zip_Panic

definition should_stream :: "wq_value \<Rightarrow> bool" where
  "should_stream v = (case v of VIntRange _ \<Rightarrow> True | VBoolList _ \<Rightarrow> True | VFloatList _ \<Rightarrow> True | _ \<Rightarrow> False)"

text \<open>The early arms for two packed containers of the same kind.\<close>

definition packed_arm :: "wq_value \<Rightarrow> wq_value \<Rightarrow> zip_arm option" where
  "packed_arm l r = (case l of
     VIntRange a \<Rightarrow>
       (case r of VIntRange b \<Rightarrow> Some (Zip_Direct (map VInt (ir_to_vec a)) (map VInt (ir_to_vec b)))
        | VIntList b \<Rightarrow> Some (Zip_Direct (map VInt (ir_to_vec a)) (map VInt b)) | _ \<Rightarrow> None)
   | VIntList a \<Rightarrow>
       (case r of VIntRange b \<Rightarrow> Some (Zip_Direct (map VInt a) (map VInt (ir_to_vec b))) | _ \<Rightarrow> None)
   | VBoolList a \<Rightarrow>
       (case r of VBoolList b \<Rightarrow> Some (Zip_Direct (map VBool a) (map VBool b)) | _ \<Rightarrow> None)
   | VFloatList a \<Rightarrow>
       (case r of VFloatList b \<Rightarrow> Some (Zip_Direct (map VFloat a) (map VFloat b)) | _ \<Rightarrow> None)
   | _ \<Rightarrow> None)"

text \<open>The streaming arms for a range, boolean list or float list with anything else.\<close>

definition dict_of :: "wq_value \<Rightarrow> (ustr \<times> wq_value) list option" where
  "dict_of v = (case v of VDict m \<Rightarrow> Some m | _ \<Rightarrow> None)"

definition stream_arm :: "wq_value \<Rightarrow> wq_value \<Rightarrow> zip_arm option" where
  "stream_arm l r =
     (if \<not> should_stream l \<and> \<not> should_stream r then None
      else if dict_of l \<noteq> None \<and> should_stream r then
        map_option (\<lambda>q. Zip_DictSeq (the (dict_of l)) (seq_values q)) (seq_from_value r)
      else if dict_of r \<noteq> None \<and> should_stream l then
        map_option (\<lambda>q. Zip_SeqDict (seq_values q) (the (dict_of r))) (seq_from_value l)
      else case (seq_from_value l, seq_from_value r) of
        (Some p, Some q) \<Rightarrow> Some (Zip_Deep (seq_values p) (seq_values q)) | _ \<Rightarrow> None)"

definition final_arm :: "wq_value \<Rightarrow> wq_value \<Rightarrow> zip_arm" where
  "final_arm l r = (case l of
     VIntList a \<Rightarrow>
       (case r of VIntList b \<Rightarrow> Zip_Direct (map VInt a) (map VInt b)
        | VList b \<Rightarrow> Zip_Deep (map VInt a) b
        | VString b \<Rightarrow> Zip_Direct (map VInt a) (map VChar b)
        | VDict m \<Rightarrow> Zip_SeqDict (map VInt a) m | _ \<Rightarrow> Zip_Panic)
   | VList a \<Rightarrow>
       (case r of VList b \<Rightarrow> Zip_Deep a b
        | VIntList b \<Rightarrow> Zip_Deep a (map VInt b)
        | VString b \<Rightarrow> Zip_Deep a (map VChar b)
        | VDict m \<Rightarrow> Zip_SeqDict a m | _ \<Rightarrow> Zip_Panic)
   | VString a \<Rightarrow>
       (case r of VString b \<Rightarrow> Zip_Direct (map VChar a) (map VChar b)
        | VList b \<Rightarrow> Zip_Deep (map VChar a) b
        | VIntList b \<Rightarrow> Zip_Direct (map VChar a) (map VInt b)
        | VDict m \<Rightarrow> Zip_SeqDict (map VChar a) m | _ \<Rightarrow> Zip_Panic)
   | VDict a \<Rightarrow>
       (case r of VDict b \<Rightarrow> Zip_Dicts a b
        | VList b \<Rightarrow> Zip_DictSeq a b
        | VIntList b \<Rightarrow> Zip_DictSeq a (map VInt b)
        | VString b \<Rightarrow> Zip_DictSeq a (map VChar b) | _ \<Rightarrow> Zip_Panic)
   | _ \<Rightarrow> Zip_Panic)"

text \<open>A packed container replaced by the plainer one, as the fall-back arms do.\<close>

definition unpack_once :: "wq_value \<Rightarrow> wq_value option" where
  "unpack_once v = (case v of
     VIntRange r \<Rightarrow> Some (VIntList (ir_to_vec r))
   | VBoolList xs \<Rightarrow> Some (VList (map VBool xs))
   | VFloatList xs \<Rightarrow> Some (VList (map VFloat xs))
   | _ \<Rightarrow> None)"

definition is_int_range :: "wq_value \<Rightarrow> bool" where
  "is_int_range v = (case v of VIntRange _ \<Rightarrow> True | _ \<Rightarrow> False)"

definition is_bool_list :: "wq_value \<Rightarrow> bool" where
  "is_bool_list v = (case v of VBoolList _ \<Rightarrow> True | _ \<Rightarrow> False)"

definition is_float_list :: "wq_value \<Rightarrow> bool" where
  "is_float_list v = (case v of VFloatList _ \<Rightarrow> True | _ \<Rightarrow> False)"

lemma weight_packed:
  "weight (VList (map VBool bs)) = Suc (2 * length bs)"
  "weight (VList (map VFloat fs)) = Suc (2 * length fs)"
  by (induction bs, simp_all) (induction fs, simp_all)

lemma unpack_once_weight: "unpack_once v = Some w \<Longrightarrow> weight w < weight v"
  by (cases v) (auto simp: unpack_once_def weight_packed simp del: weight.simps(1))

lemma unpack_weights [termination_simp]:
  "is_int_range v \<Longrightarrow> weight (the (unpack_once v)) < weight v"
  "is_bool_list v \<Longrightarrow> weight (the (unpack_once v)) < weight v"
  "is_float_list v \<Longrightarrow> weight (the (unpack_once v)) < weight v"
proof -
  have "unpack_once v \<noteq> None" if "is_int_range v \<or> is_bool_list v \<or> is_float_list v"
    using that by (cases v) (auto simp: is_int_range_def is_bool_list_def is_float_list_def unpack_once_def)
  then show "is_int_range v \<Longrightarrow> weight (the (unpack_once v)) < weight v"
    "is_bool_list v \<Longrightarrow> weight (the (unpack_once v)) < weight v"
    "is_float_list v \<Longrightarrow> weight (the (unpack_once v)) < weight v"
    using unpack_once_weight by fastforce+
qed

function zip_arm_of :: "wq_value \<Rightarrow> wq_value \<Rightarrow> zip_arm" where
  "zip_arm_of l r =
     (case packed_arm l r of Some a \<Rightarrow> a | None \<Rightarrow>
        (case stream_arm l r of Some a \<Rightarrow> a | None \<Rightarrow>
           if is_int_range l then zip_arm_of (the (unpack_once l)) r
           else if is_int_range r then zip_arm_of l (the (unpack_once r))
           else if is_bool_list l then zip_arm_of (the (unpack_once l)) r
           else if is_bool_list r then zip_arm_of l (the (unpack_once r))
           else if is_float_list l then zip_arm_of (the (unpack_once l)) r
           else if is_float_list r then zip_arm_of l (the (unpack_once r))
           else final_arm l r))"
  by pat_completeness auto
termination
  by (relation "measure (\<lambda>(l, r). weight l + weight r)")
    (auto simp del: weight.simps simp: termination_simp)

declare zip_arm_of.simps [simp del]

text \<open>The items that the arms work on, for the measure and for the refinement.\<close>

lemma list_or_dict: "is_container v \<Longrightarrow> (\<exists>q. seq_from_value v = Some q) \<or> (\<exists>m. v = VDict m)"
  by (cases v) (auto simp: is_container_def is_list_def is_dict_def seq_from_value_def)

lemma weight_items: "x \<in> set (items v) \<Longrightarrow> weight x < weight v"
proof (cases v)
  case (VList xs)
  then show "x \<in> set (items v) \<Longrightarrow> ?thesis" using weight_list by (simp add: items_simps)
qed (auto simp: items_simps items_no_list is_list_def)

text \<open>The arm of two containers is determined by their items.\<close>

fun arm_matches :: "wq_value \<Rightarrow> wq_value \<Rightarrow> zip_arm \<Rightarrow> bool" where
  "arm_matches l r (Zip_Direct xs ys) \<longleftrightarrow>
     is_list l \<and> is_list r \<and> xs = items l \<and> ys = items r \<and> list_all is_atom xs \<and> list_all is_atom ys"
| "arm_matches l r (Zip_Deep xs ys) \<longleftrightarrow> is_list l \<and> is_list r \<and> xs = items l \<and> ys = items r"
| "arm_matches l r (Zip_Dicts m n) \<longleftrightarrow> l = VDict m \<and> r = VDict n"
| "arm_matches l r (Zip_SeqDict xs m) \<longleftrightarrow> is_list l \<and> xs = items l \<and> r = VDict m"
| "arm_matches l r (Zip_DictSeq m ys) \<longleftrightarrow> l = VDict m \<and> is_list r \<and> ys = items r"
| "arm_matches l r Zip_Panic \<longleftrightarrow> False"

lemma items_atoms:
  "list_all is_atom (map VInt is)" "list_all is_atom (map VBool bs)" "list_all is_atom (map VFloat fs)"
  "list_all is_atom (map VChar cs)"
  by (simp_all add: list_all_iff is_atom_def)

lemma packed_arm_matches: "packed_arm l r = Some a \<Longrightarrow> arm_matches l r a"
  by (cases l; cases r) (auto simp: packed_arm_def items_simps items_atoms is_list_def)

lemma stream_arm_matches: "stream_arm l r = Some a \<Longrightarrow> arm_matches l r a"
  unfolding stream_arm_def
  by (cases l; cases r) (auto simp: should_stream_def dict_of_def items_def is_list_def seq_from_value_def
      split: if_splits)

lemma final_arm_matches:
  assumes "is_container l" "is_container r" "\<not> should_stream l" "\<not> should_stream r"
  shows "arm_matches l r (final_arm l r)"
  using assms by (cases l; cases r)
    (auto simp: final_arm_def should_stream_def items_simps items_atoms is_list_def is_container_def is_dict_def)

lemma stream_arm_taken:
  assumes "is_container l" "is_container r" "should_stream l \<or> should_stream r"
  shows "stream_arm l r \<noteq> None"
  using assms by (cases l; cases r)
    (auto simp: stream_arm_def should_stream_def dict_of_def seq_from_value_def is_container_def is_list_def is_dict_def)

lemma not_streamed:
  "\<not> should_stream v \<Longrightarrow> \<not> is_int_range v \<and> \<not> is_bool_list v \<and> \<not> is_float_list v"
  by (cases v) (simp_all add: should_stream_def is_int_range_def is_bool_list_def is_float_list_def)

lemma zip_arm_matches:
  assumes "is_container l" "is_container r"
  shows "arm_matches l r (zip_arm_of l r)"
proof (cases "packed_arm l r")
  case (Some a)
  then show ?thesis using packed_arm_matches by (simp add: zip_arm_of.simps)
next
  case packed: None
  show ?thesis
  proof (cases "stream_arm l r")
    case (Some a)
    then show ?thesis using packed stream_arm_matches by (simp add: zip_arm_of.simps)
  next
    case None
    then have "\<not> should_stream l" "\<not> should_stream r" using stream_arm_taken [OF assms] by auto
    then show ?thesis using final_arm_matches [OF assms] not_streamed packed None
      by (subst zip_arm_of.simps) simp
  qed
qed

fun spread_matches :: "wq_value \<Rightarrow> spread \<Rightarrow> bool" where
  "spread_matches c (Sp_Direct ys) \<longleftrightarrow> is_list c \<and> ys = items c \<and> list_all is_atom ys"
| "spread_matches c (Sp_Deep ys) \<longleftrightarrow> is_list c \<and> ys = items c"
| "spread_matches c (Sp_Dict m) \<longleftrightarrow> c = VDict m"
| "spread_matches c Sp_Panic \<longleftrightarrow> False"

lemma spread_of_matches: "is_container c \<Longrightarrow> spread_matches c (spread_of c)"
  by (cases c) (auto simp: spread_of_def items_simps items_atoms is_list_def is_container_def is_dict_def)

lemma not_atom [termination_simp]: "\<not> is_atom v \<longleftrightarrow> is_container v"
  by (simp add: atom_or_container)

lemma spread_weight [termination_simp]:
  "is_container c \<Longrightarrow> spread_of c = Sp_Deep ys \<Longrightarrow> y \<in> set ys \<Longrightarrow> weight y < weight c"
  "is_container c \<Longrightarrow> spread_of c = Sp_Dict m \<Longrightarrow> kv \<in> set m \<Longrightarrow> weight (snd kv) < weight c"
  using spread_of_matches [of c] weight_items weight_dict by auto

lemma zip_weight:
  assumes "is_container l" "is_container r"
  shows "zip_arm_of l r = Zip_Deep xs ys \<Longrightarrow> xy \<in> set (zip xs ys) \<Longrightarrow>
      weight (fst xy) + weight (snd xy) < weight l + weight r"
    and "zip_arm_of l r = Zip_Dicts m n \<Longrightarrow> mn \<in> set (zip m n) \<Longrightarrow>
      weight (snd (fst mn)) + weight (snd (snd mn)) < weight l + weight r"
    and "zip_arm_of l r = Zip_SeqDict xs n \<Longrightarrow> xn \<in> set (zip xs n) \<Longrightarrow>
      weight (fst xn) + weight (snd (snd xn)) < weight l + weight r"
    and "zip_arm_of l r = Zip_DictSeq m ys \<Longrightarrow> my \<in> set (zip m ys) \<Longrightarrow>
      weight (snd (fst my)) + weight (snd my) < weight l + weight r"
  using zip_arm_matches [OF assms] zip_members [of xy xs ys] zip_members [of mn m n]
    zip_members [of xn xs n] zip_members [of my m ys]
    weight_items [of "fst xy" l] weight_items [of "snd xy" r] weight_items [of "fst xn" l]
    weight_items [of "snd my" r] weight_dict [of "fst mn" m] weight_dict [of "snd mn" n]
    weight_dict [of "snd xn" n] weight_dict [of "fst my" m]
  by (simp_all del: weight.simps add: add_strict_mono)

function bc2_until ::
  "bc2_stop \<Rightarrow> 's op2 \<Rightarrow> nat list \<Rightarrow> wq_value \<Rightarrow> wq_value \<Rightarrow> ('s, wq_value) bc" where
  "bc2_until stop op path l r s =
     (if stop2 stop path l r then bc_at_path path (op l r) s
      else if is_atom l \<and> is_atom r then bc_at_path path (op l r) s
      else if is_atom l then
        (case spread_of r of
           Sp_Direct ys \<Rightarrow> bc_map from_items (traverse (\<lambda>i y. bc_at_path (path @ [i]) (op l y)) 0 ys) s
         | Sp_Deep ys \<Rightarrow> bc_map from_items (traverse (\<lambda>i y. bc2_until stop op (path @ [i]) l y) 0 ys) s
         | Sp_Dict m \<Rightarrow> bc_map VDict
             (traverse (\<lambda>i kv. bc_map (Pair (fst kv)) (bc2_until stop op (path @ [i]) l (snd kv))) 0 m) s
         | Sp_Panic \<Rightarrow> bc_fail BC_Panic s)
      else if is_atom r then
        (case spread_of l of
           Sp_Direct xs \<Rightarrow> bc_map from_items (traverse (\<lambda>i x. bc_at_path (path @ [i]) (op x r)) 0 xs) s
         | Sp_Deep xs \<Rightarrow> bc_map from_items (traverse (\<lambda>i x. bc2_until stop op (path @ [i]) x r) 0 xs) s
         | Sp_Dict m \<Rightarrow> bc_map VDict
             (traverse (\<lambda>i kv. bc_map (Pair (fst kv)) (bc2_until stop op (path @ [i]) (snd kv) r)) 0 m) s
         | Sp_Panic \<Rightarrow> bc_fail BC_Panic s)
      else
        (case zip_arm_of l r of
           Zip_Direct xs ys \<Rightarrow>
             if length xs \<noteq> length ys then bc_fail (BC_Length path (length xs) (length ys)) s
             else bc_map from_items
               (traverse (\<lambda>i xy. bc_at_path (path @ [i]) (op (fst xy) (snd xy))) 0 (zip xs ys)) s
         | Zip_Deep xs ys \<Rightarrow>
             if length xs \<noteq> length ys then bc_fail (BC_Length path (length xs) (length ys)) s
             else bc_map from_items
               (traverse (\<lambda>i xy. bc2_until stop op (path @ [i]) (fst xy) (snd xy)) 0 (zip xs ys)) s
         | Zip_Dicts m n \<Rightarrow>
             if length m \<noteq> length n then bc_fail (BC_Length path (length m) (length n)) s
             else bc_map VDict
               (traverse (\<lambda>i mn.
                  if fst (fst mn) \<noteq> fst (snd mn) then bc_fail (BC_Key path (fst (fst mn)) (fst (snd mn)))
                  else bc_map (Pair (fst (fst mn)))
                    (bc2_until stop op (path @ [i]) (snd (fst mn)) (snd (snd mn)))) 0 (zip m n)) s
         | Zip_SeqDict xs n \<Rightarrow>
             if length xs \<noteq> length n then bc_fail (BC_Length path (length xs) (length n)) s
             else bc_map VDict
               (traverse (\<lambda>i xn. bc_map (Pair (fst (snd xn)))
                  (bc2_until stop op (path @ [i]) (fst xn) (snd (snd xn)))) 0 (zip xs n)) s
         | Zip_DictSeq m ys \<Rightarrow>
             if length m \<noteq> length ys then bc_fail (BC_Length path (length m) (length ys)) s
             else bc_map VDict
               (traverse (\<lambda>i my. bc_map (Pair (fst (fst my)))
                  (bc2_until stop op (path @ [i]) (snd (fst my)) (snd my))) 0 (zip m ys)) s
         | Zip_Panic \<Rightarrow> bc_fail BC_Panic s))"
  by pat_completeness auto
termination
  by (relation "measure (\<lambda>(_, _, _, l, r, _). weight l + weight r)")
    (auto simp del: weight.simps simp: termination_simp zip_weight)

declare bc2_until.simps [simp del]

definition bc2 :: "'s op2 \<Rightarrow> wq_value \<Rightarrow> wq_value \<Rightarrow> ('s, wq_value) bc" where
  "bc2 op l r = bc2_until Bc2_BothAtom op [] l r"

end
