(* ===== verification/Value_Tree.thy ===== *)
theory Value_Tree
  imports Value_Bc
begin

text \<open>
  What broadcasting promises: values as trees whose inner nodes are lists and dictionaries, with
  every packed representation read as the list of its elements, and broadcasting on trees. The
  operations of \<open>Value_Bc\<close> refine it whatever the representations are, and no pair of containers
  reaches an \<open>unreachable!\<close> arm.
\<close>

datatype tree = Leaf wq_value | Seq "tree list" | Map "(ustr \<times> tree) list"

fun tree_of :: "wq_value \<Rightarrow> tree" where
  "tree_of (VList xs) = Seq (map tree_of xs)"
| "tree_of (VDict m) = Map (map (\<lambda>kv. (fst kv, tree_of (snd kv))) m)"
| "tree_of (VIntList xs) = Seq (map (\<lambda>i. Leaf (VInt i)) xs)"
| "tree_of (VIntRange r) = Seq (map (\<lambda>i. Leaf (VInt i)) (ir_to_vec r))"
| "tree_of (VFloatList xs) = Seq (map (\<lambda>x. Leaf (VFloat x)) xs)"
| "tree_of (VBoolList xs) = Seq (map (\<lambda>b. Leaf (VBool b)) xs)"
| "tree_of (VString cs) = Seq (map (\<lambda>c. Leaf (VChar c)) cs)"
| "tree_of v = Leaf v"

lemma tree_of_list: "is_list v \<Longrightarrow> tree_of v = Seq (map tree_of (items v))"
  by (cases v) (simp_all add: items_simps is_list_def)

lemma tree_of_atom: "is_atom v \<Longrightarrow> tree_of v = Leaf v"
  by (cases v) (simp_all add: is_atom_def)

lemma tree_of_from_items: "tree_of (from_items xs) = Seq (map tree_of xs)"
  by (simp add: tree_of_list)

section \<open>Broadcasting on trees\<close>

fun tree_bc1 :: "'s op1 \<Rightarrow> nat list \<Rightarrow> tree \<Rightarrow> ('s, tree) bc" where
  "tree_bc1 f path (Leaf v) s = bc_map tree_of (bc_at_path path (f v)) s"
| "tree_bc1 f path (Seq xs) s = bc_map Seq (traverse (\<lambda>i x. tree_bc1 f (path @ [i]) x) 0 xs) s"
| "tree_bc1 f path (Map m) s =
     bc_map Map (traverse (\<lambda>i kv. bc_map (Pair (fst kv)) (tree_bc1 f (path @ [i]) (snd kv))) 0 m) s"

fun tree_size :: "tree \<Rightarrow> nat" where
  "tree_size (Leaf v) = 1"
| "tree_size (Seq xs) = Suc (sum_list (map (\<lambda>x. Suc (tree_size x)) xs))"
| "tree_size (Map m) = Suc (sum_list (map (\<lambda>kv. Suc (tree_size (snd kv))) m))"

lemma tree_size_member [termination_simp]:
  "x \<in> set xs \<Longrightarrow> tree_size x < tree_size (Seq xs)"
  "kv \<in> set m \<Longrightarrow> tree_size (snd kv) < tree_size (Map m)"
  using sum_list_member [of x xs tree_size] sum_list_member [of kv m "\<lambda>kv. tree_size (snd kv)"] by simp_all

lemma tree_size_zip [termination_simp]:
  "xy \<in> set (zip xs ys) \<Longrightarrow> tree_size (fst xy) + tree_size (snd xy) < tree_size (Seq xs) + tree_size (Seq ys)"
  "mn \<in> set (zip m n) \<Longrightarrow> tree_size (snd (fst mn)) + tree_size (snd (snd mn)) < tree_size (Map m) + tree_size (Map n)"
  "xn \<in> set (zip xs n) \<Longrightarrow> tree_size (fst xn) + tree_size (snd (snd xn)) < tree_size (Seq xs) + tree_size (Map n)"
  "my \<in> set (zip m ys) \<Longrightarrow> tree_size (snd (fst my)) + tree_size (snd my) < tree_size (Map m) + tree_size (Seq ys)"
  using zip_members tree_size_member by (blast intro: add_strict_mono)+

function tree_bc2 :: "'s op2 \<Rightarrow> nat list \<Rightarrow> tree \<Rightarrow> tree \<Rightarrow> ('s, tree) bc" where
  "tree_bc2 op path (Leaf a) (Leaf b) s = bc_map tree_of (bc_at_path path (op a b)) s"
| "tree_bc2 op path (Leaf a) (Seq ys) s =
     bc_map Seq (traverse (\<lambda>i y. tree_bc2 op (path @ [i]) (Leaf a) y) 0 ys) s"
| "tree_bc2 op path (Leaf a) (Map n) s =
     bc_map Map (traverse (\<lambda>i kv. bc_map (Pair (fst kv)) (tree_bc2 op (path @ [i]) (Leaf a) (snd kv))) 0 n) s"
| "tree_bc2 op path (Seq xs) (Leaf b) s =
     bc_map Seq (traverse (\<lambda>i x. tree_bc2 op (path @ [i]) x (Leaf b)) 0 xs) s"
| "tree_bc2 op path (Map m) (Leaf b) s =
     bc_map Map (traverse (\<lambda>i kv. bc_map (Pair (fst kv)) (tree_bc2 op (path @ [i]) (snd kv) (Leaf b))) 0 m) s"
| "tree_bc2 op path (Seq xs) (Seq ys) s =
     (if length xs \<noteq> length ys then bc_fail (BC_Length path (length xs) (length ys)) s
      else bc_map Seq (traverse (\<lambda>i xy. tree_bc2 op (path @ [i]) (fst xy) (snd xy)) 0 (zip xs ys)) s)"
| "tree_bc2 op path (Map m) (Map n) s =
     (if length m \<noteq> length n then bc_fail (BC_Length path (length m) (length n)) s
      else bc_map Map (traverse (\<lambda>i mn.
        if fst (fst mn) \<noteq> fst (snd mn) then bc_fail (BC_Key path (fst (fst mn)) (fst (snd mn)))
        else bc_map (Pair (fst (fst mn))) (tree_bc2 op (path @ [i]) (snd (fst mn)) (snd (snd mn))))
        0 (zip m n)) s)"
| "tree_bc2 op path (Seq xs) (Map n) s =
     (if length xs \<noteq> length n then bc_fail (BC_Length path (length xs) (length n)) s
      else bc_map Map (traverse (\<lambda>i xn. bc_map (Pair (fst (snd xn)))
        (tree_bc2 op (path @ [i]) (fst xn) (snd (snd xn)))) 0 (zip xs n)) s)"
| "tree_bc2 op path (Map m) (Seq ys) s =
     (if length m \<noteq> length ys then bc_fail (BC_Length path (length m) (length ys)) s
      else bc_map Map (traverse (\<lambda>i my. bc_map (Pair (fst (fst my)))
        (tree_bc2 op (path @ [i]) (snd (fst my)) (snd my))) 0 (zip m ys)) s)"
  by pat_completeness auto
termination
  by (relation "measure (\<lambda>(_, _, l, r, _). tree_size l + tree_size r)")
    (auto simp del: tree_size.simps(2,3) simp: termination_simp)

declare tree_bc2.simps [simp del] tree_bc1.simps [simp del]

section \<open>Refinement\<close>

lemma bc_map_Inl: "m s = (Inl e, s') \<Longrightarrow> bc_map f m s = (Inl e, s')"
  by (simp add: bc_map_def)

lemma bc_map_Inr: "m s = (Inr x, s') \<Longrightarrow> bc_map f m s = (Inr (f x), s')"
  by (simp add: bc_map_def)

lemma bc_map_map: "bc_map f (bc_map g m) s = bc_map (\<lambda>x. f (g x)) m s"
  by (simp add: bc_map_def split: prod.splits sum.splits)

lemma bc_map_fail [simp]: "bc_map f (bc_fail e) s = bc_fail e s"
  by (simp add: bc_map_def bc_fail_def)

lemma traverse_bc_map:
  "bc_map (map h) (traverse g i xs) s = traverse (\<lambda>i x. bc_map h (g i x)) i xs s"
proof (induction xs arbitrary: i s)
  case Nil
  then show ?case by (simp add: bc_map_def)
next
  case (Cons x xs)
  obtain r s' where r: "g i x s = (r, s')" by (cases "g i x s")
  show ?case
  proof (cases r)
    case (Inl e)
    then show ?thesis using r by (simp add: bc_map_def)
  next
    case (Inr y)
    have "traverse (\<lambda>i x. bc_map h (g i x)) (Suc i) xs s' = bc_map (map h) (traverse g (Suc i) xs) s'"
      using Cons [of "Suc i" s'] by simp
    moreover obtain q s'' where "traverse g (Suc i) xs s' = (q, s'')" by (cases "traverse g (Suc i) xs s'")
    ultimately show ?thesis using r Inr
      by (cases q) (simp_all add: bc_map_Inl bc_map_Inr)
  qed
qed

lemma traverse_map: "traverse g i (map f xs) s = traverse (\<lambda>i x. g i (f x)) i xs s"
  by (induction xs arbitrary: i s) (auto simp: bc_map_def split: prod.splits sum.splits)

text \<open>A loop whose body refines another one.\<close>

lemma traverse_refine:
  assumes "\<And>k x u. x \<in> set xs \<Longrightarrow> bc_map h (g k x) u = g' k (f x) u"
  shows "bc_map (map h) (traverse g i xs) s = traverse g' i (map f xs) s"
  unfolding traverse_bc_map traverse_map by (rule traverse_cong) (use assms in simp_all)

lemma bc_map_refine:
  assumes "bc_map h m s = n s" and "\<And>x. F x = K (h x)"
  shows "bc_map F m s = bc_map K n s"
proof -
  have "bc_map K n s = bc_map K (bc_map h m) s" using assms(1) by (simp add: bc_map_def)
  moreover have "F = (\<lambda>x. K (h x))" using assms(2) by (rule ext)
  ultimately show ?thesis by (simp add: bc_map_map)
qed

lemma list_refine:
  assumes "\<And>k x u. x \<in> set xs \<Longrightarrow> bc_map tree_of (g k x) u = g' k (f x) u"
  shows "bc_map tree_of (bc_map from_items (traverse g 0 xs)) s = bc_map Seq (traverse g' 0 (map f xs)) s"
  unfolding bc_map_map
  by (rule bc_map_refine [where h = "map tree_of"]) (rule traverse_refine, use assms tree_of_from_items in auto)

lemma dict_refine:
  assumes "\<And>k x u. x \<in> set xs \<Longrightarrow> bc_map (\<lambda>kv. (fst kv, tree_of (snd kv))) (g k x) u = g' k (f x) u"
  shows "bc_map tree_of (bc_map VDict (traverse g 0 xs)) s = bc_map Map (traverse g' 0 (map f xs)) s"
  unfolding bc_map_map
  by (rule bc_map_refine [where h = "map (\<lambda>kv. (fst kv, tree_of (snd kv)))"])
    (rule traverse_refine, use assms in auto)

lemma entry_refine:
  "bc_map tree_of m u = n u \<Longrightarrow>
   bc_map (\<lambda>kv. (fst kv, tree_of (snd kv))) (bc_map (Pair k) m) u = bc_map (Pair k) n u"
  unfolding bc_map_map by (rule bc_map_refine) auto

text \<open>Calling the operation on two atoms is broadcasting their leaves.\<close>

lemma leaf1: "is_atom a \<Longrightarrow> bc_map tree_of (bc_at_path path (f a)) u = tree_bc1 f path (tree_of a) u"
  by (simp add: tree_of_atom tree_bc1.simps)

lemma leaf2:
  "is_atom a \<Longrightarrow> is_atom b \<Longrightarrow>
   bc_map tree_of (bc_at_path path (op a b)) u = tree_bc2 op path (tree_of a) (tree_of b) u"
  by (simp add: tree_of_atom tree_bc2.simps)

lemma packed1:
  assumes "\<And>x. is_atom (C x)"
  shows "bc_map tree_of (bc_map from_items (traverse (\<lambda>i x. bc_at_path (path @ [i]) (f (C x))) 0 xs)) s =
    bc_map Seq (traverse (\<lambda>i x. tree_bc1 f (path @ [i]) x) 0 (map (\<lambda>x. Leaf (C x)) xs)) s"
  by (rule list_refine) (simp add: leaf1 assms tree_of_atom)

lemma packed_atoms [simp]:
  "is_atom (VInt i)" "is_atom (VFloat x)" "is_atom (VBool b)" "is_atom (VChar c)"
  by (simp_all add: is_atom_def)

theorem bc1_refines_tree:
  "bc_map tree_of (bc1_until Bc1_Atom f path v) s = tree_bc1 f path (tree_of v) s"
proof (induction "Bc1_Atom" f path v s rule: bc1_until.induct)
  case (1 f path v s)
  note IH = 1
  show ?case
  proof (cases "is_atom v")
    case True
    then show ?thesis by (simp add: bc1_until.simps [abs_def] stop1_def leaf1)
  next
    case False
    then have stop: "\<not> stop1 Bc1_Atom path v" by (simp add: stop1_def)
    show ?thesis
    proof (cases v)
      case (VList xs)
      have "bc_map tree_of (bc_map from_items (traverse (\<lambda>i x. bc1_until Bc1_Atom f (path @ [i]) x) 0 xs)) s =
        bc_map Seq (traverse (\<lambda>i x. tree_bc1 f (path @ [i]) x) 0 (map tree_of xs)) s"
        by (rule list_refine) (use IH(1) stop VList in simp)
      then show ?thesis using stop VList
        by (simp add: bc_map_def bc1_until.simps tree_bc1.simps)
    next
      case (VDict m)
      have "bc_map tree_of (bc_map VDict
          (traverse (\<lambda>i kv. bc_map (Pair (fst kv)) (bc1_until Bc1_Atom f (path @ [i]) (snd kv))) 0 m)) s =
        bc_map Map (traverse (\<lambda>i kv. bc_map (Pair (fst kv)) (tree_bc1 f (path @ [i]) (snd kv))) 0
          (map (\<lambda>kv. (fst kv, tree_of (snd kv))) m)) s"
        by (rule dict_refine) (use IH(2) stop VDict in \<open>simp add: entry_refine\<close>)
      then show ?thesis using stop VDict
        by (simp add: bc_map_def bc1_until.simps tree_bc1.simps)
    next
      case (VIntList xs)
      then show ?thesis using stop packed1 [of VInt path f xs s]
        by (simp add: bc_map_def bc1_until.simps tree_bc1.simps)
    next
      case (VIntRange r)
      then show ?thesis using stop packed1 [of VInt path f "ir_to_vec r" s]
        by (simp add: bc_map_def bc1_until.simps tree_bc1.simps)
    next
      case (VFloatList xs)
      then show ?thesis using stop packed1 [of VFloat path f xs s]
        by (simp add: bc_map_def bc1_until.simps tree_bc1.simps)
    next
      case (VBoolList xs)
      then show ?thesis using stop packed1 [of VBool path f xs s]
        by (simp add: bc_map_def bc1_until.simps tree_bc1.simps)
    next
      case (VString xs)
      then show ?thesis using stop packed1 [of VChar path f xs s]
        by (simp add: bc_map_def bc1_until.simps tree_bc1.simps)
    qed (use False in \<open>simp_all add: is_atom_def\<close>)
  qed
qed

lemma tree_of_container: "is_container v \<Longrightarrow> (is_list v \<and> tree_of v = Seq (map tree_of (items v))) \<or>
    (\<exists>m. v = VDict m \<and> tree_of v = Map (map (\<lambda>kv. (fst kv, tree_of (snd kv))) m))"
  by (cases "is_list v") (auto simp: tree_of_list is_container_def is_dict_def split: wq_value.splits)

abbreviation entry :: "ustr \<times> wq_value \<Rightarrow> ustr \<times> tree" where
  "entry kv \<equiv> (fst kv, tree_of (snd kv))"

lemma traverse_zip:
  "traverse g i (zip (map f xs) (map h ys)) s =
   traverse g i (map (\<lambda>p. (f (fst p), h (snd p))) (zip xs ys)) s"
  by (simp add: zip_map_map case_prod_unfold)

text \<open>One lemma per group of arms; \<open>R\<close> is the recursive call, known to refine.\<close>

lemma arm_deep:
  assumes "\<And>i p u. p \<in> set (zip xs ys) \<Longrightarrow>
      bc_map tree_of (R i (fst p) (snd p)) u = T i (tree_of (fst p)) (tree_of (snd p)) u"
  shows "bc_map tree_of (bc_map from_items (traverse (\<lambda>i p. R i (fst p) (snd p)) 0 (zip xs ys))) s =
    bc_map Seq (traverse (\<lambda>i p. T i (fst p) (snd p)) 0 (zip (map tree_of xs) (map tree_of ys))) s"
proof -
  have "bc_map tree_of (bc_map from_items (traverse (\<lambda>i p. R i (fst p) (snd p)) 0 (zip xs ys))) s =
    bc_map Seq (traverse (\<lambda>i p. T i (fst p) (snd p)) 0
      (map (\<lambda>p. (tree_of (fst p), tree_of (snd p))) (zip xs ys))) s"
    by (rule list_refine) (simp add: assms)
  then show ?thesis by (simp add: bc_map_def traverse_zip)
qed

lemma arm_dicts:
  assumes "\<And>i p u. p \<in> set (zip m n) \<Longrightarrow>
      bc_map tree_of (R i (snd (fst p)) (snd (snd p))) u = T i (tree_of (snd (fst p))) (tree_of (snd (snd p))) u"
  shows "bc_map tree_of (bc_map VDict (traverse (\<lambda>i p.
        if fst (fst p) \<noteq> fst (snd p) then bc_fail (BC_Key path (fst (fst p)) (fst (snd p)))
        else bc_map (Pair (fst (fst p))) (R i (snd (fst p)) (snd (snd p)))) 0 (zip m n))) s =
    bc_map Map (traverse (\<lambda>i p.
        if fst (fst p) \<noteq> fst (snd p) then bc_fail (BC_Key path (fst (fst p)) (fst (snd p)))
        else bc_map (Pair (fst (fst p))) (T i (snd (fst p)) (snd (snd p)))) 0 (zip (map entry m) (map entry n))) s"
    (is "bc_map tree_of (bc_map VDict (traverse ?g 0 _)) s = bc_map Map (traverse ?t 0 _) s")
proof -
  have "bc_map tree_of (bc_map VDict (traverse ?g 0 (zip m n))) s =
    bc_map Map (traverse ?t 0 (map (\<lambda>p. (entry (fst p), entry (snd p))) (zip m n))) s"
    by (rule dict_refine) (simp add: entry_refine assms)
  then show ?thesis by (simp add: bc_map_def traverse_zip)
qed

lemma arm_seq_dict:
  assumes "\<And>i p u. p \<in> set (zip xs n) \<Longrightarrow>
      bc_map tree_of (R i (fst p) (snd (snd p))) u = T i (tree_of (fst p)) (tree_of (snd (snd p))) u"
  shows "bc_map tree_of (bc_map VDict (traverse (\<lambda>i p. bc_map (Pair (fst (snd p)))
        (R i (fst p) (snd (snd p)))) 0 (zip xs n))) s =
    bc_map Map (traverse (\<lambda>i p. bc_map (Pair (fst (snd p))) (T i (fst p) (snd (snd p)))) 0
      (zip (map tree_of xs) (map entry n))) s"
    (is "bc_map tree_of (bc_map VDict (traverse ?g 0 _)) s = bc_map Map (traverse ?t 0 _) s")
proof -
  have "bc_map tree_of (bc_map VDict (traverse ?g 0 (zip xs n))) s =
    bc_map Map (traverse ?t 0 (map (\<lambda>p. (tree_of (fst p), entry (snd p))) (zip xs n))) s"
    by (rule dict_refine) (simp add: entry_refine assms)
  then show ?thesis by (simp add: bc_map_def traverse_zip)
qed

lemma arm_dict_seq:
  assumes "\<And>i p u. p \<in> set (zip m ys) \<Longrightarrow>
      bc_map tree_of (R i (snd (fst p)) (snd p)) u = T i (tree_of (snd (fst p))) (tree_of (snd p)) u"
  shows "bc_map tree_of (bc_map VDict (traverse (\<lambda>i p. bc_map (Pair (fst (fst p)))
        (R i (snd (fst p)) (snd p))) 0 (zip m ys))) s =
    bc_map Map (traverse (\<lambda>i p. bc_map (Pair (fst (fst p))) (T i (snd (fst p)) (snd p))) 0
      (zip (map entry m) (map tree_of ys))) s"
    (is "bc_map tree_of (bc_map VDict (traverse ?g 0 _)) s = bc_map Map (traverse ?t 0 _) s")
proof -
  have "bc_map tree_of (bc_map VDict (traverse ?g 0 (zip m ys))) s =
    bc_map Map (traverse ?t 0 (map (\<lambda>p. (entry (fst p), tree_of (snd p))) (zip m ys))) s"
    by (rule dict_refine) (simp add: entry_refine assms)
  then show ?thesis by (simp add: bc_map_def traverse_zip)
qed

lemma stop2_both: "stop2 Bc2_BothAtom path l r \<longleftrightarrow> is_atom l \<and> is_atom r"
  by (simp add: stop2_def)

lemma bc_map_apply: "bc_map f m s = map_prod (map_sum id f) id (m s)"
  by (simp add: bc_map_def split: prod.splits sum.splits)

lemma container_cases:
  assumes "is_container v"
  obtains (list) "is_list v" "tree_of v = Seq (map tree_of (items v))"
  | (dict) m where "v = VDict m" "tree_of v = Map (map entry m)"
  using tree_of_container [OF assms] by blast

lemma container_not_atom: "is_container v \<Longrightarrow> \<not> is_atom v"
  by (simp add: atom_or_container)

definition refined :: "'s op2 \<Rightarrow> wq_value \<Rightarrow> wq_value \<Rightarrow> bool" where
  "refined op l r \<longleftrightarrow> (\<forall>path s. bc_map tree_of (bc2_until Bc2_BothAtom op path l r) s =
     tree_bc2 op path (tree_of l) (tree_of r) s)"

lemma refined_left:
  assumes l: "is_atom l" and r: "is_container r"
    and IH: "\<And>y. weight y < weight r \<Longrightarrow> refined op l y"
  shows "refined op l r"
  unfolding refined_def
proof (intro allI)
  fix path s
  let ?B = "bc2_until Bc2_BothAtom op"
  let ?T = "tree_bc2 op"
  have unf: "?B path l r s = (case spread_of r of
      Sp_Direct ys \<Rightarrow> bc_map from_items (traverse (\<lambda>i y. bc_at_path (path @ [i]) (op l y)) 0 ys) s
    | Sp_Deep ys \<Rightarrow> bc_map from_items (traverse (\<lambda>i y. ?B (path @ [i]) l y) 0 ys) s
    | Sp_Dict m \<Rightarrow> bc_map VDict (traverse (\<lambda>i kv. bc_map (Pair (fst kv)) (?B (path @ [i]) l (snd kv))) 0 m) s
    | Sp_Panic \<Rightarrow> bc_fail BC_Panic s)"
    using l container_not_atom [OF r] by (subst bc2_until.simps) (simp add: stop2_both)
  show "bc_map tree_of (?B path l r) s = ?T path (tree_of l) (tree_of r) s"
  proof (cases "spread_of r")
    case (Sp_Direct ys)
    then have ys: "is_list r" "ys = items r" "list_all is_atom ys"
      using spread_of_matches [OF r] by auto
    have "bc_map tree_of (bc_map from_items (traverse (\<lambda>i y. bc_at_path (path @ [i]) (op l y)) 0 ys)) s =
      bc_map Seq (traverse (\<lambda>i y. ?T (path @ [i]) (tree_of l) y) 0 (map tree_of ys)) s"
      by (rule list_refine) (use ys l in \<open>auto simp: list_all_iff intro!: leaf2\<close>)
    then show ?thesis using ys
      by (simp add: tree_of_list tree_of_atom [OF l] tree_bc2.simps bc_map_apply [of tree_of] unf Sp_Direct)
  next
    case (Sp_Deep ys)
    then have ys: "is_list r" "ys = items r" using spread_of_matches [OF r] by auto
    have "bc_map tree_of (bc_map from_items (traverse (\<lambda>i y. ?B (path @ [i]) l y) 0 ys)) s =
      bc_map Seq (traverse (\<lambda>i y. ?T (path @ [i]) (tree_of l) y) 0 (map tree_of ys)) s"
      by (rule list_refine) (use ys IH weight_items in \<open>auto simp: refined_def\<close>)
    then show ?thesis using ys
      by (simp add: tree_of_list tree_of_atom [OF l] tree_bc2.simps bc_map_apply [of tree_of] unf Sp_Deep)
  next
    case (Sp_Dict m)
    then have m: "r = VDict m" using spread_of_matches [OF r] by auto
    have "bc_map tree_of (bc_map VDict (traverse (\<lambda>i kv. bc_map (Pair (fst kv)) (?B (path @ [i]) l (snd kv))) 0 m)) s =
      bc_map Map (traverse (\<lambda>i kv. bc_map (Pair (fst kv)) (?T (path @ [i]) (tree_of l) (snd kv))) 0 (map entry m)) s"
      by (rule dict_refine, simp, rule entry_refine) (use m IH weight_dict in \<open>auto simp: refined_def\<close>)
    moreover have "tree_of r = Map (map entry m)" by (simp add: m)
    ultimately show ?thesis
      by (simp add: tree_of_atom [OF l] tree_bc2.simps bc_map_apply [of tree_of] unf Sp_Dict)
  next
    case Sp_Panic
    then show ?thesis using spread_of_matches [OF r] by simp
  qed
qed

lemma refined_right:
  assumes r: "is_atom r" and l: "is_container l"
    and IH: "\<And>x. weight x < weight l \<Longrightarrow> refined op x r"
  shows "refined op l r"
  unfolding refined_def
proof (intro allI)
  fix path s
  let ?B = "bc2_until Bc2_BothAtom op"
  let ?T = "tree_bc2 op"
  have unf: "?B path l r s = (case spread_of l of
      Sp_Direct ys \<Rightarrow> bc_map from_items (traverse (\<lambda>i y. bc_at_path (path @ [i]) (op y r)) 0 ys) s
    | Sp_Deep ys \<Rightarrow> bc_map from_items (traverse (\<lambda>i y. ?B (path @ [i]) y r) 0 ys) s
    | Sp_Dict m \<Rightarrow> bc_map VDict (traverse (\<lambda>i kv. bc_map (Pair (fst kv)) (?B (path @ [i]) (snd kv) r)) 0 m) s
    | Sp_Panic \<Rightarrow> bc_fail BC_Panic s)"
    using r container_not_atom [OF l] by (subst bc2_until.simps) (simp add: stop2_both)
  show "bc_map tree_of (?B path l r) s = ?T path (tree_of l) (tree_of r) s"
  proof (cases "spread_of l")
    case (Sp_Direct ys)
    then have ys: "is_list l" "ys = items l" "list_all is_atom ys"
      using spread_of_matches [OF l] by auto
    have "bc_map tree_of (bc_map from_items (traverse (\<lambda>i y. bc_at_path (path @ [i]) (op y r)) 0 ys)) s =
      bc_map Seq (traverse (\<lambda>i y. ?T (path @ [i]) y (tree_of r)) 0 (map tree_of ys)) s"
      by (rule list_refine) (use ys r in \<open>auto simp: list_all_iff intro!: leaf2\<close>)
    then show ?thesis using ys
      by (simp add: tree_of_list tree_of_atom [OF r] tree_bc2.simps bc_map_apply [of tree_of] unf Sp_Direct)
  next
    case (Sp_Deep ys)
    then have ys: "is_list l" "ys = items l" using spread_of_matches [OF l] by auto
    have "bc_map tree_of (bc_map from_items (traverse (\<lambda>i y. ?B (path @ [i]) y r) 0 ys)) s =
      bc_map Seq (traverse (\<lambda>i y. ?T (path @ [i]) y (tree_of r)) 0 (map tree_of ys)) s"
      by (rule list_refine) (use ys IH weight_items in \<open>auto simp: refined_def\<close>)
    then show ?thesis using ys
      by (simp add: tree_of_list tree_of_atom [OF r] tree_bc2.simps bc_map_apply [of tree_of] unf Sp_Deep)
  next
    case (Sp_Dict m)
    then have m: "l = VDict m" using spread_of_matches [OF l] by auto
    have "bc_map tree_of (bc_map VDict (traverse (\<lambda>i kv. bc_map (Pair (fst kv)) (?B (path @ [i]) (snd kv) r)) 0 m)) s =
      bc_map Map (traverse (\<lambda>i kv. bc_map (Pair (fst kv)) (?T (path @ [i]) (snd kv) (tree_of r))) 0 (map entry m)) s"
      by (rule dict_refine, simp, rule entry_refine) (use m IH weight_dict in \<open>auto simp: refined_def\<close>)
    moreover have "tree_of l = Map (map entry m)" by (simp add: m)
    ultimately show ?thesis
      by (simp add: tree_of_atom [OF r] tree_bc2.simps bc_map_apply [of tree_of] unf Sp_Dict)
  next
    case Sp_Panic
    then show ?thesis using spread_of_matches [OF l] by simp
  qed
qed

lemma refined_zip:
  assumes l: "is_container l" and r: "is_container r"
    and IH: "\<And>x y. weight x + weight y < weight l + weight r \<Longrightarrow> refined op x y"
  shows "refined op l r"
  unfolding refined_def
proof (intro allI)
  fix path s
  let ?B = "bc2_until Bc2_BothAtom op"
  let ?T = "tree_bc2 op"
  note unf = bc2_until.simps [of Bc2_BothAtom op path l r s]
  note arm = zip_arm_matches [OF l r]
  note atoms = container_not_atom [OF l] container_not_atom [OF r]
  show "bc_map tree_of (?B path l r) s = ?T path (tree_of l) (tree_of r) s"
  proof (cases "zip_arm_of l r")
    case (Zip_Direct xs ys)
    then have xs: "is_list l" "is_list r" "xs = items l" "ys = items r" "list_all is_atom xs" "list_all is_atom ys"
      using arm by auto
    have "bc_map tree_of (bc_map from_items (traverse (\<lambda>i p. bc_at_path (path @ [i]) (op (fst p) (snd p))) 0 (zip xs ys))) s =
      bc_map Seq (traverse (\<lambda>i p. ?T (path @ [i]) (fst p) (snd p)) 0 (zip (map tree_of xs) (map tree_of ys))) s"
      by (rule arm_deep [where R = "\<lambda>i x y. bc_at_path (path @ [i]) (op x y)"])
        (use xs in \<open>auto simp: list_all_iff dest!: zip_members intro!: leaf2\<close>)
    then show ?thesis using xs Zip_Direct atoms
      by (simp add: tree_of_list tree_bc2.simps bc_map_apply [of tree_of] unf stop2_both bc_fail_def)
  next
    case (Zip_Deep xs ys)
    then have xs: "is_list l" "is_list r" "xs = items l" "ys = items r" using arm by auto
    have "bc_map tree_of (bc_map from_items (traverse (\<lambda>i p. ?B (path @ [i]) (fst p) (snd p)) 0 (zip xs ys))) s =
      bc_map Seq (traverse (\<lambda>i p. ?T (path @ [i]) (fst p) (snd p)) 0 (zip (map tree_of xs) (map tree_of ys))) s"
      by (rule arm_deep [where R = "\<lambda>i. ?B (path @ [i])"])
        (use IH zip_weight(1) [OF l r Zip_Deep] in \<open>simp add: refined_def\<close>)
    then show ?thesis using xs Zip_Deep atoms
      by (simp add: tree_of_list tree_bc2.simps bc_map_apply [of tree_of] unf stop2_both bc_fail_def)
  next
    case (Zip_Dicts m n)
    then have mn: "l = VDict m" "r = VDict n" using arm by auto
    have "bc_map tree_of (bc_map VDict (traverse (\<lambda>i p.
        if fst (fst p) \<noteq> fst (snd p) then bc_fail (BC_Key path (fst (fst p)) (fst (snd p)))
        else bc_map (Pair (fst (fst p))) (?B (path @ [i]) (snd (fst p)) (snd (snd p)))) 0 (zip m n))) s =
      bc_map Map (traverse (\<lambda>i p.
        if fst (fst p) \<noteq> fst (snd p) then bc_fail (BC_Key path (fst (fst p)) (fst (snd p)))
        else bc_map (Pair (fst (fst p))) (?T (path @ [i]) (snd (fst p)) (snd (snd p)))) 0 (zip (map entry m) (map entry n))) s"
      by (rule arm_dicts [where R = "\<lambda>i. ?B (path @ [i])"])
        (use IH zip_weight(2) [OF l r Zip_Dicts] in \<open>simp add: refined_def\<close>)
    moreover have "tree_of l = Map (map entry m)" "tree_of r = Map (map entry n)" by (simp_all add: mn)
    ultimately show ?thesis using Zip_Dicts atoms
      by (simp add: tree_bc2.simps bc_map_apply [of tree_of] unf stop2_both bc_fail_def)
  next
    case (Zip_SeqDict xs n)
    then have xs: "is_list l" "xs = items l" "r = VDict n" using arm by auto
    have "bc_map tree_of (bc_map VDict (traverse (\<lambda>i p. bc_map (Pair (fst (snd p)))
        (?B (path @ [i]) (fst p) (snd (snd p)))) 0 (zip xs n))) s =
      bc_map Map (traverse (\<lambda>i p. bc_map (Pair (fst (snd p))) (?T (path @ [i]) (fst p) (snd (snd p)))) 0
        (zip (map tree_of xs) (map entry n))) s"
      by (rule arm_seq_dict [where R = "\<lambda>i. ?B (path @ [i])"])
        (use IH zip_weight(3) [OF l r Zip_SeqDict] in \<open>simp add: refined_def\<close>)
    moreover have "tree_of r = Map (map entry n)" by (simp add: xs)
    ultimately show ?thesis using xs(1,2) Zip_SeqDict atoms
      by (simp add: tree_of_list tree_bc2.simps bc_map_apply [of tree_of] unf stop2_both bc_fail_def)
  next
    case (Zip_DictSeq m ys)
    then have ys: "is_list r" "ys = items r" "l = VDict m" using arm by auto
    have "bc_map tree_of (bc_map VDict (traverse (\<lambda>i p. bc_map (Pair (fst (fst p)))
        (?B (path @ [i]) (snd (fst p)) (snd p))) 0 (zip m ys))) s =
      bc_map Map (traverse (\<lambda>i p. bc_map (Pair (fst (fst p))) (?T (path @ [i]) (snd (fst p)) (snd p))) 0
        (zip (map entry m) (map tree_of ys))) s"
      by (rule arm_dict_seq [where R = "\<lambda>i. ?B (path @ [i])"])
        (use IH zip_weight(4) [OF l r Zip_DictSeq] in \<open>simp add: refined_def\<close>)
    moreover have "tree_of l = Map (map entry m)" by (simp add: ys)
    ultimately show ?thesis using ys(1,2) Zip_DictSeq atoms
      by (simp add: tree_of_list tree_bc2.simps bc_map_apply [of tree_of] unf stop2_both bc_fail_def)
  next
    case Zip_Panic
    then show ?thesis using arm by simp
  qed
qed

lemma all_refined: "refined op l r"
proof (induction "weight l + weight r" arbitrary: l r rule: less_induct)
  case less
  consider "is_atom l" "is_atom r" | "is_atom l" "is_container r" | "is_container l" "is_atom r"
    | "is_container l" "is_container r"
    by (auto simp: atom_or_container)
  then show ?case
  proof cases
    case 1
    then have eq: "bc2_until Bc2_BothAtom op path l r s = bc_at_path path (op l r) s" for path s
      by (subst bc2_until.simps) (simp add: stop2_both)
    show ?thesis unfolding refined_def
    proof (intro allI)
      fix path s
      have "bc_map tree_of (bc2_until Bc2_BothAtom op path l r) s = bc_map tree_of (bc_at_path path (op l r)) s"
        by (simp only: bc_map_apply [of tree_of] eq)
      also have "\<dots> = tree_bc2 op path (tree_of l) (tree_of r) s" by (rule leaf2 [OF 1])
      finally show "bc_map tree_of (bc2_until Bc2_BothAtom op path l r) s =
        tree_bc2 op path (tree_of l) (tree_of r) s" .
    qed
  next
    case 2
    show ?thesis by (rule refined_left [OF 2]) (rule less, simp)
  next
    case 3
    show ?thesis by (rule refined_right [OF 3(2,1)]) (rule less, simp)
  next
    case 4
    show ?thesis by (rule refined_zip [OF 4]) (rule less)
  qed
qed

lemma bc2_refines_tree_aux: "tree_bc2 op [] (tree_of l) (tree_of r) s = bc_map tree_of (bc2 op l r) s"
  using all_refined [of op l r] by (simp add: bc2_def refined_def)

text \<open>C21: binary broadcasting is broadcasting of the trees the operands stand for. Whatever mix of
  packed lists, ranges, strings, general lists and dictionaries the two operands are, the operation
  is called on the same pairs of elements in the same order and at the same paths, with the same
  effects, the result is the tree of the results, and the first failure (unequal lengths, unequal
  keys or an error of the operation) is reported with the same path.\<close>

theorem bc2_refines_tree:
  "bc_map tree_of (bc2 op l r) s = tree_bc2 op [] (tree_of l) (tree_of r) s"
  by (rule bc2_refines_tree_aux [symmetric])

section \<open>No unreachable arm\<close>

definition no_panic :: "(bc_error + 'a) \<Rightarrow> bool" where
  "no_panic x \<longleftrightarrow> x \<noteq> Inl BC_Panic"

lemma no_panic_map: "no_panic (fst (bc_map f m s)) \<longleftrightarrow> no_panic (fst (m s))"
  by (auto simp: no_panic_def bc_map_def split: prod.splits sum.splits)

lemma no_panic_traverse:
  "(\<And>i x u. x \<in> set xs \<Longrightarrow> no_panic (fst (g i x u))) \<Longrightarrow> no_panic (fst (traverse g i xs s))"
proof (induction xs arbitrary: i s)
  case (Cons x xs)
  obtain q s' where q: "g i x s = (q, s')" by (cases "g i x s")
  then have "no_panic q" using Cons(2) [of x i s] by simp
  then show ?case using Cons q by (cases q) (auto simp: no_panic_map, simp add: no_panic_def)
qed (simp add: no_panic_def)

lemma no_panic_at_path: "no_panic (fst (bc_at_path path m s))"
  by (auto simp: no_panic_def bc_at_path_def split: prod.splits sum.splits)

lemma no_panic_fail [simp]:
  "no_panic (fst (bc_fail (BC_Length p a b) s))" "no_panic (fst (bc_fail (BC_Key p k q) s))"
  by (simp_all add: no_panic_def bc_fail_def)

lemma tree_bc2_no_panic: "no_panic (fst (tree_bc2 op path l r s))"
proof (induction op path l r s rule: tree_bc2.induct)
  case (7 op path m n s)
  then show ?case by (auto simp: tree_bc2.simps no_panic_map intro!: no_panic_traverse)
qed (auto simp: tree_bc2.simps no_panic_map no_panic_at_path intro!: no_panic_traverse)

text \<open>Every pair of operands is handled: binary broadcasting never reaches one of the
  \<open>unreachable!\<close> arms for a missing combination of containers.\<close>

theorem bc2_no_panic: "fst (bc2 op l r s) \<noteq> Inl BC_Panic"
proof -
  have "no_panic (fst (bc_map tree_of (bc2 op l r) s))"
    unfolding bc2_refines_tree_aux [symmetric] by (rule tree_bc2_no_panic)
  then show ?thesis unfolding no_panic_map by (simp add: no_panic_def)
qed

end
