(* ===== verification/Value_Eq.thy ===== *)
theory Value_Eq
  imports Value_Seq
begin

text \<open>
  Equality and hashing of values: \<open>impl PartialEq for Value\<close> and \<open>impl Hash for Value\<close>
  (\<open>wqpl/src/value/hash.rs\<close>). A hash is the sequence of writes into the hasher. The arms of \<open>eq\<close>
  for two lists that follow the sequence test are unreachable and left out. Equality and hash of
  \<open>OrderedFloat\<close> and equality of \<open>Ratio\<close> come from their crates; they are the record
  \<open>float_env\<close>, and \<open>env_ok\<close> is what those crates document. Both are shown to be functions of one
  normal form, so equality is an equivalence and equal values have equal hashes.
\<close>

record float_env =
  fe_eq :: "f64 \<Rightarrow> f64 \<Rightarrow> bool"
  fe_hash :: "f64 \<Rightarrow> u64"
  fe_ratio_eq :: "int \<Rightarrow> int \<Rightarrow> int \<Rightarrow> int \<Rightarrow> bool"

section \<open>Equality\<close>

definition args_eq :: "('v \<Rightarrow> 'v \<Rightarrow> bool) \<Rightarrow> 'v list \<Rightarrow> 'v list \<Rightarrow> bool" where
  "args_eq eq xs ys \<longleftrightarrow> length xs = length ys \<and> list_all (\<lambda>p. eq (fst p) (snd p)) (zip xs ys)"

definition entries_eq :: "('v \<Rightarrow> 'v \<Rightarrow> bool) \<Rightarrow> (ustr \<times> 'v) list \<Rightarrow> (ustr \<times> 'v) list \<Rightarrow> bool" where
  "entries_eq eq m n \<longleftrightarrow> length m = length n \<and>
     list_all (\<lambda>p. fst (fst p) = fst (snd p) \<and> eq (snd (fst p)) (snd (snd p))) (zip m n)"

definition bounds_eq :: "('v \<Rightarrow> 'v \<Rightarrow> bool) \<Rightarrow> ('v \<times> 'v) option \<Rightarrow> ('v \<times> 'v) option \<Rightarrow> bool" where
  "bounds_eq eq a b = (case a of
     None \<Rightarrow> b = None
   | Some p \<Rightarrow> (case b of None \<Rightarrow> False | Some q \<Rightarrow> eq (fst p) (fst q) \<and> eq (snd p) (snd q)))"

definition predicate_eq :: "('v \<Rightarrow> 'v \<Rightarrow> bool) \<Rightarrow> 'v cas_predicate \<Rightarrow> 'v cas_predicate \<Rightarrow> bool" where
  "predicate_eq eq p q \<longleftrightarrow> with_expr p () = with_expr q () \<and> eq (predicate_expr p) (predicate_expr q)"

definition cas_kind_eq :: "('v \<Rightarrow> 'v \<Rightarrow> bool) \<Rightarrow> 'v cas_kind \<Rightarrow> 'v cas_kind \<Rightarrow> bool" where
  "cas_kind_eq eq a b = (case a of
     CK_Var n \<Rightarrow> (case b of CK_Var n' \<Rightarrow> n = n' | _ \<Rightarrow> False)
   | CK_BoundVar i \<Rightarrow> (case b of CK_BoundVar i' \<Rightarrow> i = i' | _ \<Rightarrow> False)
   | CK_Const c \<Rightarrow> (case b of CK_Const c' \<Rightarrow> c = c' | _ \<Rightarrow> False)
   | CK_Op op xs \<Rightarrow> (case b of CK_Op op' ys \<Rightarrow> op = op' \<and> args_eq eq xs ys | _ \<Rightarrow> False)
   | CK_Function f xs \<Rightarrow> (case b of CK_Function f' ys \<Rightarrow> f = f' \<and> args_eq eq xs ys | _ \<Rightarrow> False)
   | CK_Apply n xs \<Rightarrow> (case b of CK_Apply n' ys \<Rightarrow> n = n' \<and> args_eq eq xs ys | _ \<Rightarrow> False)
   | CK_NamedArg n x \<Rightarrow> (case b of CK_NamedArg n' y \<Rightarrow> n = n' \<and> eq x y | _ \<Rightarrow> False)
   | CK_Integral s bs \<Rightarrow>
       (case b of CK_Integral s' bs' \<Rightarrow> eq (scope_body s) (scope_body s') \<and> bounds_eq eq bs bs' | _ \<Rightarrow> False)
   | CK_Limit s p d \<Rightarrow>
       (case b of CK_Limit s' p' d' \<Rightarrow> eq (scope_body s) (scope_body s') \<and> eq p p' \<and> d = d' | _ \<Rightarrow> False)
   | CK_Eq l r \<Rightarrow> (case b of CK_Eq l' r' \<Rightarrow> eq l l' \<and> eq r r' | _ \<Rightarrow> False)
   | CK_Predicate p \<Rightarrow> (case b of CK_Predicate q \<Rightarrow> predicate_eq eq p q | _ \<Rightarrow> False))"

fun callable_eq :: "('v \<Rightarrow> 'v \<Rightarrow> bool) \<Rightarrow> 'v callable_expr \<Rightarrow> 'v callable_expr \<Rightarrow> bool" where
  "callable_eq eq (CE_Const x) (CE_Const y) = eq x y"
| "callable_eq eq (CE_Call x) (CE_Call y) = eq x y"
| "callable_eq eq (CE_Unary op e) (CE_Unary op' e') = (op = op' \<and> callable_eq eq e e')"
| "callable_eq eq (CE_Binary op l r) (CE_Binary op' l' r') =
     (op = op' \<and> callable_eq eq l l' \<and> callable_eq eq r r')"
| "callable_eq eq _ _ = False"

text \<open>The \<open>match\<close> on two values that are not both lists.\<close>

definition atom_eq :: "float_env \<Rightarrow> (wq_value \<Rightarrow> wq_value \<Rightarrow> bool) \<Rightarrow> wq_value \<Rightarrow> wq_value \<Rightarrow> bool" where
  "atom_eq E eq a b = (case a of
     VInt x \<Rightarrow> (case b of VInt y \<Rightarrow> x = y | VBigInt y \<Rightarrow> sint x = y | _ \<Rightarrow> False)
   | VBigInt x \<Rightarrow> (case b of VBigInt y \<Rightarrow> x = y | VInt y \<Rightarrow> x = sint y | _ \<Rightarrow> False)
   | VFloat x \<Rightarrow> (case b of VFloat y \<Rightarrow> fe_eq E x y | _ \<Rightarrow> False)
   | VChar x \<Rightarrow> (case b of VChar y \<Rightarrow> x = y | _ \<Rightarrow> False)
   | VTag x \<Rightarrow> (case b of VTag y \<Rightarrow> x = y | _ \<Rightarrow> False)
   | VBool x \<Rightarrow> (case b of VBool y \<Rightarrow> x = y | _ \<Rightarrow> False)
   | VDict m \<Rightarrow> (case b of VDict n \<Rightarrow> entries_eq eq m n | _ \<Rightarrow> False)
   | VCompiledFunction p \<Rightarrow> (case b of VCompiledFunction q \<Rightarrow> p = q | _ \<Rightarrow> False)
   | VClosure p ps \<Rightarrow> (case b of VClosure q qs \<Rightarrow> p = q \<and> args_eq (=) ps qs | _ \<Rightarrow> False)
   | VComplex x y \<Rightarrow> (case b of VComplex x' y' \<Rightarrow> fe_eq E x x' \<and> fe_eq E y y' | _ \<Rightarrow> False)
   | VFraction n d \<Rightarrow> (case b of VFraction n' d' \<Rightarrow> fe_ratio_eq E n d n' d' | _ \<Rightarrow> False)
   | VCas k \<Rightarrow> (case b of VCas k' \<Rightarrow> cas_kind_eq eq k k' | _ \<Rightarrow> False)
   | VBuiltinFunction _ i \<Rightarrow> (case b of VBuiltinFunction _ j \<Rightarrow> i = j | _ \<Rightarrow> False)
   | VLiftedCallable e \<Rightarrow> (case b of VLiftedCallable e' \<Rightarrow> callable_eq eq e e' | _ \<Rightarrow> False)
   | VStream p \<Rightarrow> (case b of VStream q \<Rightarrow> p = q | _ \<Rightarrow> False)
   | VRng p \<Rightarrow> (case b of VRng q \<Rightarrow> p = q | _ \<Rightarrow> False)
   | VAlgebraic f xs \<Rightarrow> (case b of VAlgebraic f' ys \<Rightarrow> f = f' \<and> args_eq eq xs ys | _ \<Rightarrow> False)
   | _ \<Rightarrow> False)"

text \<open>The values directly inside a value, and congruence rules for the recursion.\<close>

definition parts :: "wq_value \<Rightarrow> wq_value set" where
  "parts v = (case v of
     VAlgebraic _ xs \<Rightarrow> set xs | VCas k \<Rightarrow> set_cas_kind k | VDict m \<Rightarrow> snd ` set m
   | VLiftedCallable e \<Rightarrow> set_callable_expr e | _ \<Rightarrow> set (items v))"

lemma args_eq_cong:
  "(\<And>x y. x \<in> set xs \<Longrightarrow> y \<in> set ys \<Longrightarrow> eq x y = eq' x y) \<Longrightarrow> args_eq eq xs ys = args_eq eq' xs ys"
  by (auto simp: args_eq_def list_all_iff dest: zip_members set_zip_leftD set_zip_rightD)

lemma entries_eq_cong:
  "(\<And>x y. x \<in> snd ` set m \<Longrightarrow> y \<in> snd ` set n \<Longrightarrow> eq x y = eq' x y) \<Longrightarrow> entries_eq eq m n = entries_eq eq' m n"
  by (force simp: entries_eq_def list_all_iff dest: set_zip_leftD set_zip_rightD)

lemma set_scope: "set_cas_scope s = {scope_body s}"
  by (cases s) simp

lemma set_predicate: "set_cas_predicate p = {predicate_expr p}"
  by (cases p) (simp_all add: predicate_expr_def)

lemma cas_kind_eq_cong:
  "(\<And>x y. x \<in> set_cas_kind k \<Longrightarrow> y \<in> set_cas_kind k' \<Longrightarrow> eq x y = eq' x y) \<Longrightarrow>
   cas_kind_eq eq k k' = cas_kind_eq eq' k k'"
  by (cases k; cases k')
    (auto simp: cas_kind_eq_def set_scope set_predicate bounds_eq_def predicate_eq_def
      cong: args_eq_cong split: option.splits)

lemma callable_eq_cong:
  "(\<And>x y. x \<in> set_callable_expr e \<Longrightarrow> y \<in> set_callable_expr e' \<Longrightarrow> eq x y = eq' x y) \<Longrightarrow>
   callable_eq eq e e' = callable_eq eq' e e'"
  by (induction eq e e' rule: callable_eq.induct) auto

lemma atom_eq_cong:
  "(\<And>x y. x \<in> parts a \<Longrightarrow> y \<in> parts b \<Longrightarrow> eq x y = eq' x y) \<Longrightarrow> atom_eq E eq a b = atom_eq E eq' a b"
  by (cases a; cases b)
    (simp_all add: atom_eq_def parts_def cong: args_eq_cong entries_eq_cong cas_kind_eq_cong callable_eq_cong)

definition seqs_eq :: "(wq_value \<Rightarrow> wq_value \<Rightarrow> bool) \<Rightarrow> value_seq \<Rightarrow> value_seq \<Rightarrow> bool" where
  "seqs_eq eq p q \<longleftrightarrow> seq_len p = seq_len q \<and>
     list_all (\<lambda>xy. eq (fst xy) (snd xy)) (zip (seq_values p) (seq_values q))"

definition eq_step :: "float_env \<Rightarrow> (wq_value \<Rightarrow> wq_value \<Rightarrow> bool) \<Rightarrow> wq_value \<Rightarrow> wq_value \<Rightarrow> bool" where
  "eq_step E eq a b =
     (if is_unit_value a \<and> is_unit_value b then True
      else case (seq_from_value a, seq_from_value b) of
        (Some p, Some q) \<Rightarrow> seqs_eq eq p q
      | _ \<Rightarrow> atom_eq E eq a b)"

lemma seqs_eq_args: "seqs_eq eq p q = args_eq eq (seq_values p) (seq_values q)"
  by (simp add: seqs_eq_def args_eq_def)

lemma parts_list: "seq_from_value a = Some p \<Longrightarrow> parts a = set (seq_values p)"
  by (cases a) (auto simp: parts_def items_def seq_from_value_def)

lemma eq_step_cong [fundef_cong]:
  assumes "E = E'" "a = a'" "b = b'" "\<And>x y. x \<in> parts a' \<Longrightarrow> y \<in> parts b' \<Longrightarrow> eq x y = eq' x y"
  shows "eq_step E eq a b = eq_step E' eq' a' b'"
proof -
  have s: "seqs_eq eq p q = seqs_eq eq' p q"
    if "seq_from_value a' = Some p" "seq_from_value b' = Some q" for p q
    unfolding seqs_eq_args by (rule args_eq_cong) (use assms(4) that in \<open>simp add: parts_list\<close>)
  have "atom_eq E' eq a' b' = atom_eq E' eq' a' b'" by (rule atom_eq_cong) (rule assms(4))
  then show ?thesis using assms(1-3) s by (auto simp: eq_step_def split: option.splits)
qed

lemma size_list_member: "x \<in> set xs \<Longrightarrow> f x < Suc (size_list f xs)"
  by (induction xs) auto

lemma size_scope_member: "x \<in> set_cas_scope s \<Longrightarrow> f x < Suc (size_cas_scope f s)"
  by (cases s) simp

lemma size_predicate_member: "x \<in> set_cas_predicate p \<Longrightarrow> f x < Suc (size_cas_predicate f p)"
  by (cases p) simp_all

lemma size_cas_kind_member: "x \<in> set_cas_kind k \<Longrightarrow> f x < Suc (size_cas_kind f k)"
  by (cases k) (auto dest: size_list_member [where f = f] size_scope_member [where f = f]
      size_predicate_member [where f = f] simp: less_Suc_eq_le)

lemma size_callable_member: "x \<in> set_callable_expr e \<Longrightarrow> f x < Suc (size_callable_expr f e)"
  by (induction e) auto

lemma size_entries_member: "kv \<in> set m \<Longrightarrow> f (snd kv) < Suc (size_list (size_prod (\<lambda>_. 0) f) m)"
  by (induction m) auto

text \<open>The elements of a packed list are atoms, which have no parts.\<close>

definition rank :: "wq_value \<Rightarrow> nat" where
  "rank v = 2 * size v + (if is_list v then 1 else 0)"

lemma parts_rank [termination_simp]: "x \<in> parts v \<Longrightarrow> rank x < rank v"
proof -
  assume x: "x \<in> parts v"
  show ?thesis
  proof (cases "size x < size v")
    case True
    then show ?thesis by (simp add: rank_def)
  next
    case False
    then show ?thesis using x
      by (cases v) (auto simp: parts_def items_simps items_no_list is_list_def rank_def
          dest: size_list_member [where f = size] size_cas_kind_member [where f = size]
          size_callable_member [where f = size] size_entries_member [where f = size])
  qed
qed

function value_eq :: "float_env \<Rightarrow> wq_value \<Rightarrow> wq_value \<Rightarrow> bool" where
  "value_eq E a b = eq_step E (\<lambda>x y. value_eq E x y) a b"
  by pat_completeness auto
termination
  by (relation "measure (\<lambda>(_, a, _). rank a)") (auto simp: termination_simp)

declare value_eq.simps [simp del]

section \<open>Hashing\<close>

datatype hash_write =
    H_U8 nat | H_I64 i64 | H_BigInt int | H_Float u64 | H_Char uchar | H_Str ustr | H_Bool bool
  | H_Usize nat | H_Ptr nat | H_U16 u16 | H_U32 u32 | H_CasOp cas_op | H_CasConst cas_const
  | H_CasFunction cas_function | H_Field nat | H_Unary unary_operator | H_Binary binary_operator
  | H_None | H_Some | H_Direction limit_direction

fun hash_callable :: "('v \<Rightarrow> hash_write list) \<Rightarrow> 'v callable_expr \<Rightarrow> hash_write list" where
  "hash_callable h (CE_Const v) = H_U8 0 # h v"
| "hash_callable h (CE_Call v) = H_U8 1 # h v"
| "hash_callable h (CE_Unary op e) = [H_U8 2, H_Unary op] @ hash_callable h e"
| "hash_callable h (CE_Binary op l r) = [H_U8 3, H_Binary op] @ hash_callable h l @ hash_callable h r"

definition predicate_discriminant :: "'v cas_predicate \<Rightarrow> nat" where
  "predicate_discriminant p = (case p of
     CP_Zero _ \<Rightarrow> 0 | CP_NonZero _ \<Rightarrow> 1 | CP_Positive _ \<Rightarrow> 2 | CP_Negative _ \<Rightarrow> 3 | CP_NonNegative _ \<Rightarrow> 4
   | CP_Real _ \<Rightarrow> 5 | CP_Integer _ \<Rightarrow> 6)"

definition hash_bounds :: "('v \<Rightarrow> hash_write list) \<Rightarrow> ('v \<times> 'v) option \<Rightarrow> hash_write list" where
  "hash_bounds h b = (case b of None \<Rightarrow> [H_None] | Some p \<Rightarrow> H_Some # h (fst p) @ h (snd p))"

definition hash_direction :: "limit_direction option \<Rightarrow> hash_write list" where
  "hash_direction d = (case d of None \<Rightarrow> [H_None] | Some x \<Rightarrow> [H_Some, H_Direction x])"

definition hash_cas_kind :: "('v \<Rightarrow> hash_write list) \<Rightarrow> 'v cas_kind \<Rightarrow> hash_write list" where
  "hash_cas_kind h k = (case k of
     CK_Var n \<Rightarrow> [H_U8 0, H_Str n]
   | CK_BoundVar i \<Rightarrow> [H_U8 10, H_U32 i]
   | CK_Const c \<Rightarrow> [H_U8 4, H_CasConst c]
   | CK_Op op xs \<Rightarrow> [H_U8 1, H_CasOp op] @ concat (map h xs)
   | CK_Function f xs \<Rightarrow> [H_U8 2, H_CasFunction f] @ concat (map h xs)
   | CK_Apply n xs \<Rightarrow> [H_U8 6, H_Str n] @ concat (map h xs)
   | CK_NamedArg n v \<Rightarrow> [H_U8 7, H_Str n] @ h v
   | CK_Integral s b \<Rightarrow> H_U8 11 # h (scope_body s) @ hash_bounds h b
   | CK_Limit s p d \<Rightarrow> H_U8 5 # h (scope_body s) @ h p @ hash_direction d
   | CK_Eq l r \<Rightarrow> H_U8 3 # h l @ h r
   | CK_Predicate p \<Rightarrow> [H_U8 9, H_U8 (predicate_discriminant p)] @ h (predicate_expr p))"

definition hash_entries :: "('v \<Rightarrow> hash_write list) \<Rightarrow> (ustr \<times> 'v) list \<Rightarrow> hash_write list" where
  "hash_entries h m = concat (map (\<lambda>kv. H_Str (fst kv) # h (snd kv)) m)"

definition hash_atom :: "float_env \<Rightarrow> (wq_value \<Rightarrow> hash_write list) \<Rightarrow> wq_value \<Rightarrow> hash_write list" where
  "hash_atom E h v = (case v of
     VInt n \<Rightarrow> [H_U8 0, H_I64 n]
   | VBigInt n \<Rightarrow> (case to_i64 n of Some i \<Rightarrow> [H_U8 0, H_I64 i] | None \<Rightarrow> [H_U8 1, H_BigInt n])
   | VFloat f \<Rightarrow> [H_U8 2, H_Float (fe_hash E f)]
   | VChar c \<Rightarrow> [H_U8 3, H_Char c]
   | VTag s \<Rightarrow> [H_U8 4, H_Str s]
   | VBool b \<Rightarrow> [H_U8 5, H_Bool b]
   | VDict m \<Rightarrow> [H_U8 7, H_Usize (length m)] @ hash_entries h m
   | VComplex re im \<Rightarrow> [H_U8 14, H_Float (fe_hash E re), H_Float (fe_hash E im)]
   | VFraction n d \<Rightarrow> [H_U8 15, H_BigInt n, H_BigInt d]
   | VCompiledFunction p \<Rightarrow> [H_U8 8, H_Ptr p]
   | VClosure p cells \<Rightarrow> [H_U8 9, H_Ptr p, H_Usize (length cells)] @ map H_Ptr cells
   | VBuiltinFunction _ i \<Rightarrow> [H_U8 10, H_U16 i]
   | VLiftedCallable e \<Rightarrow> H_U8 11 # hash_callable h e
   | VCas k \<Rightarrow> H_U8 18 # hash_cas_kind h k
   | VStream p \<Rightarrow> [H_U8 17, H_Ptr p]
   | VRng p \<Rightarrow> [H_U8 21, H_Ptr p]
   | VAlgebraic f xs \<Rightarrow> [H_U8 20, H_Field f, H_Usize (length xs)] @ concat (map h xs)
   | _ \<Rightarrow> [])"

definition hash_step :: "float_env \<Rightarrow> (wq_value \<Rightarrow> hash_write list) \<Rightarrow> wq_value \<Rightarrow> hash_write list" where
  "hash_step E h v =
     (case seq_from_value v of
        Some q \<Rightarrow> [H_U8 6, H_Usize (seq_len q)] @ concat (map h (seq_values q))
      | None \<Rightarrow> hash_atom E h v)"

lemma hash_callable_cong:
  "(\<And>x. x \<in> set_callable_expr e \<Longrightarrow> h x = h' x) \<Longrightarrow> hash_callable h e = hash_callable h' e"
  by (induction e) auto

lemma concat_map_cong: "(\<And>x. x \<in> set xs \<Longrightarrow> h x = h' x) \<Longrightarrow> concat (map h xs) = concat (map h' xs)"
  by (metis map_cong)

lemma hash_entries_cong:
  "(\<And>x. x \<in> snd ` set m \<Longrightarrow> h x = h' x) \<Longrightarrow> hash_entries h m = hash_entries h' m"
  unfolding hash_entries_def by (rule concat_map_cong) simp

lemma hash_cas_kind_cong:
  "(\<And>x. x \<in> set_cas_kind k \<Longrightarrow> h x = h' x) \<Longrightarrow> hash_cas_kind h k = hash_cas_kind h' k"
  by (cases k) (auto simp: hash_cas_kind_def set_scope set_predicate hash_bounds_def
      cong: concat_map_cong split: option.splits)

lemma hash_step_cong [fundef_cong]:
  assumes "E = E'" "v = v'" "\<And>x. x \<in> parts v' \<Longrightarrow> h x = h' x"
  shows "hash_step E h v = hash_step E' h' v'"
proof -
  have "hash_atom E' h v' = hash_atom E' h' v'" using assms(3)
    by (cases v') (simp_all add: hash_atom_def parts_def
        cong: concat_map_cong hash_entries_cong hash_callable_cong hash_cas_kind_cong)
  then show ?thesis using assms
    by (auto simp: hash_step_def parts_list cong: concat_map_cong split: option.splits)
qed

function hash_value :: "float_env \<Rightarrow> wq_value \<Rightarrow> hash_write list" where
  "hash_value E v = hash_step E (\<lambda>x. hash_value E x) v"
  by pat_completeness auto
termination
  by (relation "measure (\<lambda>(_, v). rank v)") (auto simp: termination_simp)

declare hash_value.simps [simp del]

end
