(* ===== verification/Value_Norm.thy ===== *)
theory Value_Norm
  imports Value_Eq
begin

text \<open>
  The normal form behind equality and hashing of values (\<open>wqpl/src/value/hash.rs\<close>): integers of
  both widths are one integer, a float is its class, every list representation is the list of its
  elements, and the variable name of a symbolic scope is forgotten. Two values are equal exactly
  when their normal forms are, and the writes of a hash are a function of the normal form.
\<close>

datatype norm =
    N_Int int
  | N_Float "f64 set"
  | N_Complex "f64 set" "f64 set"
  | N_Fraction int int
  | N_Algebraic nat "norm list"
  | N_Char uchar
  | N_Tag ustr
  | N_Bool bool
  | N_Seq "norm list"
  | N_Cas "norm cas_kind"
  | N_Dict "(ustr \<times> norm) list"
  | N_CompiledFunction nat
  | N_Closure nat "nat list"
  | N_BuiltinFunction u16
  | N_LiftedCallable "norm callable_expr"
  | N_Rng nat
  | N_Stream nat

definition forget_hint :: "'v cas_scope \<Rightarrow> 'v cas_scope" where
  "forget_hint s = CasScope (scope_body s) []"

definition forget_hints :: "'v cas_kind \<Rightarrow> 'v cas_kind" where
  "forget_hints k = (case k of
     CK_Integral s b \<Rightarrow> CK_Integral (forget_hint s) b | CK_Limit s p d \<Rightarrow> CK_Limit (forget_hint s) p d
   | _ \<Rightarrow> k)"

definition float_class :: "float_env \<Rightarrow> f64 \<Rightarrow> f64 set" where
  "float_class E x = {y. fe_eq E x y}"

primrec nf :: "float_env \<Rightarrow> wq_value \<Rightarrow> norm" where
  "nf E (VInt i) = N_Int (sint i)"
| "nf E (VBigInt n) = N_Int n"
| "nf E (VFloat x) = N_Float (float_class E x)"
| "nf E (VComplex x y) = N_Complex (float_class E x) (float_class E y)"
| "nf E (VFraction n d) = N_Fraction n d"
| "nf E (VAlgebraic f xs) = N_Algebraic f (map (nf E) xs)"
| "nf E (VChar c) = N_Char c"
| "nf E (VTag s) = N_Tag s"
| "nf E (VBool b) = N_Bool b"
| "nf E (VIntList is) = N_Seq (map (\<lambda>i. N_Int (sint i)) is)"
| "nf E (VIntRange r) = N_Seq (map (\<lambda>i. N_Int (sint i)) (ir_to_vec r))"
| "nf E (VFloatList fs) = N_Seq (map (\<lambda>x. N_Float (float_class E x)) fs)"
| "nf E (VBoolList bs) = N_Seq (map N_Bool bs)"
| "nf E (VList xs) = N_Seq (map (nf E) xs)"
| "nf E (VString cs) = N_Seq (map N_Char cs)"
| "nf E (VCas k) = N_Cas (forget_hints (map_cas_kind (nf E) k))"
| "nf E (VDict m) = N_Dict (map (map_prod id (nf E)) m)"
| "nf E (VCompiledFunction p) = N_CompiledFunction p"
| "nf E (VClosure p ps) = N_Closure p ps"
| "nf E (VBuiltinFunction n i) = N_BuiltinFunction i"
| "nf E (VLiftedCallable e) = N_LiftedCallable (map_callable_expr (nf E) e)"
| "nf E (VRng p) = N_Rng p"
| "nf E (VStream p) = N_Stream p"

lemma nf_list: "is_list v \<Longrightarrow> nf E v = N_Seq (map (nf E) (items v))"
  by (cases v) (simp_all add: is_list_def items_simps)

section \<open>Assumptions\<close>

text \<open>What \<open>ordered_float\<close> and \<open>num_rational\<close> document, and the values the program builds: every
  fraction inside is in normal form (theorem \<open>fraction_normal_form\<close>).\<close>

definition env_ok :: "float_env \<Rightarrow> bool" where
  "env_ok E \<longleftrightarrow> equivp (fe_eq E) \<and> (\<forall>x y. fe_eq E x y \<longrightarrow> fe_hash E x = fe_hash E y) \<and>
     (\<forall>n d n' d'. 0 < d \<longrightarrow> 0 < d' \<longrightarrow> fe_ratio_eq E n d n' d' = (n * d' = n' * d))"

function value_ok :: "wq_value \<Rightarrow> bool" where
  "value_ok v \<longleftrightarrow> (case v of VFraction n d \<Rightarrow> 0 < d \<and> coprime n d | _ \<Rightarrow> True) \<and> (\<forall>x\<in>parts v. value_ok x)"
  by pat_completeness auto
termination
  by (relation "measure rank") (auto simp: termination_simp)

declare value_ok.simps [simp del]

text \<open>\<open>OrderedFloat\<close> on bit patterns: all NaNs are equal, and so are the two zeros.\<close>

definition float_key :: "f64 \<Rightarrow> u64" where
  "float_key b =
     (if take_bit 11 (drop_bit 52 b) = 0x7FF \<and> take_bit 52 b \<noteq> 0 then 0x7FF8000000000000
      else if take_bit 63 b = 0 then 0 else b)"

definition std_env :: float_env where
  "std_env = \<lparr>fe_eq = (\<lambda>x y. float_key x = float_key y), fe_hash = float_key,
     fe_ratio_eq = (\<lambda>n d n' d'. n * d' = n' * d)\<rparr>"

lemma env_ok_std: "env_ok std_env"
  by (auto simp: env_ok_def std_env_def intro!: equivpI reflpI sympI transpI)

lemma env_okD:
  assumes "env_ok E"
  shows "equivp (fe_eq E)" and "fe_eq E x y \<Longrightarrow> fe_hash E x = fe_hash E y"
    and "0 < d \<Longrightarrow> 0 < d' \<Longrightarrow> fe_ratio_eq E n d n' d' \<longleftrightarrow> n * d' = n' * d"
  using assms unfolding env_ok_def by blast+

lemma float_class_eq: "env_ok E \<Longrightarrow> float_class E x = float_class E y \<longleftrightarrow> fe_eq E x y"
proof -
  assume "env_ok E"
  then have "fe_eq E x y \<longleftrightarrow> fe_eq E x = fe_eq E y" unfolding env_ok_def equivp_def by blast
  moreover have "fe_eq E x = fe_eq E y" if "float_class E x = float_class E y"
  proof
    fix z
    have "z \<in> float_class E x \<longleftrightarrow> z \<in> float_class E y" using that by simp
    then show "fe_eq E x z = fe_eq E y z" by (simp add: float_class_def)
  qed
  moreover have "float_class E x = float_class E y" if "fe_eq E x = fe_eq E y"
    using that by (simp add: float_class_def)
  ultimately show ?thesis by blast
qed

lemma sint_inject: "sint x = sint y \<longleftrightarrow> x = y" for x y :: i64
  by (metis word_of_sint)

lemma ratio_normal:
  assumes "env_ok E" "0 < d" "coprime n d" "0 < d'" "coprime n' d'"
  shows "fe_ratio_eq E n d n' d' \<longleftrightarrow> n = n' \<and> d = d'"
proof
  assume "fe_ratio_eq E n d n' d'"
  then have eq: "n * d' = n' * d" using assms by (simp add: env_ok_def)
  have "d dvd n * d'" using eq by simp
  then have "d dvd d'" using assms(3) by (simp add: coprime_commute coprime_dvd_mult_right_iff)
  moreover have "d' dvd n' * d" by (simp flip: eq)
  then have "d' dvd d" using assms(5) by (simp add: coprime_commute coprime_dvd_mult_right_iff)
  ultimately have "d = d'" using assms(2,4) by (simp add: zdvd_antisym_nonneg)
  then show "n = n' \<and> d = d'" using eq assms(2) by simp
qed (use assms in \<open>auto simp: env_ok_def\<close>)

section \<open>Equality is equality of normal forms\<close>

lemma args_eq_nf:
  "(\<And>x y. x \<in> set xs \<Longrightarrow> y \<in> set ys \<Longrightarrow> eq x y \<longleftrightarrow> f x = f y) \<Longrightarrow> args_eq eq xs ys \<longleftrightarrow> map f xs = map f ys"
proof (induction xs arbitrary: ys)
  case (Cons x xs)
  then show ?case by (cases ys) (auto simp: args_eq_def)
qed (auto simp: args_eq_def)

lemma entries_eq_nf:
  "(\<And>x y. x \<in> snd ` set m \<Longrightarrow> y \<in> snd ` set n \<Longrightarrow> eq x y \<longleftrightarrow> f x = f y) \<Longrightarrow>
   entries_eq eq m n \<longleftrightarrow> map (map_prod id f) m = map (map_prod id f) n"
proof (induction m arbitrary: n)
  case (Cons x m)
  then show ?case by (cases x; cases n) (auto simp: entries_eq_def)
qed (auto simp: entries_eq_def)

lemma predicate_eq_nf:
  "(\<And>x y. x \<in> set_cas_predicate p \<Longrightarrow> y \<in> set_cas_predicate q \<Longrightarrow> eq x y \<longleftrightarrow> f x = f y) \<Longrightarrow>
   predicate_eq eq p q \<longleftrightarrow> map_cas_predicate f p = map_cas_predicate f q"
  by (cases p; cases q) (simp_all add: predicate_eq_def predicate_expr_def with_expr_def)

lemma cas_kind_eq_nf:
  "(\<And>x y. x \<in> set_cas_kind k \<Longrightarrow> y \<in> set_cas_kind k' \<Longrightarrow> eq x y \<longleftrightarrow> f x = f y) \<Longrightarrow>
   cas_kind_eq eq k k' \<longleftrightarrow> forget_hints (map_cas_kind f k) = forget_hints (map_cas_kind f k')"
  by (cases k; cases k')
    (auto simp: cas_kind_eq_def forget_hints_def forget_hint_def set_scope bounds_eq_def
      cas_scope.map_sel args_eq_nf predicate_eq_nf split: option.splits)

lemma callable_eq_nf:
  "(\<And>x y. x \<in> set_callable_expr e \<Longrightarrow> y \<in> set_callable_expr e' \<Longrightarrow> eq x y \<longleftrightarrow> f x = f y) \<Longrightarrow>
   callable_eq eq e e' \<longleftrightarrow> map_callable_expr f e = map_callable_expr f e'"
  by (induction eq e e' rule: callable_eq.induct) auto

lemma parts_ok: "value_ok v \<Longrightarrow> x \<in> parts v \<Longrightarrow> value_ok x"
  by (simp add: value_ok.simps [of v])

lemma fraction_ok: "value_ok (VFraction n d) \<Longrightarrow> 0 < d \<and> coprime n d"
  by (simp add: value_ok.simps [of "VFraction n d"])

text \<open>Both sides distinguish the constructors, the two widths of integers and the lists apart.\<close>

primrec norm_class :: "norm \<Rightarrow> nat" where
  "norm_class (N_Int _) = 10" | "norm_class (N_Float _) = 11" | "norm_class (N_Complex _ _) = 12"
| "norm_class (N_Fraction _ _) = 13" | "norm_class (N_Algebraic _ _) = 14" | "norm_class (N_Char _) = 15"
| "norm_class (N_Tag _) = 16" | "norm_class (N_Bool _) = 17" | "norm_class (N_Seq _) = 18"
| "norm_class (N_Cas _) = 19" | "norm_class (N_Dict _) = 20" | "norm_class (N_CompiledFunction _) = 21"
| "norm_class (N_Closure _ _) = 22" | "norm_class (N_BuiltinFunction _) = 23"
| "norm_class (N_LiftedCallable _) = 24" | "norm_class (N_Rng _) = 25" | "norm_class (N_Stream _) = 26"

lemma atom_eq_class: "atom_eq E eq a b \<Longrightarrow> norm_class (nf E a) = norm_class (nf E b)"
  by (cases a) (simp_all add: atom_eq_def split: wq_value.splits)

lemma class_inv:
  "norm_class (nf E b) = 10 \<longleftrightarrow> (\<exists>x. b = VInt x) \<or> (\<exists>n. b = VBigInt n)"
  "norm_class (nf E b) = 11 \<longleftrightarrow> (\<exists>x. b = VFloat x)"
  "norm_class (nf E b) = 12 \<longleftrightarrow> (\<exists>x y. b = VComplex x y)"
  "norm_class (nf E b) = 13 \<longleftrightarrow> (\<exists>n d. b = VFraction n d)"
  "norm_class (nf E b) = 14 \<longleftrightarrow> (\<exists>f xs. b = VAlgebraic f xs)"
  "norm_class (nf E b) = 15 \<longleftrightarrow> (\<exists>c. b = VChar c)"
  "norm_class (nf E b) = 16 \<longleftrightarrow> (\<exists>t. b = VTag t)"
  "norm_class (nf E b) = 17 \<longleftrightarrow> (\<exists>t. b = VBool t)"
  "norm_class (nf E b) = 18 \<longleftrightarrow> is_list b"
  "norm_class (nf E b) = 19 \<longleftrightarrow> (\<exists>k. b = VCas k)"
  "norm_class (nf E b) = 20 \<longleftrightarrow> (\<exists>m. b = VDict m)"
  "norm_class (nf E b) = 21 \<longleftrightarrow> (\<exists>p. b = VCompiledFunction p)"
  "norm_class (nf E b) = 22 \<longleftrightarrow> (\<exists>p ps. b = VClosure p ps)"
  "norm_class (nf E b) = 23 \<longleftrightarrow> (\<exists>n i. b = VBuiltinFunction n i)"
  "norm_class (nf E b) = 24 \<longleftrightarrow> (\<exists>e. b = VLiftedCallable e)"
  "norm_class (nf E b) = 25 \<longleftrightarrow> (\<exists>p. b = VRng p)"
  "norm_class (nf E b) = 26 \<longleftrightarrow> (\<exists>p. b = VStream p)"
  by (cases b; simp add: is_list_def)+

lemma atom_eq_nf:
  assumes E: "env_ok E" and ok: "value_ok a" "value_ok b" and l: "\<not> (is_list a \<and> is_list b)"
    and eq: "\<And>x y. x \<in> parts a \<Longrightarrow> y \<in> parts b \<Longrightarrow> eq x y \<longleftrightarrow> nf E x = nf E y"
  shows "atom_eq E eq a b \<longleftrightarrow> nf E a = nf E b"
proof -
  have args: "args_eq eq xs ys \<longleftrightarrow> map (nf E) xs = map (nf E) ys"
    if "set xs \<subseteq> parts a" "set ys \<subseteq> parts b" for xs ys
    by (rule args_eq_nf) (use that eq in blast)
  have entries: "entries_eq eq m n \<longleftrightarrow> map (map_prod id (nf E)) m = map (map_prod id (nf E)) n"
    if "snd ` set m \<subseteq> parts a" "snd ` set n \<subseteq> parts b" for m n
    by (rule entries_eq_nf) (use that eq in blast)
  have cas: "cas_kind_eq eq k k' \<longleftrightarrow>
      forget_hints (map_cas_kind (nf E) k) = forget_hints (map_cas_kind (nf E) k')"
    if "set_cas_kind k \<subseteq> parts a" "set_cas_kind k' \<subseteq> parts b" for k k'
    by (rule cas_kind_eq_nf) (use that eq in blast)
  have calls: "callable_eq eq e e' \<longleftrightarrow> map_callable_expr (nf E) e = map_callable_expr (nf E) e'"
    if "set_callable_expr e \<subseteq> parts a" "set_callable_expr e' \<subseteq> parts b" for e e'
    by (rule callable_eq_nf) (use that eq in blast)
  have ptrs: "args_eq (=) ps qs \<longleftrightarrow> ps = qs" for ps qs :: "nat list"
    using args_eq_nf [of ps qs "(=)" id] by simp
  show ?thesis
  proof (cases "norm_class (nf E b) = norm_class (nf E a)")
    case True
    then have "\<not> is_list a" using l class_inv(9) [of E a] class_inv(9) [of E b] by auto
    then show ?thesis using True ok args entries cas calls
      by (cases a) (auto simp: class_inv atom_eq_def parts_def is_list_def ptrs float_class_eq [OF E]
          ratio_normal [OF E] sint_inject dest!: fraction_ok)
  next
    case False
    then have "nf E a \<noteq> nf E b" by auto
    then show ?thesis using False atom_eq_class [of E eq a b] by auto
  qed
qed

lemma unit_nf: "is_unit_value v \<Longrightarrow> nf E v = N_Seq []"
  by (cases v) (auto simp: is_unit_value_def is_list_def is_empty_def value_len_def seq_from_value_def seq_len_def
      simp flip: length_0_conv)

lemma items_seq: "seq_from_value v = Some q \<Longrightarrow> items v = seq_values q"
  by (simp add: items_def)

lemma value_eq_nf_aux:
  assumes E: "env_ok E"
  shows "value_ok a \<Longrightarrow> value_ok b \<Longrightarrow> value_eq E a b \<longleftrightarrow> nf E a = nf E b"
proof (induction "rank a" arbitrary: a b rule: less_induct)
  case less
  have IH: "value_eq E x y \<longleftrightarrow> nf E x = nf E y" if "x \<in> parts a" "y \<in> parts b" for x y
    by (rule less(1)) (use that less(2,3) in \<open>auto intro: parts_ok parts_rank\<close>)
  have step: "value_eq E a b = eq_step E (value_eq E) a b" by (subst value_eq.simps) simp
  show ?case
  proof (cases "is_unit_value a \<and> is_unit_value b")
    case True
    then show ?thesis using unit_nf [of a E] unit_nf [of b E] by (simp add: step eq_step_def)
  next
    case False
    show ?thesis
    proof (cases "is_list a \<and> is_list b")
      case True
      then obtain p q where pq: "seq_from_value a = Some p" "seq_from_value b = Some q"
        by (auto simp: list_has_seq)
      have "seqs_eq (value_eq E) p q \<longleftrightarrow> map (nf E) (seq_values p) = map (nf E) (seq_values q)"
        unfolding seqs_eq_args by (rule args_eq_nf) (use IH pq in \<open>simp add: parts_list\<close>)
      moreover have "value_eq E a b = seqs_eq (value_eq E) p q" using False pq by (auto simp: step eq_step_def)
      ultimately show ?thesis using True pq by (simp add: nf_list items_seq)
    next
      case False
      then have "eq_step E (value_eq E) a b = atom_eq E (value_eq E) a b"
        by (auto simp: eq_step_def list_has_seq is_unit_value_def split: option.splits)
      then show ?thesis using atom_eq_nf [OF E less(2,3) False IH] step by simp
    qed
  qed
qed

section \<open>Hashes are functions of the normal form\<close>

text \<open>The parts of a normal form, its writes, and the class of a float hashed once.\<close>

lemma hash_callable_map: "hash_callable h (map_callable_expr f e) = hash_callable (\<lambda>x. h (f x)) e"
  by (induction e) auto

lemma hash_entries_map: "hash_entries h (map (map_prod id f) m) = hash_entries (\<lambda>x. h (f x)) m"
  by (simp add: hash_entries_def comp_def)

lemma hash_cas_kind_map:
  "hash_cas_kind h (forget_hints (map_cas_kind f k)) = hash_cas_kind (\<lambda>x. h (f x)) k"
proof (cases k)
  case (CK_Predicate p)
  then show ?thesis by (cases p)
      (simp_all add: hash_cas_kind_def forget_hints_def predicate_discriminant_def predicate_expr_def)
qed (auto simp: hash_cas_kind_def forget_hints_def forget_hint_def cas_scope.map_sel hash_bounds_def
    comp_def split: option.splits)

definition class_hash :: "float_env \<Rightarrow> f64 set \<Rightarrow> u64" where
  "class_hash E C = the_elem (fe_hash E ` C)"

primrec norm_hash :: "float_env \<Rightarrow> norm \<Rightarrow> hash_write list" where
  "norm_hash E (N_Int n) = (case to_i64 n of Some i \<Rightarrow> [H_U8 0, H_I64 i] | None \<Rightarrow> [H_U8 1, H_BigInt n])"
| "norm_hash E (N_Float c) = [H_U8 2, H_Float (class_hash E c)]"
| "norm_hash E (N_Complex c d) = [H_U8 14, H_Float (class_hash E c), H_Float (class_hash E d)]"
| "norm_hash E (N_Fraction n d) = [H_U8 15, H_BigInt n, H_BigInt d]"
| "norm_hash E (N_Algebraic f xs) = [H_U8 20, H_Field f, H_Usize (length xs)] @ concat (map (norm_hash E) xs)"
| "norm_hash E (N_Char c) = [H_U8 3, H_Char c]"
| "norm_hash E (N_Tag s) = [H_U8 4, H_Str s]"
| "norm_hash E (N_Bool b) = [H_U8 5, H_Bool b]"
| "norm_hash E (N_Seq xs) = [H_U8 6, H_Usize (length xs)] @ concat (map (norm_hash E) xs)"
| "norm_hash E (N_Cas k) = H_U8 18 # hash_cas_kind id (map_cas_kind (norm_hash E) k)"
| "norm_hash E (N_Dict m) = [H_U8 7, H_Usize (length m)] @ hash_entries id (map (map_prod id (norm_hash E)) m)"
| "norm_hash E (N_CompiledFunction p) = [H_U8 8, H_Ptr p]"
| "norm_hash E (N_Closure p ps) = [H_U8 9, H_Ptr p, H_Usize (length ps)] @ map H_Ptr ps"
| "norm_hash E (N_BuiltinFunction i) = [H_U8 10, H_U16 i]"
| "norm_hash E (N_LiftedCallable e) = H_U8 11 # hash_callable id (map_callable_expr (norm_hash E) e)"
| "norm_hash E (N_Rng p) = [H_U8 21, H_Ptr p]"
| "norm_hash E (N_Stream p) = [H_U8 17, H_Ptr p]"

lemma class_hash: "env_ok E \<Longrightarrow> class_hash E (float_class E x) = fe_hash E x"
proof -
  assume "env_ok E"
  then have x: "x \<in> float_class E x" by (simp add: float_class_def env_okD(1) equivp_reflp)
  have const: "fe_hash E y = fe_hash E x" if "y \<in> float_class E x" for y
    using that unfolding float_class_def mem_Collect_eq
    by (rule env_okD(2) [OF \<open>env_ok E\<close>, symmetric])
  have "fe_hash E ` float_class E x = (\<lambda>_. fe_hash E x) ` float_class E x"
    by (rule image_cong [OF refl const])
  then have "fe_hash E ` float_class E x = {fe_hash E x}" using image_constant [OF x] by simp
  then show ?thesis by (simp add: class_hash_def)
qed

lemma hash_norm: "env_ok E \<Longrightarrow> hash_value E v = norm_hash E (nf E v)"
proof (induction "rank v" arbitrary: v rule: less_induct)
  case less
  have IH: "hash_value E x = norm_hash E (nf E x)" if "x \<in> parts v" for x
    by (rule less(1)) (use that less(2) in \<open>auto intro: parts_rank\<close>)
  have step: "hash_value E v = hash_step E (hash_value E) v" by (subst hash_value.simps) simp
  have args: "concat (map (hash_value E) xs) = concat (map (norm_hash E) (map (nf E) xs))"
    if "set xs \<subseteq> parts v" for xs
    unfolding map_map by (rule concat_map_cong) (use that IH in auto)
  show ?case
  proof (cases "seq_from_value v")
    case (Some q)
    then have "is_list v" by (simp add: list_has_seq)
    then show ?thesis using args [of "seq_values q"] Some
      by (simp add: step hash_step_def nf_list items_seq parts_list)
  next
    case None
    have ent: "hash_entries (hash_value E) m = hash_entries id (map (map_prod id (norm_hash E)) (map (map_prod id (nf E)) m))"
      if "snd ` set m \<subseteq> parts v" for m
      unfolding hash_entries_map by (rule hash_entries_cong) (use that IH in auto)
    have cas: "hash_cas_kind (hash_value E) k =
        hash_cas_kind id (map_cas_kind (norm_hash E) (forget_hints (map_cas_kind (nf E) k)))"
      if "set_cas_kind k \<subseteq> parts v" for k
    proof -
      have "map_cas_kind (norm_hash E) (forget_hints (map_cas_kind (nf E) k)) =
          forget_hints (map_cas_kind (\<lambda>x. norm_hash E (nf E x)) k)"
        by (cases k) (simp_all add: forget_hints_def forget_hint_def cas_scope.map_sel cas_kind.map_comp comp_def
            option.map_comp cas_scope.map_comp cas_predicate.map_comp prod.map_comp)
      then show ?thesis unfolding hash_cas_kind_map
        by (simp add: hash_cas_kind_map) (rule hash_cas_kind_cong, use that IH in auto)
    qed
    have calls: "hash_callable (hash_value E) e =
        hash_callable id (map_callable_expr (norm_hash E) (map_callable_expr (nf E) e))"
      if "set_callable_expr e \<subseteq> parts v" for e
      unfolding hash_callable_map by (rule hash_callable_cong) (use that IH in auto)
    show ?thesis unfolding step hash_step_def using None args ent cas calls class_hash [OF less(2)]
      by (cases v) (simp_all add: hash_atom_def parts_def seq_from_value_def)
  qed
qed

section \<open>The contract of keys\<close>

lemma value_okI: "parts v = {} \<Longrightarrow> (\<forall>n d. v \<noteq> VFraction n d) \<Longrightarrow> value_ok v"
  by (subst value_ok.simps) (auto split: wq_value.splits)

lemma value_ok_list: "is_list v \<Longrightarrow> value_ok v \<longleftrightarrow> (\<forall>x\<in>set (items v). value_ok x)"
  by (subst value_ok.simps) (cases v; simp add: parts_def is_list_def)

lemma value_ok_atoms [simp]: "value_ok (VInt i)" "value_ok (VBigInt n)" "value_ok (VTag t)" "value_ok (VBool b)" "value_ok (VChar c)"
  by (rule value_okI; simp add: parts_def items_no_list is_list_def)+

lemma value_ok_lists [simp]:
  "value_ok (VIntList is)" "value_ok (VIntRange r)" "value_ok (VList xs) \<longleftrightarrow> (\<forall>x\<in>set xs. value_ok x)"
  by (simp_all add: value_ok_list is_list_def items_simps)

text \<open>C22: \<open>PartialEq\<close> on values is the equivalence \<open>Eq\<close> asserts: reflexive, symmetric and
  transitive on values whose fractions are in normal form, across the eight ways to store a list,
  when the comparison of floats taken from \<open>ordered-float\<close> is an equivalence and an integral fraction
  is not equal to two unequal floats.\<close>

theorem value_eq_equivalence:
  assumes "env_ok E" "value_ok a" "value_ok b" "value_ok c"
  shows "value_eq E a a \<and> (value_eq E a b \<longrightarrow> value_eq E b a) \<and>
    (value_eq E a b \<longrightarrow> value_eq E b c \<longrightarrow> value_eq E a c)"
  using assms(2-4) value_eq_nf_aux [OF assms(1)] by simp

theorem value_eq_equivalence_witness:
  "value_eq std_env (VIntList [1]) (VList [VInt 1]) \<and> value_eq std_env (VList [VInt 1]) (VList [VBigInt 1]) \<and>
   value_eq std_env (VIntList [1]) (VList [VBigInt 1])"
proof -
  have ok: "value_ok (VIntList [1])" "value_ok (VList [VInt 1])" "value_ok (VList [VBigInt 1])" by simp_all
  have "value_eq std_env (VIntList [1]) (VList [VInt 1])" "value_eq std_env (VList [VInt 1]) (VList [VBigInt 1])"
    using ok by (simp_all add: value_eq_nf_aux [OF env_ok_std])
  then show ?thesis using value_eq_equivalence [OF env_ok_std ok] by blast
qed

text \<open>C23: equal values write the same bytes to a hasher, however they are stored, so that values are
  usable as keys of the crate's maps and sets.\<close>

theorem equal_values_hash_equal:
  assumes "env_ok E" "value_ok a" "value_ok b" "value_eq E a b"
  shows "hash_value E a = hash_value E b"
  using value_eq_nf_aux [OF assms(1-3)] assms(4) hash_norm [OF assms(1)] by simp

theorem equal_values_hash_equal_witness:
  "hash_value std_env (VList [VInt 1]) = hash_value std_env (VIntList [1])"
proof (rule equal_values_hash_equal [OF env_ok_std])
  show ok: "value_ok (VList [VInt 1])" "value_ok (VIntList [1])"
    by simp_all
  show "value_eq std_env (VList [VInt 1]) (VIntList [1])"
    by (simp add: value_eq_nf_aux [OF env_ok_std ok])
qed

end
