(* ===== verification/Value_Set.thy ===== *)
theory Value_Set
  imports Value_Norm
begin

text \<open>
  The set builtins of \<open>wqpl/src/builtins/set.rs\<close>. Each builtin is applied to positional arguments
  whose number the registry has checked. \<open>IndexSet\<close> comes from its crate: a set is the list of its
  keys in insertion order, and whether a key is in it is asked of the parameter \<open>contains\<close>. The
  crate documents that a key is found when an equal key was inserted, provided equal keys have equal
  hashes; \<open>Value_Norm\<close> shows that values meet this condition. Machine integers are their own keys.
\<close>

section \<open>Hash sets\<close>

type_synonym 'k membership = "'k list \<Rightarrow> 'k \<Rightarrow> bool"

definition set_insert :: "'k membership \<Rightarrow> 'k list \<Rightarrow> 'k \<Rightarrow> 'k list \<times> bool" where
  "set_insert contains s x = (if contains s x then (s, False) else (s @ [x], True))"

definition set_collect :: "'k membership \<Rightarrow> 'k list \<Rightarrow> 'k list" where
  "set_collect contains xs = foldl (\<lambda>s x. fst (set_insert contains s x)) [] xs"

text \<open>\<open>unique_items\<close> and \<open>unique_int_items\<close>: the state is the set and the output.\<close>

definition unique_step :: "'k membership \<Rightarrow> 'k list \<times> 'k list \<Rightarrow> 'k \<Rightarrow> 'k list \<times> 'k list" where
  "unique_step contains st x =
     (case st of (seen, out) \<Rightarrow>
        case set_insert contains seen x of (seen', new) \<Rightarrow> (seen', if new then out @ [x] else out))"

definition unique_items :: "'k membership \<Rightarrow> 'k list \<Rightarrow> 'k list" where
  "unique_items contains xs = snd (foldl (unique_step contains) ([], []) xs)"

definition int_contains :: "i64 membership" where
  "int_contains s x \<longleftrightarrow> x \<in> set s"

section \<open>Operands\<close>

definition seq_items :: "wq_value \<Rightarrow> wq_value list" where
  "seq_items v =
     (case list_storage_from_value v of
        Some s \<Rightarrow> storage_values s
      | None \<Rightarrow> (case v of VString cs \<Rightarrow> map VChar cs | VDict m \<Rightarrow> map (\<lambda>kv. VTag (fst kv)) m | _ \<Rightarrow> [v]))"

definition require_explicit_dict_projection :: "string \<Rightarrow> wq_value list \<Rightarrow> wq_error option" where
  "require_explicit_dict_projection src args =
     (if list_ex is_dict args
      then Some (with_msg (lit ''expected atom or list'') (with_src (lit src) (new_error W_Domain)))
      else None)"

definition with_no_dict :: "string \<Rightarrow> wq_value list \<Rightarrow> wq_value \<Rightarrow> wq_error + wq_value" where
  "with_no_dict src args v =
     (case require_explicit_dict_projection src args of Some e \<Rightarrow> Inl e | None \<Rightarrow> Inr v)"

definition both_int_lists :: "wq_value \<Rightarrow> wq_value \<Rightarrow> (i64 list \<times> i64 list) option" where
  "both_int_lists a b = (case a of
     VIntList xs \<Rightarrow> (case b of VIntList ys \<Rightarrow> Some (xs, ys) | _ \<Rightarrow> None) | _ \<Rightarrow> None)"

section \<open>Builtins\<close>

text \<open>\<open>C\<close> is the membership test of a set of values.\<close>

definition item_set :: "wq_value membership \<Rightarrow> wq_value \<Rightarrow> wq_value list" where
  "item_set C v = set_collect C (seq_items v)"

definition unique :: "wq_value membership \<Rightarrow> wq_value \<Rightarrow> wq_error + wq_value" where
  "unique C v = with_no_dict ''unique'' [v]
     (case v of VIntList xs \<Rightarrow> VIntList (unique_items int_contains xs)
      | _ \<Rightarrow> from_items (unique_items C (seq_items v)))"

definition union :: "wq_value membership \<Rightarrow> wq_value \<Rightarrow> wq_value \<Rightarrow> wq_error + wq_value" where
  "union C a b = with_no_dict ''union'' [a, b]
     (case both_int_lists a b of
        Some (xs, ys) \<Rightarrow> VIntList (unique_items int_contains (xs @ ys))
      | None \<Rightarrow> from_items (unique_items C (seq_items a @ seq_items b)))"

text \<open>\<open>filter(|item| rhs.contains(item) && seen.insert(*item))\<close>.\<close>

fun filter_unique :: "'k membership \<Rightarrow> ('k \<Rightarrow> bool) \<Rightarrow> 'k list \<Rightarrow> 'k list \<Rightarrow> 'k list" where
  "filter_unique contains keep seen [] = []"
| "filter_unique contains keep seen (x # xs) =
     (if keep x then
        (case set_insert contains seen x of (seen', new) \<Rightarrow>
           if new then x # filter_unique contains keep seen' xs else filter_unique contains keep seen' xs)
      else filter_unique contains keep seen xs)"

definition intersect :: "wq_value membership \<Rightarrow> wq_value \<Rightarrow> wq_value \<Rightarrow> wq_error + wq_value" where
  "intersect C a b = with_no_dict ''intersect'' [a, b]
     (case both_int_lists a b of
        Some (xs, ys) \<Rightarrow>
          let rhs = set_collect int_contains ys in VIntList (filter_unique int_contains (int_contains rhs) [] xs)
      | None \<Rightarrow> let rhs = item_set C b in from_items (unique_items C (filter (C rhs) (seq_items a))))"

definition without :: "wq_value membership \<Rightarrow> wq_value \<Rightarrow> wq_value \<Rightarrow> wq_error + wq_value" where
  "without C a b = with_no_dict ''without'' [a, b]
     (case both_int_lists a b of
        Some (xs, ys) \<Rightarrow>
          let rhs = set_collect int_contains ys in VIntList (filter (\<lambda>x. \<not> int_contains rhs x) xs)
      | None \<Rightarrow> let rhs = item_set C b in from_items (filter (\<lambda>x. \<not> C rhs x) (seq_items a)))"

text \<open>The two loops of \<open>symdiff\<close> on machine integers.\<close>

definition symdiff_step :: "i64 list \<Rightarrow> i64 list \<times> i64 list \<Rightarrow> i64 \<Rightarrow> i64 list \<times> i64 list" where
  "symdiff_step other st x =
     (if int_contains other x then st else unique_step int_contains st x)"

definition symdiff :: "wq_value membership \<Rightarrow> wq_value \<Rightarrow> wq_value \<Rightarrow> wq_error + wq_value" where
  "symdiff C a b = with_no_dict ''symdiff'' [a, b]
     (case both_int_lists a b of
        Some (xs, ys) \<Rightarrow>
          let lhs = set_collect int_contains xs; rhs = set_collect int_contains ys in
          VIntList (snd (foldl (symdiff_step lhs) (foldl (symdiff_step rhs) ([], []) xs) ys))
      | None \<Rightarrow>
          let lhs = item_set C a; rhs = item_set C b in
          from_items (unique_items C
            (filter (\<lambda>x. \<not> C rhs x) (seq_items a) @ filter (\<lambda>x. \<not> C lhs x) (seq_items b))))"

definition is_subset :: "wq_value membership \<Rightarrow> wq_value \<Rightarrow> wq_value \<Rightarrow> bool" where
  "is_subset C a b =
     (case both_int_lists a b of
        Some (xs, ys) \<Rightarrow> let rhs = set_collect int_contains ys in list_all (int_contains rhs) xs
      | None \<Rightarrow> let rhs = item_set C b in list_all (C rhs) (item_set C a))"

definition is_proper_subset :: "wq_value membership \<Rightarrow> wq_value \<Rightarrow> wq_value \<Rightarrow> bool" where
  "is_proper_subset C a b =
     (case both_int_lists a b of
        Some (xs, ys) \<Rightarrow>
          let lhs = set_collect int_contains xs; rhs = set_collect int_contains ys in
          length lhs < length rhs \<and> list_all (int_contains rhs) lhs
      | None \<Rightarrow>
          let lhs = item_set C a; rhs = item_set C b in
          length lhs < length rhs \<and> list_all (C rhs) lhs)"

definition subset :: "wq_value membership \<Rightarrow> wq_value \<Rightarrow> wq_value \<Rightarrow> wq_error + wq_value" where
  "subset C a b = with_no_dict ''sub?'' [a, b] (VBool (is_subset C a b))"

definition proper_subset :: "wq_value membership \<Rightarrow> wq_value \<Rightarrow> wq_value \<Rightarrow> wq_error + wq_value" where
  "proper_subset C a b = with_no_dict ''psub?'' [a, b] (VBool (is_proper_subset C a b))"

definition superset :: "wq_value membership \<Rightarrow> wq_value \<Rightarrow> wq_value \<Rightarrow> wq_error + wq_value" where
  "superset C a b = with_no_dict ''super?'' [a, b] (VBool (is_subset C b a))"

definition proper_superset :: "wq_value membership \<Rightarrow> wq_value \<Rightarrow> wq_value \<Rightarrow> wq_error + wq_value" where
  "proper_superset C a b = with_no_dict ''psuper?'' [a, b] (VBool (is_proper_subset C b a))"

definition disjoint :: "wq_value membership \<Rightarrow> wq_value \<Rightarrow> wq_value \<Rightarrow> wq_error + wq_value" where
  "disjoint C a b = with_no_dict ''disjoint?'' [a, b]
     (case both_int_lists a b of
        Some (xs, ys) \<Rightarrow> let rhs = set_collect int_contains ys in VBool (\<not> list_ex (int_contains rhs) xs)
      | None \<Rightarrow> let rhs = item_set C b in VBool (\<not> list_ex (C rhs) (seq_items a)))"

definition member_result :: "wq_value \<Rightarrow> wq_value list \<Rightarrow> wq_value" where
  "member_result lhs results = (if is_atom lhs then hd results else from_items results)"

definition member :: "wq_value membership \<Rightarrow> wq_value \<Rightarrow> wq_value \<Rightarrow> wq_error + wq_value" where
  "member C a b = with_no_dict ''member?'' [a, b]
     (case b of
        VIntList ys \<Rightarrow>
          (let rhs = set_collect int_contains ys in
           case a of
             VInt n \<Rightarrow> VBool (int_contains rhs n)
           | VIntList xs \<Rightarrow> VList (map (\<lambda>x. VBool (int_contains rhs x)) xs)
           | _ \<Rightarrow> member_result a
               (map (\<lambda>x. VBool (case x of VInt n \<Rightarrow> int_contains rhs n | _ \<Rightarrow> False)) (seq_items a)))
      | _ \<Rightarrow>
          (let rhs = item_set C b in member_result a (map (\<lambda>x. VBool (C rhs x)) (seq_items a))))"

definition carproduct :: "wq_value \<Rightarrow> wq_value \<Rightarrow> wq_error + wq_value" where
  "carproduct a b = with_no_dict ''cart'' [a, b]
     (VList (concat (map (\<lambda>x. map (\<lambda>y. VList [x, y]) (seq_items b)) (seq_items a))))"

section \<open>The contract of a set of keys\<close>

text \<open>Membership is membership of the key; the elements are those satisfying \<open>ok\<close>.\<close>

locale key_set =
  fixes ok :: "'k \<Rightarrow> bool" and key :: "'k \<Rightarrow> 'n" and contains :: "'k membership"
  assumes contains_key: "list_all ok s \<Longrightarrow> ok x \<Longrightarrow> contains s x \<longleftrightarrow> key x \<in> key ` set s"
begin

definition holds :: "'k list \<Rightarrow> 'n set \<Rightarrow> bool" where
  "holds s K \<longleftrightarrow> list_all ok s \<and> key ` set s = K \<and> distinct (map key s)"

lemma insert_holds:
  "holds s K \<Longrightarrow> ok x \<Longrightarrow> holds (fst (set_insert contains s x)) (insert (key x) K)"
  by (auto simp: set_insert_def holds_def contains_key)

lemma insert_new: "holds s K \<Longrightarrow> ok x \<Longrightarrow> snd (set_insert contains s x) \<longleftrightarrow> key x \<notin> K"
  by (auto simp: set_insert_def holds_def contains_key)

lemma collect_from:
  "holds s K \<Longrightarrow> list_all ok xs \<Longrightarrow>
   holds (foldl (\<lambda>s x. fst (set_insert contains s x)) s xs) (K \<union> key ` set xs)"
proof (induction xs arbitrary: s K)
  case (Cons x xs)
  then show ?case using Cons(1) [OF insert_holds [OF Cons(2)]] by simp
qed simp

lemma collect_holds: "list_all ok xs \<Longrightarrow> holds (set_collect contains xs) (key ` set xs)"
  using collect_from [of "[]" "{}" xs] by (simp add: set_collect_def holds_def)

lemma unique_from:
  "foldl (unique_step contains) (s, s) xs =
   (foldl (\<lambda>s x. fst (set_insert contains s x)) s xs, foldl (\<lambda>s x. fst (set_insert contains s x)) s xs)"
  by (induction xs arbitrary: s) (auto simp: unique_step_def set_insert_def)

lemma unique_collect: "unique_items contains xs = set_collect contains xs"
  by (simp add: unique_items_def set_collect_def unique_from)

lemma unique_holds: "list_all ok xs \<Longrightarrow> holds (unique_items contains xs) (key ` set xs)"
  by (simp add: unique_collect collect_holds)

lemma contains_collect:
  "list_all ok xs \<Longrightarrow> ok x \<Longrightarrow> contains (set_collect contains xs) x \<longleftrightarrow> key x \<in> key ` set xs"
  using collect_holds [of xs] by (simp add: holds_def contains_key)

lemma filter_unique_holds:
  assumes "list_all ok xs" "holds seen K"
  shows "list_all ok (filter_unique contains keep seen xs) \<and>
    key ` set (filter_unique contains keep seen xs) = key ` set (filter keep xs) - K \<and>
    distinct (map key (filter_unique contains keep seen xs))"
  using assms
proof (induction xs arbitrary: seen K)
  case (Cons x xs)
  obtain seen' new where i: "set_insert contains seen x = (seen', new)" by fastforce
  have h: "holds seen' (insert (key x) K)" and n: "new \<longleftrightarrow> key x \<notin> K"
    using insert_holds [OF Cons(3), of x] insert_new [OF Cons(3), of x] Cons(2) i by simp_all
  show ?case using Cons(1) [of seen' "insert (key x) K"] Cons(1) [of seen K] Cons(2,3) h n i
    by (cases new) auto
qed simp

lemma length_collect_less:
  assumes "list_all ok xs" "list_all ok ys"
    and sub: "key ` set xs \<subseteq> key ` set ys"
  shows "length (set_collect contains xs) < length (set_collect contains ys) \<longleftrightarrow> key ` set xs \<noteq> key ` set ys"
proof -
  have len: "length (set_collect contains zs) = card (key ` set zs)" if "list_all ok zs" for zs
    using collect_holds [OF that] distinct_card [of "map key (set_collect contains zs)"]
    by (simp add: holds_def)
  have "card (key ` set xs) \<le> card (key ` set ys)" using sub by (intro card_mono) auto
  then show ?thesis using len assms card_subset_eq [OF _ sub] by (auto simp: less_le)
qed

end

interpretation ints: key_set "\<lambda>_. True" "\<lambda>i. N_Int (sint i)" int_contains
  by unfold_locales (auto simp: int_contains_def sint_inject)

text \<open>What the documentation of \<open>IndexSet\<close> promises for keys whose hash agrees with equality.\<close>

definition index_set_ok :: "float_env \<Rightarrow> wq_value membership \<Rightarrow> bool" where
  "index_set_ok E C \<longleftrightarrow>
     (\<forall>x y. value_ok x \<longrightarrow> value_ok y \<longrightarrow> value_eq E x y \<longrightarrow> hash_value E x = hash_value E y) \<longrightarrow>
     (\<forall>s x. list_all value_ok s \<longrightarrow> value_ok x \<longrightarrow> C s x = list_ex (\<lambda>y. value_eq E y x) s)"

lemma key_set_values:
  assumes E: "env_ok E" and C: "index_set_ok E C"
  shows "key_set value_ok (nf E) C"
proof
  fix s :: "wq_value list" and x
  assume ok: "list_all value_ok s" "value_ok x"
  have "hash_value E x = hash_value E y" if "value_ok x" "value_ok y" "value_eq E x y" for x y
    using that value_eq_nf_aux [OF E] hash_norm [OF E] by simp
  then have "C s x = list_ex (\<lambda>y. value_eq E y x) s" using C ok unfolding index_set_ok_def by blast
  also have "\<dots> \<longleftrightarrow> nf E x \<in> nf E ` set s"
    using ok by (auto simp: list_ex_iff list_all_iff value_eq_nf_aux [OF E] image_iff eq_commute [of "nf E x"])
  finally show "C s x \<longleftrightarrow> nf E x \<in> nf E ` set s" .
qed

definition std_contains :: "wq_value membership" where
  "std_contains s x = list_ex (\<lambda>y. value_eq std_env y x) s"

lemma std_contains_ok: "index_set_ok std_env std_contains"
  by (simp add: index_set_ok_def std_contains_def)

interpretation std: key_set value_ok "nf std_env" std_contains
  by (rule key_set_values [OF env_ok_std std_contains_ok])

section \<open>Set algebra\<close>

definition keys :: "float_env \<Rightarrow> wq_value \<Rightarrow> norm set" where
  "keys E v = nf E ` set (seq_items v)"

definition distinct_keys :: "float_env \<Rightarrow> wq_value \<Rightarrow> bool" where
  "distinct_keys E v \<longleftrightarrow> distinct (map (nf E) (seq_items v))"

lemma value_ok_atom: "parts v = {} \<Longrightarrow> (\<forall>n d. v \<noteq> VFraction n d) \<Longrightarrow> value_ok v"
  by (subst value_ok.simps) (auto split: wq_value.splits)

lemma seq_items_list: "is_list v \<Longrightarrow> seq_items v = items v"
  by (cases v) (simp_all add: is_list_def seq_items_def list_storage_from_value_def storage_values_def
      packed_int_seq_def int_seq_vec_def items_simps)

lemma seq_items_from_items [simp]: "seq_items (from_items xs) = xs"
  by (simp add: seq_items_list)

lemma seq_items_ints [simp]: "seq_items (VIntList xs) = map VInt xs"
  by (simp add: seq_items_list is_list_def items_simps)

lemma parts_items: "is_list v \<Longrightarrow> parts v = set (items v)"
  by (cases v) (simp_all add: parts_def is_list_def)

lemma seq_items_ok: "value_ok v \<Longrightarrow> list_all value_ok (seq_items v)"
proof (cases "is_list v")
  case True
  then show "value_ok v \<Longrightarrow> ?thesis"
    by (simp add: seq_items_list list_all_iff value_ok.simps [of v] parts_items)
next
  case False
  have "value_ok (VTag t)" for t by (rule value_ok_atom) (simp_all add: parts_def items_no_list is_list_def)
  then show "value_ok v \<Longrightarrow> ?thesis" using False
    by (cases v) (auto simp: seq_items_def list_storage_from_value_def is_list_def list_all_iff)
qed

lemma keys_ints: "keys E (VIntList xs) = (\<lambda>i. N_Int (sint i)) ` set xs"
  by (simp add: keys_def image_image)

lemma distinct_ints: "distinct_keys E (VIntList xs) \<longleftrightarrow> distinct (map (\<lambda>i. N_Int (sint i)) xs)"
  by (simp add: distinct_keys_def comp_def)

lemma both_int_listsE:
  assumes "both_int_lists a b = Some p"
  obtains xs ys where "a = VIntList xs" "b = VIntList ys" "p = (xs, ys)"
  using assms by (auto simp: both_int_lists_def split: wq_value.splits)

lemma no_dict: "\<not> is_dict a \<Longrightarrow> \<not> is_dict b \<Longrightarrow> with_no_dict src [a, b] v = Inr v"
  by (simp add: with_no_dict_def require_explicit_dict_projection_def)

lemma int_collect: "int_contains (set_collect int_contains ys) x \<longleftrightarrow> x \<in> set ys"
  using ints.contains_collect [of ys x] by (auto simp: sint_inject list_all_iff)

lemma set_int_collect: "set (set_collect int_contains xs) = set xs"
  using int_collect [of xs] by (auto simp: int_contains_def)

lemma symdiff_steps:
  "foldl (symdiff_step other) (s, s) xs =
   (let t = foldl (\<lambda>s x. fst (set_insert int_contains s x)) s (filter (\<lambda>x. \<not> int_contains other x) xs) in (t, t))"
  by (induction xs arbitrary: s) (auto simp: symdiff_step_def unique_step_def set_insert_def Let_def)

lemma symdiff_ints:
  "snd (foldl (symdiff_step lhs) (foldl (symdiff_step rhs) ([], []) xs) ys) =
   set_collect int_contains (filter (\<lambda>x. \<not> int_contains rhs x) xs @ filter (\<lambda>x. \<not> int_contains lhs x) ys)"
  by (simp add: symdiff_steps set_collect_def Let_def)

context key_set
begin

lemma unique_keys: "list_all ok xs \<Longrightarrow> key ` set (unique_items contains xs) = key ` set xs"
  using unique_holds by (simp add: holds_def)

lemma unique_distinct: "list_all ok xs \<Longrightarrow> distinct (map key (unique_items contains xs))"
  using unique_holds by (simp add: holds_def)

lemma filter_keys:
  assumes "list_all ok xs" "list_all ok ys"
  shows "key ` set (filter (contains (set_collect contains ys)) xs) = key ` set xs \<inter> key ` set ys"
    and "key ` set (filter (\<lambda>x. \<not> contains (set_collect contains ys) x) xs) = key ` set xs - key ` set ys"
  using assms by (auto simp: contains_collect list_all_iff)

lemma list_all_filter: "list_all ok xs \<Longrightarrow> list_all ok (filter P xs)"
  by (simp add: list_all_iff)

end

lemma int_key_image: "(\<lambda>i :: i64. N_Int (sint i)) ` A \<inter> (\<lambda>i. N_Int (sint i)) ` B = (\<lambda>i. N_Int (sint i)) ` (A \<inter> B)"
  "(\<lambda>i :: i64. N_Int (sint i)) ` A - (\<lambda>i. N_Int (sint i)) ` B = (\<lambda>i. N_Int (sint i)) ` (A - B)"
  by (auto simp: sint_inject)

lemma list_all_True [simp]: "list_all (\<lambda>_. True) xs"
  by (simp add: list_all_iff)

lemma operand_facts:
  assumes "env_ok E" "index_set_ok E C" "list_all value_ok xs" "list_all value_ok ys"
  shows "nf E ` set (unique_items C xs) = nf E ` set xs"
    and "distinct (map (nf E) (unique_items C xs))"
    and "nf E ` set (filter (C (set_collect C ys)) xs) = nf E ` set xs \<inter> nf E ` set ys"
    and "nf E ` set (filter (\<lambda>x. \<not> C (set_collect C ys) x) xs) = nf E ` set xs - nf E ` set ys"
  using key_set_values [OF assms(1,2)] assms(3,4)
  by (simp_all only: key_set.unique_keys key_set.unique_distinct key_set.filter_keys)

definition operands_ok :: "float_env \<Rightarrow> wq_value membership \<Rightarrow> wq_value \<Rightarrow> wq_value \<Rightarrow> bool" where
  "operands_ok E C a b \<longleftrightarrow> env_ok E \<and> index_set_ok E C \<and> value_ok a \<and> value_ok b \<and> \<not> is_dict a \<and> \<not> is_dict b"

lemma union_keys:
  assumes "operands_ok E C a b"
  shows "\<exists>u. union C a b = Inr u \<and> keys E u = keys E a \<union> keys E b \<and> distinct_keys E u"
proof (cases "both_int_lists a b")
  case None
  have "list_all value_ok (seq_items a @ seq_items b)" using assms seq_items_ok by (simp add: operands_ok_def)
  then show ?thesis using assms None operand_facts(1,2) [of E C "seq_items a @ seq_items b" "[]"]
    by (auto simp: union_def no_dict keys_def distinct_keys_def operands_ok_def image_Un)
next
  case (Some p)
  then obtain xs ys where ab: "a = VIntList xs" "b = VIntList ys" "p = (xs, ys)" by (rule both_int_listsE)
  then show ?thesis using assms Some ints.unique_keys [of "xs @ ys"] ints.unique_distinct [of "xs @ ys"]
    by (auto simp: union_def no_dict keys_ints distinct_ints operands_ok_def image_Un)
qed

lemma intersect_keys:
  assumes "operands_ok E C a b"
  shows "\<exists>u. intersect C a b = Inr u \<and> keys E u = keys E a \<inter> keys E b \<and> distinct_keys E u"
proof (cases "both_int_lists a b")
  case None
  have ok: "list_all value_ok (seq_items a)" "list_all value_ok (seq_items b)"
    using assms seq_items_ok by (simp_all add: operands_ok_def)
  then have "list_all value_ok (filter P (seq_items a))" for P by (simp add: list_all_iff)
  then show ?thesis
    using assms None ok operand_facts(3) [of E C "seq_items a" "seq_items b"]
      operand_facts(1,2) [of E C "filter (C (item_set C b)) (seq_items a)" "[]"]
    by (auto simp: intersect_def no_dict keys_def distinct_keys_def operands_ok_def item_set_def Let_def)
next
  case (Some p)
  then obtain xs ys where ab: "a = VIntList xs" "b = VIntList ys" "p = (xs, ys)" by (rule both_int_listsE)
  let ?keep = "int_contains (set_collect int_contains ys)"
  have "set (filter ?keep xs) = set xs \<inter> set ys" by (auto simp: int_collect)
  then show ?thesis using assms Some ab ints.filter_unique_holds [of xs "[]" "{}" ?keep]
    by (auto simp: intersect_def no_dict keys_ints distinct_ints operands_ok_def Let_def ints.holds_def int_key_image)
qed

lemma without_keys:
  assumes "operands_ok E C a b"
  shows "\<exists>u. without C a b = Inr u \<and> keys E u = keys E a - keys E b"
proof (cases "both_int_lists a b")
  case None
  have ok: "list_all value_ok (seq_items a)" "list_all value_ok (seq_items b)"
    using assms seq_items_ok by (simp_all add: operands_ok_def)
  then show ?thesis using assms None operand_facts(4) [of E C "seq_items a" "seq_items b"]
    by (auto simp: without_def no_dict keys_def operands_ok_def item_set_def Let_def)
next
  case (Some p)
  then obtain xs ys where ab: "a = VIntList xs" "b = VIntList ys" "p = (xs, ys)" by (rule both_int_listsE)
  have "set (filter (\<lambda>x. \<not> int_contains (set_collect int_contains ys) x) xs) = set xs - set ys"
    by (auto simp: int_collect)
  then show ?thesis using assms Some ab
    by (auto simp: without_def no_dict keys_ints operands_ok_def Let_def int_key_image)
qed

lemma symdiff_keys:
  assumes "operands_ok E C a b"
  shows "\<exists>u. symdiff C a b = Inr u \<and> keys E u = (keys E a - keys E b) \<union> (keys E b - keys E a) \<and> distinct_keys E u"
proof (cases "both_int_lists a b")
  case None
  have ok: "list_all value_ok (seq_items a)" "list_all value_ok (seq_items b)"
    using assms seq_items_ok by (simp_all add: operands_ok_def)
  let ?d = "filter (\<lambda>x. \<not> C (item_set C b) x) (seq_items a) @ filter (\<lambda>x. \<not> C (item_set C a) x) (seq_items b)"
  have "list_all value_ok ?d" using ok by (auto simp: list_all_iff)
  then show ?thesis using assms None ok operand_facts(4) [of E C "seq_items a" "seq_items b"]
      operand_facts(4) [of E C "seq_items b" "seq_items a"] operand_facts(1,2) [of E C ?d "[]"]
    by (auto simp: symdiff_def no_dict keys_def distinct_keys_def operands_ok_def item_set_def Let_def image_Un)
next
  case (Some p)
  then obtain xs ys where ab: "a = VIntList xs" "b = VIntList ys" "p = (xs, ys)" by (rule both_int_listsE)
  let ?d = "filter (\<lambda>x. \<not> int_contains (set_collect int_contains ys) x) xs @
    filter (\<lambda>x. \<not> int_contains (set_collect int_contains xs) x) ys"
  have "set ?d = (set xs - set ys) \<union> (set ys - set xs)" by (auto simp: int_collect)
  moreover have "set (set_collect int_contains ?d) = set ?d" by (rule set_int_collect)
  moreover have "distinct (map (\<lambda>i. N_Int (sint i)) (set_collect int_contains ?d))"
    using ints.unique_distinct [of ?d] by (simp add: ints.unique_collect)
  ultimately show ?thesis using assms Some ab
    by (simp add: symdiff_def no_dict keys_ints distinct_ints operands_ok_def Let_def symdiff_ints
        int_key_image image_Un)
qed

text \<open>C24: the set builtins are set algebra on values up to equality. For operands that are not
  dictionaries \<open>union\<close>, \<open>intersect\<close>, \<open>without\<close> and \<open>symdiff\<close> never fail, the elements of the
  result are the union, intersection, difference and symmetric difference of the elements of the
  operands, and all but \<open>without\<close> deliver each element once, whichever of the packed or the
  generic path is taken.\<close>

theorem set_builtins_algebra:
  assumes "operands_ok E C a b"
  shows "\<exists>u i w s. union C a b = Inr u \<and> keys E u = keys E a \<union> keys E b \<and> distinct_keys E u \<and>
    intersect C a b = Inr i \<and> keys E i = keys E a \<inter> keys E b \<and> distinct_keys E i \<and>
    without C a b = Inr w \<and> keys E w = keys E a - keys E b \<and>
    symdiff C a b = Inr s \<and> keys E s = (keys E a - keys E b) \<union> (keys E b - keys E a) \<and> distinct_keys E s"
  using union_keys [OF assms] intersect_keys [OF assms] without_keys [OF assms] symdiff_keys [OF assms]
  by blast

theorem set_builtins_algebra_witness:
  "\<exists>u. union std_contains (VIntList [1, 2]) (VList [VInt 2, VTag (lit ''a'')]) = Inr u \<and>
     keys std_env u = keys std_env (VIntList [1, 2]) \<union> keys std_env (VList [VInt 2, VTag (lit ''a'')]) \<and>
     distinct_keys std_env u"
proof -
  have "operands_ok std_env std_contains (VIntList [1, 2]) (VList [VInt 2, VTag (lit ''a'')])"
    by (simp add: operands_ok_def env_ok_std std_contains_ok is_dict_def)
  from set_builtins_algebra [OF this] show ?thesis by blast
qed

lemma item_set_keys:
  assumes E: "env_ok E" "index_set_ok E C" and v: "value_ok v"
  shows "list_all value_ok (item_set C v)" and "nf E ` set (item_set C v) = keys E v"
    and "value_ok x \<Longrightarrow> C (item_set C v) x \<longleftrightarrow> nf E x \<in> keys E v"
proof -
  have V: "key_set value_ok (nf E) C" by (rule key_set_values [OF E])
  have ok: "list_all value_ok (seq_items v)" using v by (rule seq_items_ok)
  have "key_set.holds value_ok (nf E) (item_set C v) (nf E ` set (seq_items v))"
    unfolding item_set_def by (rule key_set.collect_holds [OF V ok])
  then show "list_all value_ok (item_set C v)" "nf E ` set (item_set C v) = keys E v"
    by (simp_all add: key_set.holds_def [OF V] keys_def)
  show "value_ok x \<Longrightarrow> C (item_set C v) x \<longleftrightarrow> nf E x \<in> keys E v"
    unfolding item_set_def keys_def by (rule key_set.contains_collect [OF V ok])
qed

lemma all_contained:
  assumes "env_ok E" "index_set_ok E C" "value_ok v" "list_all value_ok xs"
  shows "list_all (C (item_set C v)) xs \<longleftrightarrow> nf E ` set xs \<subseteq> keys E v"
proof -
  have "(\<forall>x\<in>set xs. C (item_set C v) x) \<longleftrightarrow> (\<forall>x\<in>set xs. nf E x \<in> keys E v)"
    using assms(4) item_set_keys(3) [OF assms(1-3)] by (intro ball_cong refl) (simp add: list_all_iff)
  then show ?thesis by (simp add: list_all_iff image_subset_iff)
qed

lemma ex_contained:
  assumes "env_ok E" "index_set_ok E C" "value_ok v" "list_all value_ok xs"
  shows "list_ex (C (item_set C v)) xs \<longleftrightarrow> nf E ` set xs \<inter> keys E v \<noteq> {}"
proof -
  have "(\<exists>x\<in>set xs. C (item_set C v) x) \<longleftrightarrow> (\<exists>x\<in>set xs. nf E x \<in> keys E v)"
    using assms(4) item_set_keys(3) [OF assms(1-3)] by (intro bex_cong refl) (simp add: list_all_iff)
  then show ?thesis by (auto simp: list_ex_iff)
qed

lemma is_subset_keys:
  assumes "operands_ok E C a b"
  shows "is_subset C a b \<longleftrightarrow> keys E a \<subseteq> keys E b"
proof (cases "both_int_lists a b")
  case None
  have o: "env_ok E" "index_set_ok E C" "value_ok a" "value_ok b" using assms by (simp_all add: operands_ok_def)
  show ?thesis using None all_contained [OF o(1,2,4) item_set_keys(1) [OF o(1-3)]]
    by (simp add: is_subset_def item_set_keys(2) [OF o(1-3)] Let_def)
next
  case (Some p)
  then obtain xs ys where ab: "a = VIntList xs" "b = VIntList ys" "p = (xs, ys)" by (rule both_int_listsE)
  then show ?thesis using Some
    by (auto simp: is_subset_def keys_ints list_all_iff int_collect Let_def sint_inject)
qed

lemma shorter_and_sub:
  fixes m n :: nat
  assumes "P \<Longrightarrow> m < n \<longleftrightarrow> A \<noteq> B" "P \<longleftrightarrow> A \<subseteq> B"
  shows "m < n \<and> P \<longleftrightarrow> A \<subset> B"
  using assms by blast

lemma is_proper_subset_keys:
  assumes "operands_ok E C a b"
  shows "is_proper_subset C a b \<longleftrightarrow> keys E a \<subset> keys E b"
proof (cases "both_int_lists a b")
  case None
  have o: "env_ok E" "index_set_ok E C" "value_ok a" "value_ok b" using assms by (simp_all add: operands_ok_def)
  have V: "key_set value_ok (nf E) C" by (rule key_set_values [OF o(1,2)])
  have sub: "list_all (C (item_set C b)) (item_set C a) \<longleftrightarrow> keys E a \<subseteq> keys E b"
    using all_contained [OF o(1,2,4) item_set_keys(1) [OF o(1-3)]] by (simp add: item_set_keys(2) [OF o(1-3)])
  have "length (item_set C a) < length (item_set C b) \<and> list_all (C (item_set C b)) (item_set C a) \<longleftrightarrow>
      keys E a \<subset> keys E b"
    using key_set.length_collect_less [OF V seq_items_ok [OF o(3)] seq_items_ok [OF o(4)]] sub
    by (intro shorter_and_sub) (simp_all add: keys_def item_set_def)
  then show ?thesis using None by (simp add: is_proper_subset_def Let_def)
next
  case (Some p)
  then obtain xs ys where ab: "a = VIntList xs" "b = VIntList ys" "p = (xs, ys)" by (rule both_int_listsE)
  let ?X = "set_collect int_contains xs" and ?Y = "set_collect int_contains ys"
  have sub: "list_all (int_contains ?Y) ?X \<longleftrightarrow> keys E a \<subseteq> keys E b"
    by (auto simp: ab keys_ints list_all_iff int_collect set_int_collect sint_inject)
  have "length ?X < length ?Y \<and> list_all (int_contains ?Y) ?X \<longleftrightarrow> keys E a \<subset> keys E b"
    using ints.length_collect_less [of xs ys] sub
    by (intro shorter_and_sub) (simp_all add: keys_ints ab)
  then show ?thesis using Some ab by (simp add: is_proper_subset_def Let_def)
qed

lemma disjoint_keys:
  assumes "operands_ok E C a b"
  shows "disjoint C a b = Inr (VBool (keys E a \<inter> keys E b = {}))"
proof (cases "both_int_lists a b")
  case None
  have o: "env_ok E" "index_set_ok E C" "value_ok a" "value_ok b" using assms by (simp_all add: operands_ok_def)
  show ?thesis using None assms ex_contained [OF o(1,2,4) seq_items_ok [OF o(3)]]
    by (simp add: disjoint_def no_dict operands_ok_def Let_def keys_def [of E a])
next
  case (Some p)
  then obtain xs ys where ab: "a = VIntList xs" "b = VIntList ys" "p = (xs, ys)" by (rule both_int_listsE)
  then show ?thesis using Some assms
    by (auto simp: disjoint_def no_dict operands_ok_def keys_ints list_ex_iff int_collect Let_def sint_inject)
qed

text \<open>C25: the set predicates decide inclusion, proper inclusion and disjointness of the elements of
  their operands up to equality, on the packed and on the generic path, although proper inclusion is
  computed by comparing the sizes of two hash sets.\<close>

theorem set_relations:
  assumes "operands_ok E C a b"
  shows "subset C a b = Inr (VBool (keys E a \<subseteq> keys E b)) \<and>
    proper_subset C a b = Inr (VBool (keys E a \<subset> keys E b)) \<and>
    superset C b a = Inr (VBool (keys E a \<subseteq> keys E b)) \<and>
    proper_superset C b a = Inr (VBool (keys E a \<subset> keys E b)) \<and>
    disjoint C a b = Inr (VBool (keys E a \<inter> keys E b = {}))"
  using assms is_subset_keys [OF assms] is_proper_subset_keys [OF assms] disjoint_keys [OF assms]
  by (simp add: subset_def proper_subset_def superset_def proper_superset_def no_dict operands_ok_def)

theorem set_relations_witness:
  "proper_subset std_contains (VIntList [2]) (VList [VInt 2, VTag (lit ''a'')]) =
     Inr (VBool (keys std_env (VIntList [2]) \<subset> keys std_env (VList [VInt 2, VTag (lit ''a'')])))"
proof -
  have "operands_ok std_env std_contains (VIntList [2]) (VList [VInt 2, VTag (lit ''a'')])"
    by (simp add: operands_ok_def env_ok_std std_contains_ok is_dict_def)
  from set_relations [OF this] show ?thesis by blast
qed

end
