(* ===== verification/Value_Cat.thy ===== *)
theory Value_Cat
  imports Value_Seq
begin

text \<open>
  Concatenation and flattening of values, \<open>Value::cat\<close>, \<open>Value::cat_many\<close> and \<open>Value::flatten\<close>
  (\<open>wqpl/src/value/op/container.rs\<close>). The \<open>expect("valid string")\<close> of \<open>cat\<close> is an outcome: \<open>None\<close>
  is the panic. The elements an operand contributes are \<open>storage_items\<close>: those of a list, and the
  operand itself when it is an atom, a dictionary or a string.
\<close>

section \<open>Concatenation\<close>

text \<open>The last \<open>match\<close> of \<open>cat\<close>, in the order of its arms.\<close>

definition cat_arms :: "wq_value \<Rightarrow> wq_value \<Rightarrow> wq_value" where
  "cat_arms a b =
     (case (a, b) of
        (VFloat x, VFloat y) \<Rightarrow> VFloatList [x, y]
      | (VFloatList xs, VFloatList ys) \<Rightarrow> VFloatList (xs @ ys)
      | (VFloatList xs, VFloat y) \<Rightarrow> VFloatList (xs @ [y])
      | (VFloat x, VFloatList ys) \<Rightarrow> VFloatList (x # ys)
      | (VFloatList xs, VList ys) \<Rightarrow> VList (map VFloat xs @ ys)
      | (VList xs, VFloatList ys) \<Rightarrow> VList (xs @ map VFloat ys)
      | (VFloatList xs, _) \<Rightarrow> VList (map VFloat xs @ [b])
      | (_, VFloatList ys) \<Rightarrow> VList (a # map VFloat ys)
      | (VBool x, VBool y) \<Rightarrow> VBoolList [x, y]
      | (VBoolList xs, VBoolList ys) \<Rightarrow> VBoolList (xs @ ys)
      | (VBoolList xs, VBool y) \<Rightarrow> VBoolList (xs @ [y])
      | (VBool x, VBoolList ys) \<Rightarrow> VBoolList (x # ys)
      | (VBoolList xs, VList ys) \<Rightarrow> VList (map VBool xs @ ys)
      | (VList xs, VBoolList ys) \<Rightarrow> VList (xs @ map VBool ys)
      | (VBoolList xs, _) \<Rightarrow> VList (map VBool xs @ [b])
      | (_, VBoolList ys) \<Rightarrow> VList (a # map VBool ys)
      | (VList xs, VList ys) \<Rightarrow> VList (xs @ ys)
      | (VList xs, _) \<Rightarrow> VList (xs @ [b])
      | (_, VList ys) \<Rightarrow> VList (a # ys)
      | (_, _) \<Rightarrow> VList [a, b])"

text \<open>The six \<open>if let\<close> blocks on packed integers, each of which returns when it matches.\<close>

definition or_else :: "'a option \<Rightarrow> 'a option \<Rightarrow> 'a option" where
  "or_else p q = (case p of Some x \<Rightarrow> Some x | None \<Rightarrow> q)"

definition cat_packed :: "wq_value \<Rightarrow> wq_value \<Rightarrow> wq_value option" where
  "cat_packed a b =
     or_else (case a of
         VIntList xs \<Rightarrow> map_option (\<lambda>ys. VIntList (xs @ int_seq_vec ys)) (native_int_seq b) | _ \<Rightarrow> None)
     (or_else (case native_int_seq a of
         Some xs \<Rightarrow> map_option (\<lambda>ys. VIntList (int_seq_vec xs @ int_seq_vec ys)) (native_int_seq b)
       | None \<Rightarrow> None)
     (or_else (case packed_int_seq a of
         Some xs \<Rightarrow> (case b of VList ys \<Rightarrow> Some (VList (map VInt (int_seq_vec xs) @ ys)) | _ \<Rightarrow> None)
       | None \<Rightarrow> None)
     (or_else (case a of
         VList xs \<Rightarrow> map_option (\<lambda>ys. VList (xs @ map VInt (int_seq_vec ys))) (packed_int_seq b) | _ \<Rightarrow> None)
     (or_else (map_option (\<lambda>xs. VList (map VInt (int_seq_vec xs) @ [b])) (packed_int_seq a))
       (map_option (\<lambda>ys. VList (a # map VInt (int_seq_vec ys))) (packed_int_seq b))))))"

definition cat :: "wq_value \<Rightarrow> wq_value \<Rightarrow> wq_value option" where
  "cat a b =
     (if is_string a \<and> is_string b then
        if is_unit_value a \<and> is_unit_value b then Some empty_list_value
        else case try_rust_string b of
          None \<Rightarrow> None
        | Some t \<Rightarrow>
            (case a of
               VString s \<Rightarrow> Some (VString (s @ t))
             | _ \<Rightarrow> map_option (\<lambda>s. VString (s @ t)) (try_rust_string a))
      else case cat_packed a b of Some v \<Rightarrow> Some v | None \<Rightarrow> Some (cat_arms a b))"

fun float_parts :: "wq_value \<Rightarrow> f64 list option" where
  "float_parts (VFloat x) = Some [x]"
| "float_parts (VFloatList xs) = Some xs"
| "float_parts _ = None"

fun bool_parts :: "wq_value \<Rightarrow> bool list option" where
  "bool_parts (VBool x) = Some [x]"
| "bool_parts (VBoolList xs) = Some xs"
| "bool_parts _ = None"

fun cat_reduce :: "wq_value \<Rightarrow> wq_value list \<Rightarrow> wq_value option" where
  "cat_reduce acc [] = Some acc"
| "cat_reduce acc (v # vs) = (case cat acc v of None \<Rightarrow> None | Some acc' \<Rightarrow> cat_reduce acc' vs)"

definition cat_many :: "wq_value list \<Rightarrow> wq_value option" where
  "cat_many values =
     (case values of
        [] \<Rightarrow> Some empty_list_value
      | [v] \<Rightarrow> Some v
      | v # vs \<Rightarrow>
          if list_all is_unit_value values then Some empty_list_value
          else if list_all is_string values then
            Some (VString (concat (List.map_filter try_rust_string values)))
          else case those (map native_int_seq values) of
            Some seqs \<Rightarrow> Some (VIntList (concat (map int_seq_vec seqs)))
          | None \<Rightarrow>
          (case those (map float_parts values) of
            Some fs \<Rightarrow> Some (VFloatList (concat fs))
          | None \<Rightarrow>
          (case those (map bool_parts values) of
            Some bs \<Rightarrow> Some (VBoolList (concat bs))
          | None \<Rightarrow>
          (case those (map list_storage_from_value values) of
            Some ss \<Rightarrow> Some (VList (concat (map storage_values ss)))
          | None \<Rightarrow> cat_reduce v vs))))"

section \<open>Flattening\<close>

text \<open>The stack is written with its top first; \<open>out\<close> is written in order.\<close>

definition flatten_leaf :: "wq_value \<Rightarrow> wq_value list" where
  "flatten_leaf v =
     (case v of
        VString s \<Rightarrow> map VChar s
      | VBoolList bs \<Rightarrow> map VBool bs
      | VFloatList fs \<Rightarrow> map VFloat fs
      | _ \<Rightarrow> (case packed_int_seq v of Some xs \<Rightarrow> map VInt (int_seq_vec xs) | None \<Rightarrow> [v]))"

function flatten_loop :: "wq_value list \<Rightarrow> wq_value list \<Rightarrow> wq_value list" where
  "flatten_loop [] out = out"
| "flatten_loop (cur # stack) out =
     (case cur of
        VList xs \<Rightarrow> flatten_loop (xs @ stack) out
      | _ \<Rightarrow> flatten_loop stack (out @ flatten_leaf cur))"
  by pat_completeness auto
termination
  by (relation "measure (\<lambda>(stack, out). size_list size stack)") auto

definition flatten :: "wq_value \<Rightarrow> wq_value list" where
  "flatten v = flatten_loop [v] []"


section \<open>What concatenation delivers\<close>

definition storage_items :: "wq_value \<Rightarrow> wq_value list" where
  "storage_items v = (case list_storage_from_value v of Some s \<Rightarrow> storage_values s | None \<Rightarrow> [v])"

definition text_of :: "wq_value \<Rightarrow> ustr" where
  "text_of v = (case try_rust_string v of Some s \<Rightarrow> s | None \<Rightarrow> [])"

text \<open>The order in which \<open>cat\<close> looks for packed lists.\<close>

definition packed_rank :: "wq_value \<Rightarrow> nat" where
  "packed_rank v = (case v of
     VIntList _ \<Rightarrow> 3 | VIntRange _ \<Rightarrow> 3 | VFloatList _ \<Rightarrow> 2 | VBoolList _ \<Rightarrow> 1 | _ \<Rightarrow> 0)"

definition joined :: "wq_value \<Rightarrow> wq_value \<Rightarrow> wq_value list" where
  "joined a b =
     (if 0 < packed_rank b \<and> packed_rank b < packed_rank a then storage_items a @ [b]
      else if 0 < packed_rank a \<and> packed_rank a < packed_rank b then a # storage_items b
      else storage_items a @ storage_items b)"

lemma unit_text: "is_unit_value v \<Longrightarrow> try_rust_string v = Some []"
  by (cases v) (auto simp: try_rust_string_def is_unit_value_def is_list_def is_empty_def value_len_def
      seq_from_value_def seq_len_def)

lemma is_string_text: "is_string v \<Longrightarrow> try_rust_string v = Some (text_of v)"
proof (cases "is_unit_value v")
  case True
  then show ?thesis by (simp add: unit_text text_of_def)
next
  case False
  have "\<exists>s. those (map Value_Seq.char_of xs) = Some s" if "list_all is_char xs" for xs
    using that by (induction xs) (auto simp: is_char_def Value_Seq.char_of_def split: wq_value.splits)
  then have "those (map Value_Seq.char_of xs) = Some (case those (map Value_Seq.char_of xs) of None \<Rightarrow> [] | Some s \<Rightarrow> s)"
    if "list_all is_char xs" for xs using that by fastforce
  then show "is_string v \<Longrightarrow> ?thesis" using False
    by (cases v) (auto simp: is_string_def text_of_def try_rust_string_def)
qed

lemma cat_strings:
  assumes "is_string a" "is_string b"
  shows "\<exists>v. cat a b = Some v \<and> is_list v \<and> items v = map VChar (text_of a @ text_of b)"
proof (cases "is_unit_value a \<and> is_unit_value b")
  case True
  then show ?thesis using assms
    by (simp add: cat_def empty_list_value_def is_list_def items_simps text_of_def unit_text)
next
  case False
  have "cat a b = Some (VString (text_of a @ text_of b))"
  proof (cases "\<exists>s. a = VString s")
    case True
    then show ?thesis using False assms is_string_text [OF assms(2)]
      by (auto simp: cat_def text_of_def [of "VString _"] try_rust_string_def [of "VString _"])
  next
    case False
    then show ?thesis
      using \<open>\<not> (is_unit_value a \<and> is_unit_value b)\<close> assms is_string_text [OF assms(1)] is_string_text [OF assms(2)]
      by (auto simp: cat_def split: wq_value.splits)
  qed
  then show ?thesis by (simp add: is_list_def items_simps)
qed

lemmas packed_views = native_int_seq_def packed_int_seq_def int_seq_vec_def

lemma cat_arms_items:
  assumes "packed_int_seq a = None" "packed_int_seq b = None"
  shows "is_list (cat_arms a b) \<and> items (cat_arms a b) = joined a b"
  using assms
  by (cases a) (auto simp: cat_arms_def joined_def storage_items_def packed_views packed_rank_def is_list_def
    list_storage_from_value_def storage_values_def items_simps split: wq_value.splits)

lemma packed_facts:
  "packed_int_seq v = Some xs \<Longrightarrow> storage_items v = map VInt (int_seq_vec xs) \<and> packed_rank v = 3 \<and> native_int_seq v = Some xs"
  "packed_int_seq v = None \<Longrightarrow> packed_rank v < 3"
  "native_int_seq v = Some xs \<Longrightarrow> storage_items v = map VInt (int_seq_vec xs) \<and> (packed_rank v = 3 \<or> packed_rank v = 0)"
  "packed_int_seq v = Some xs \<Longrightarrow> v \<noteq> VList ys"
  by (cases v; auto simp: packed_views storage_items_def packed_rank_def list_storage_from_value_def storage_values_def)+

lemma rank_zero:
  "packed_rank v = 0 \<Longrightarrow> (\<exists>xs. v = VList xs) \<or> storage_items v = [v]"
  "storage_items (VList xs) = xs" "packed_rank (VList xs) = 0"
  by (cases v; simp add: storage_items_def packed_rank_def list_storage_from_value_def storage_values_def)+

lemma or_else_simps [simp]: "or_else (Some x) q = Some x" "or_else None q = q"
  by (simp_all add: or_else_def)

text \<open>\<open>cat_packed\<close> without its first block.\<close>

lemma cat_packed_eq:
  "native_int_seq a = Some xs \<Longrightarrow> native_int_seq b = Some ys \<Longrightarrow>
   cat_packed a b = Some (VIntList (int_seq_vec xs @ int_seq_vec ys))"
  "packed_int_seq a = Some xs \<Longrightarrow> native_int_seq b = None \<Longrightarrow>
   cat_packed a b = Some (VList (map VInt (int_seq_vec xs) @ (case b of VList ys \<Rightarrow> ys | _ \<Rightarrow> [b])))"
  "packed_int_seq b = Some ys \<Longrightarrow> native_int_seq a = None \<Longrightarrow>
   cat_packed a b = Some (VList ((case a of VList xs \<Rightarrow> xs | _ \<Rightarrow> [a]) @ map VInt (int_seq_vec ys)))"
  "packed_int_seq a = None \<Longrightarrow> packed_int_seq b = None \<Longrightarrow> native_int_seq a = None \<or> native_int_seq b = None \<Longrightarrow>
   cat_packed a b = None"
proof -
  show "native_int_seq a = Some xs \<Longrightarrow> native_int_seq b = Some ys \<Longrightarrow>
      cat_packed a b = Some (VIntList (int_seq_vec xs @ int_seq_vec ys))"
    by (cases a) (auto simp: cat_packed_def packed_views)
  show "packed_int_seq a = Some xs \<Longrightarrow> native_int_seq b = None \<Longrightarrow>
      cat_packed a b = Some (VList (map VInt (int_seq_vec xs) @ (case b of VList ys \<Rightarrow> ys | _ \<Rightarrow> [b])))"
    by (cases b; cases a) (simp_all add: cat_packed_def packed_views)
  show "packed_int_seq b = Some ys \<Longrightarrow> native_int_seq a = None \<Longrightarrow>
      cat_packed a b = Some (VList ((case a of VList xs \<Rightarrow> xs | _ \<Rightarrow> [a]) @ map VInt (int_seq_vec ys)))"
    by (cases a; cases b) (simp_all add: cat_packed_def packed_views)
  show "packed_int_seq a = None \<Longrightarrow> packed_int_seq b = None \<Longrightarrow>
      native_int_seq a = None \<or> native_int_seq b = None \<Longrightarrow> cat_packed a b = None"
    by (cases a) (auto simp: cat_packed_def or_else_def packed_views split: option.splits)
qed

lemma cat_mixed:
  assumes "\<not> (is_string a \<and> is_string b)"
  shows "\<exists>v. cat a b = Some v \<and> is_list v \<and> items v = joined a b"
proof -
  have one: "(case w of VList ys \<Rightarrow> ys | _ \<Rightarrow> [w]) = (if packed_rank w = 0 then storage_items w else [w])"
    if "packed_int_seq w = None" for w
    using that rank_zero(1) [of w] by (cases w) (auto simp: rank_zero(2,3) packed_rank_def packed_views)
  consider (ints) xs ys where "native_int_seq a = Some xs" "native_int_seq b = Some ys"
    | (left) xs where "packed_int_seq a = Some xs" "native_int_seq b = None" "packed_int_seq b = None"
    | (right) ys where "packed_int_seq b = Some ys" "native_int_seq a = None" "packed_int_seq a = None"
    | (arms) "packed_int_seq a = None" "packed_int_seq b = None" "native_int_seq a = None \<or> native_int_seq b = None"
    using packed_facts(1) by (cases "packed_int_seq a"; cases "packed_int_seq b"; cases "native_int_seq a"; cases "native_int_seq b") auto
  then show ?thesis
  proof cases
    case ints
    then show ?thesis using assms packed_facts(3) [of a] packed_facts(3) [of b]
      by (auto simp: cat_def cat_packed_eq(1) is_list_def items_simps joined_def)
  next
    case left
    then show ?thesis using assms packed_facts(1) [of a] packed_facts(2) [of b] one [of b]
      by (auto simp: cat_def cat_packed_eq(2) is_list_def items_simps joined_def)
  next
    case right
    then show ?thesis using assms packed_facts(1) [of b] packed_facts(2) [of a] one [of a]
      by (auto simp: cat_def cat_packed_eq(3) is_list_def items_simps joined_def)
  next
    case arms
    then show ?thesis using assms cat_arms_items [of a b] by (auto simp: cat_def cat_packed_eq(4))
  qed
qed

text \<open>C26: \<open>cat\<close> never panics and always builds a list. Two strings are appended character by
  character. Otherwise the elements of the operands follow one another, an atom, a string or a
  dictionary counting as one element, with one exception: of two packed lists of different types
  (integers before floats before booleans) the second type is not spliced but becomes one nested
  element.\<close>

theorem cat_elements:
  "\<exists>v. cat a b = Some v \<and> is_list v \<and>
     items v = (if is_string a \<and> is_string b then map VChar (text_of a @ text_of b) else joined a b)"
  using cat_strings cat_mixed by (cases "is_string a \<and> is_string b") auto

section \<open>Many operands\<close>

lemma unit_items: "is_unit_value v \<Longrightarrow> list_storage_from_value v \<noteq> None \<Longrightarrow> storage_items v = []"
  by (cases v) (auto simp: is_unit_value_def is_list_def is_empty_def value_len_def list_storage_from_value_def
      storage_items_def storage_values_def seq_from_value_def seq_len_def packed_views simp flip: length_0_conv)

lemma concat_items:
  assumes "those (map f vs) = Some ys" "\<And>v y. f v = Some y \<Longrightarrow> storage_items v = map g (h y)"
  shows "concat (map storage_items vs) = map g (concat (map h ys))"
  using assms by (induction vs arbitrary: ys) (auto split: option.splits)

lemma part_items:
  "float_parts v = Some xs \<Longrightarrow> storage_items v = map VFloat xs"
  "bool_parts v = Some bs \<Longrightarrow> storage_items v = map VBool bs"
  by (cases v; auto simp: storage_items_def list_storage_from_value_def storage_values_def)+

lemma storage_items: "list_storage_from_value v = Some s \<Longrightarrow> storage_items v = storage_values s"
  by (simp add: storage_items_def)

lemma those_defined: "list_all (\<lambda>v. f v \<noteq> None) vs \<Longrightarrow> \<exists>ys. those (map f vs) = Some ys"
  by (induction vs) auto

lemma those_chars: "list_all is_char xs \<Longrightarrow> \<exists>s. those (map Value_Seq.char_of xs) = Some s \<and> map VChar s = xs"
  by (induction xs) (auto simp: is_char_def Value_Seq.char_of_def split: wq_value.splits)

lemma string_items:
  assumes "is_string v" "list_storage_from_value v \<noteq> None"
  shows "storage_items v = map VChar (text_of v)"
proof (cases "is_unit_value v")
  case True
  then show ?thesis using assms by (simp add: unit_items text_of_def unit_text)
next
  case False
  then obtain xs where "v = VList xs" "list_all is_char xs"
    using assms by (cases v) (auto simp: is_string_def list_storage_from_value_def)
  then show ?thesis using those_chars [of xs]
    by (auto simp: text_of_def try_rust_string_def storage_items_def list_storage_from_value_def storage_values_def)
qed

lemma texts_items:
  "list_all is_string ws \<Longrightarrow> list_all (\<lambda>v. list_storage_from_value v \<noteq> None) ws \<Longrightarrow>
   map VChar (concat (List.map_filter try_rust_string ws)) = concat (map storage_items ws)"
proof (induction ws)
  case (Cons w ws)
  then show ?case using is_string_text [of w] by (simp add: List.map_filter_simps string_items)
qed (simp add: List.map_filter_simps)

lemma cat_many_two:
  assumes "vs = a # b # ws"
  shows "cat_many vs =
     (if list_all is_unit_value vs then Some empty_list_value
      else if list_all is_string vs then Some (VString (concat (List.map_filter try_rust_string vs)))
      else case those (map native_int_seq vs) of
        Some seqs \<Rightarrow> Some (VIntList (concat (map int_seq_vec seqs)))
      | None \<Rightarrow> (case those (map float_parts vs) of
          Some fs \<Rightarrow> Some (VFloatList (concat fs))
        | None \<Rightarrow> (case those (map bool_parts vs) of
            Some bs \<Rightarrow> Some (VBoolList (concat bs))
          | None \<Rightarrow> (case those (map list_storage_from_value vs) of
              Some ss \<Rightarrow> Some (VList (concat (map storage_values ss)))
            | None \<Rightarrow> cat_reduce a (b # ws)))))"
  unfolding cat_many_def assms by (simp only: list.case)

text \<open>\<open>cat_many\<close> on two or more lists delivers the elements of all of them in order, whatever
  mixture of packed and general lists they are.\<close>

theorem cat_many_elements:
  assumes "2 \<le> length vs" "list_all (\<lambda>v. list_storage_from_value v \<noteq> None) vs"
  shows "\<exists>v. cat_many vs = Some v \<and> is_list v \<and> items v = concat (map storage_items vs)"
proof -
  obtain a b ws where vs: "vs = a # b # ws" using assms(1) by (cases vs; cases "tl vs") auto
  obtain ss where ss: "those (map list_storage_from_value vs) = Some ss"
    using those_defined [OF assms(2)] by blast
  show ?thesis
  proof (cases "list_all is_unit_value vs")
    case True
    then have "concat (map storage_items vs) = []"
      using assms(2) by (simp add: list_all_iff unit_items)
    then show ?thesis using True by (simp add: cat_many_two [OF vs] empty_list_value_def is_list_def items_simps)
  next
    case units: False
    show ?thesis
    proof (cases "list_all is_string vs")
      case True
      from texts_items [OF True assms(2)] show ?thesis using True units
        by (simp add: cat_many_two [OF vs] is_list_def items_simps)
    next
      case False
      have ints: "concat (map storage_items vs) = map VInt (concat (map int_seq_vec qs))"
        if "those (map native_int_seq vs) = Some qs" for qs
        by (rule concat_items [OF that]) (simp add: packed_facts(3))
      have floats: "concat (map storage_items vs) = map VFloat (concat fs)" if "those (map float_parts vs) = Some fs" for fs
        using concat_items [OF that, of VFloat id] by (simp add: part_items)
      have bools: "concat (map storage_items vs) = map VBool (concat bs)" if "those (map bool_parts vs) = Some bs" for bs
        using concat_items [OF that, of VBool id] by (simp add: part_items)
      have lists: "concat (map storage_items vs) = concat (map storage_values ss)"
        using concat_items [OF ss, of id storage_values] by (simp add: storage_items)
      have "cat_many vs = (case those (map native_int_seq vs) of
          Some seqs \<Rightarrow> Some (VIntList (concat (map int_seq_vec seqs)))
        | None \<Rightarrow> (case those (map float_parts vs) of
            Some fs \<Rightarrow> Some (VFloatList (concat fs))
          | None \<Rightarrow> (case those (map bool_parts vs) of
              Some bs \<Rightarrow> Some (VBoolList (concat bs))
            | None \<Rightarrow> Some (VList (concat (map storage_values ss))))))"
        unfolding cat_many_two [OF vs] by (simp only: units False ss if_False option.case)
      then show ?thesis using ints floats bools lists
        by (auto simp: is_list_def items_simps split: option.splits)
    qed
  qed
qed

theorem cat_many_elements_witness:
  "\<exists>v. cat_many [VIntList [1], VList [VTag (lit ''a'')]] = Some v \<and> is_list v \<and> items v = [VInt 1, VTag (lit ''a'')]"
proof -
  have "list_all (\<lambda>v. list_storage_from_value v \<noteq> None) [VIntList [1], VList [VTag (lit ''a'')]]"
    by (simp add: list_storage_from_value_def packed_int_seq_def)
  from cat_many_elements [OF _ this] show ?thesis
    by (simp add: storage_items_def list_storage_from_value_def storage_values_def packed_views)
qed


section \<open>Flattening is the left-to-right order of the leaves\<close>

fun leaves_of :: "wq_value \<Rightarrow> wq_value list" where
  "leaves_of (VList xs) = concat (map leaves_of xs)"
| "leaves_of v = (if is_list v then items v else [v])"

lemma flatten_leaf: "(\<nexists>xs. v = VList xs) \<Longrightarrow> flatten_leaf v = leaves_of v"
  by (cases v) (simp_all add: flatten_leaf_def is_list_def items_simps packed_views)

lemma flatten_loop_leaves: "flatten_loop stack out = out @ concat (map leaves_of stack)"
proof (induction stack out rule: flatten_loop.induct)
  case (2 cur stack out)
  then show ?case by (cases cur) (simp_all add: flatten_leaf)
qed simp

text \<open>\<open>flatten\<close>, a loop over an explicit stack, lists the leaves of a nested value from left to
  right, the elements of packed lists and of strings included.\<close>

theorem flatten_leaves: "flatten v = leaves_of v"
  by (simp add: flatten_def flatten_loop_leaves)

end
