(* ===== verification/Requirement.thy ===== *)
theory Requirement
  imports Value
begin

text \<open>
  Requirements on values and their prose (\<open>wqpl/src/wqerror/requirement.rs\<close>), and the builders of
  \<open>WqError\<close> that use them (\<open>wqpl/src/wqerror.rs\<close>). \<open>string_literal\<close>, the only use of the debug
  format of strings, is left out. The excerpt of a value (\<open>Excerpt\<close> of \<open>value/display.rs\<close>) is an
  argument of the builders that print one.
\<close>

section \<open>Requirements\<close>

datatype bound = B_Unbounded | B_Included int | B_Excluded int

datatype type_name =
    TN_Int | TN_Float | TN_Complex | TN_Fraction | TN_Bool | TN_Char | TN_Tag | TN_String | TN_List
  | TN_Dict | TN_Stream

datatype class_name = CN_Number | CN_RealNumber | CN_Atom | CN_Callable | CN_Pair

datatype modifier = Mod_Positive | Mod_NonNegative | Mod_Finite

datatype requirement =
    R_Type type_name
  | R_Class class_name
  | R_OneOf "requirement list"
  | R_List requirement
  | R_Dict requirement requirement
  | R_IntRange bound bound
  | R_Modified modifier requirement
  | R_Literal ustr
  | R_Phrase ustr ustr

definition push_new :: "requirement list \<Rightarrow> requirement \<Rightarrow> requirement list" where
  "push_new flattened r = (if r \<in> set flattened then flattened else flattened @ [r])"

definition one_of_step :: "requirement list \<Rightarrow> requirement \<Rightarrow> requirement list" where
  "one_of_step flattened r =
     (case r of R_OneOf items \<Rightarrow> foldl push_new flattened items | _ \<Rightarrow> push_new flattened r)"

definition one_of :: "requirement list \<Rightarrow> requirement" where
  "one_of rs = R_OneOf (foldl one_of_step [] rs)"

definition positive :: "requirement \<Rightarrow> requirement" where
  "positive r = R_Modified Mod_Positive r"

definition non_negative :: "requirement \<Rightarrow> requirement" where
  "non_negative r = R_Modified Mod_NonNegative r"

definition finite_req :: "requirement \<Rightarrow> requirement" where
  "finite_req r = R_Modified Mod_Finite r"

fun needs_element_scope :: "requirement \<Rightarrow> bool" where
  "needs_element_scope (R_OneOf _) = True"
| "needs_element_scope (R_Literal _) = True"
| "needs_element_scope (R_Modified _ r) = needs_element_scope r"
| "needs_element_scope _ = False"

fun can_modify_dict_member :: "requirement \<Rightarrow> bool" where
  "can_modify_dict_member (R_Type _) = True"
| "can_modify_dict_member (R_Class _) = True"
| "can_modify_dict_member (R_Modified _ r) = can_modify_dict_member r"
| "can_modify_dict_member _ = False"

section \<open>Prose\<close>

datatype grammatical_number = Singular | Plural

definition type_name_text :: "type_name \<Rightarrow> grammatical_number \<Rightarrow> ustr" where
  "type_name_text t n =
     (case n of
        Singular \<Rightarrow> (case t of
           TN_Int \<Rightarrow> lit ''int'' | TN_Float \<Rightarrow> lit ''float'' | TN_Complex \<Rightarrow> lit ''complex''
         | TN_Fraction \<Rightarrow> lit ''fraction'' | TN_Bool \<Rightarrow> lit ''bool'' | TN_Char \<Rightarrow> lit ''char''
         | TN_Tag \<Rightarrow> lit ''tag'' | TN_String \<Rightarrow> lit ''string'' | TN_List \<Rightarrow> lit ''list''
         | TN_Dict \<Rightarrow> lit ''dict'' | TN_Stream \<Rightarrow> lit ''stream'')
      | Plural \<Rightarrow> (case t of
           TN_Int \<Rightarrow> lit ''ints'' | TN_Float \<Rightarrow> lit ''floats'' | TN_Complex \<Rightarrow> lit ''complex values''
         | TN_Fraction \<Rightarrow> lit ''fractions'' | TN_Bool \<Rightarrow> lit ''bools'' | TN_Char \<Rightarrow> lit ''chars''
         | TN_Tag \<Rightarrow> lit ''tags'' | TN_String \<Rightarrow> lit ''strings'' | TN_List \<Rightarrow> lit ''lists''
         | TN_Dict \<Rightarrow> lit ''dicts'' | TN_Stream \<Rightarrow> lit ''streams''))"

definition class_name_text :: "class_name \<Rightarrow> grammatical_number \<Rightarrow> ustr" where
  "class_name_text c n =
     (case n of
        Singular \<Rightarrow> (case c of
           CN_Number \<Rightarrow> lit ''number'' | CN_RealNumber \<Rightarrow> lit ''real number'' | CN_Atom \<Rightarrow> lit ''atom''
         | CN_Callable \<Rightarrow> lit ''callable'' | CN_Pair \<Rightarrow> lit ''pair'')
      | Plural \<Rightarrow> (case c of
           CN_Number \<Rightarrow> lit ''numbers'' | CN_RealNumber \<Rightarrow> lit ''real numbers'' | CN_Atom \<Rightarrow> lit ''atoms''
         | CN_Callable \<Rightarrow> lit ''callables'' | CN_Pair \<Rightarrow> lit ''pairs''))"

definition modifier_text :: "modifier \<Rightarrow> ustr" where
  "modifier_text m = (case m of
     Mod_Positive \<Rightarrow> lit ''positive'' | Mod_NonNegative \<Rightarrow> lit ''non-negative'' | Mod_Finite \<Rightarrow> lit ''finite'')"

fun join :: "ustr \<Rightarrow> ustr list \<Rightarrow> ustr" where
  "join sep [] = []"
| "join sep [x] = x"
| "join sep (x # xs) = x @ sep @ join sep xs"

definition render_alternatives :: "ustr list \<Rightarrow> ustr" where
  "render_alternatives alts =
     (case alts of
        [] \<Rightarrow> lit ''value''
      | [only] \<Rightarrow> only
      | [first, second] \<Rightarrow> first @ lit '' or '' @ second
      | _ \<Rightarrow> join (lit '', '') (butlast alts) @ lit '', or '' @ last alts)"

definition render_int_range :: "bound \<Rightarrow> bound \<Rightarrow> grammatical_number \<Rightarrow> ustr" where
  "render_int_range lower upper n =
     (let noun = type_name_text TN_Int n in
      case (lower, upper) of
        (B_Unbounded, B_Unbounded) \<Rightarrow> noun
      | (B_Included l, B_Unbounded) \<Rightarrow> noun @ lit '' at least '' @ show_int l
      | (B_Excluded l, B_Unbounded) \<Rightarrow> noun @ lit '' greater than '' @ show_int l
      | (B_Unbounded, B_Included u) \<Rightarrow> noun @ lit '' at most '' @ show_int u
      | (B_Unbounded, B_Excluded u) \<Rightarrow> noun @ lit '' less than '' @ show_int u
      | (B_Included l, B_Included u) \<Rightarrow> noun @ lit '' from '' @ show_int l @ lit '' through '' @ show_int u
      | (B_Excluded l, B_Included u) \<Rightarrow>
          noun @ lit '' greater than '' @ show_int l @ lit '' and at most '' @ show_int u
      | (B_Included l, B_Excluded u) \<Rightarrow>
          noun @ lit '' at least '' @ show_int l @ lit '' and less than '' @ show_int u
      | (B_Excluded l, B_Excluded u) \<Rightarrow>
          noun @ lit '' greater than '' @ show_int l @ lit '' and less than '' @ show_int u)"

text \<open>\<open>render_dict_member\<close>, given the two renderings of the requirement.\<close>

definition dict_member_text :: "bool \<Rightarrow> ustr \<Rightarrow> ustr \<Rightarrow> ustr \<Rightarrow> ustr" where
  "dict_member_text can_modify singular plural member =
     (if can_modify then singular @ lit '' '' @ member
      else member @ lit '' that are '' @ plural)"

fun render :: "requirement \<Rightarrow> grammatical_number \<Rightarrow> ustr" where
  "render (R_Type t) n = type_name_text t n"
| "render (R_Class c) n = class_name_text c n"
| "render (R_OneOf rs) n = render_alternatives (map (\<lambda>r. render r n) rs)"
| "render (R_List item) n =
     (let list = (case n of Singular \<Rightarrow> lit ''list'' | Plural \<Rightarrow> lit ''lists'');
          item_text = render item Plural
      in if needs_element_scope item then list @ lit '' whose elements are '' @ item_text
         else list @ lit '' of '' @ item_text)"
| "render (R_Dict key val) n =
     (case n of Singular \<Rightarrow> lit ''dict'' | Plural \<Rightarrow> lit ''dicts'') @ lit '' with '' @
     dict_member_text (can_modify_dict_member key) (render key Singular) (render key Plural) (lit ''keys'') @
     lit '' and '' @
     dict_member_text (can_modify_dict_member val) (render val Singular) (render val Plural) (lit ''values'')"
| "render (R_IntRange lower upper) n = render_int_range lower upper n"
| "render (R_Modified m r) n =
     (case r of
        R_OneOf items \<Rightarrow> render_alternatives (map (\<lambda>i. modifier_text m @ lit '' '' @ render i n) items)
      | _ \<Rightarrow> modifier_text m @ lit '' '' @ render r n)"
| "render (R_Literal l) n = l"
| "render (R_Phrase s p) n = (case n of Singular \<Rightarrow> s | Plural \<Rightarrow> p)"

definition requirement_text :: "requirement \<Rightarrow> ustr" where
  "requirement_text r = render r Singular"

section \<open>Errors that use them\<close>

definition expected :: "requirement \<Rightarrow> wq_error \<Rightarrow> wq_error" where
  "expected r e = with_msg (lit ''expected '' @ requirement_text r) e"

text \<open>\<open>format!("... {} ({})", v.excerpt(), v.category())\<close>.\<close>

definition got_text :: "(wq_value \<Rightarrow> ustr) \<Rightarrow> string \<Rightarrow> wq_value \<Rightarrow> ustr" where
  "got_text excerpt prefix v =
     lit prefix @ excerpt v @ lit '' ('' @ lit (category_name (category v)) @ lit '')''"

definition got1 :: "(wq_value \<Rightarrow> ustr) \<Rightarrow> wq_value \<Rightarrow> wq_error \<Rightarrow> wq_error" where
  "got1 excerpt v e = attach_note (got_text excerpt ''got '' v) e"

definition got2 :: "(wq_value \<Rightarrow> ustr) \<Rightarrow> wq_value \<Rightarrow> wq_value \<Rightarrow> wq_error \<Rightarrow> wq_error" where
  "got2 excerpt lhs rhs e =
     attach_note (got_text excerpt ''got rhs '' rhs) (attach_note (got_text excerpt ''got lhs '' lhs) e)"

definition got_at_index :: "(wq_value \<Rightarrow> ustr) \<Rightarrow> wq_value \<Rightarrow> nat \<Rightarrow> wq_error \<Rightarrow> wq_error" where
  "got_at_index excerpt v i e =
     attach_note (got_text excerpt ''got '' v) (attach_note (lit ''at index '' @ show_nat i) e)"

definition at_arg :: "nat \<Rightarrow> wq_error \<Rightarrow> wq_error" where
  "at_arg pos e = attach_note (lit ''at argument '' @ show_nat (min (pos + 1) (2 ^ 64 - 1))) e"

definition at_named_arg :: "ustr \<Rightarrow> wq_error \<Rightarrow> wq_error" where
  "at_named_arg name e = e\<lparr>err_notes := (lit ''at named argument '' @ [39] @ name @ [39]) # err_notes e\<rparr>"

section \<open>Unions\<close>

text \<open>The alternatives a requirement stands for, and the first occurrences of a list.\<close>

fun alternatives :: "requirement \<Rightarrow> requirement list" where
  "alternatives (R_OneOf rs) = rs"
| "alternatives r = [r]"

definition firsts :: "requirement list \<Rightarrow> requirement list" where
  "firsts rs = foldl push_new [] rs"

lemma one_of_alternatives: "one_of rs = R_OneOf (firsts (concat (map alternatives rs)))"
proof -
  have "foldl one_of_step acc rs = foldl push_new acc (concat (map alternatives rs))" for acc
    by (induction rs arbitrary: acc) (simp_all add: one_of_step_def split: requirement.splits)
  then show ?thesis by (simp add: one_of_def firsts_def)
qed

lemma push_new_facts:
  "set (foldl push_new acc rs) = set acc \<union> set rs"
  "distinct acc \<Longrightarrow> distinct (foldl push_new acc rs)"
  by (induction rs arbitrary: acc) (auto simp: push_new_def)

lemma push_new_known: "set rs \<subseteq> set acc \<Longrightarrow> foldl push_new acc rs = acc"
  by (induction rs arbitrary: acc) (auto simp: push_new_def)

text \<open>Pushing the first occurrences of a list is pushing the list.\<close>

lemma push_new_firsts: "foldl push_new acc (foldl push_new base rs) = foldl push_new (foldl push_new acc base) rs"
proof (induction rs arbitrary: base)
  case (Cons r rs)
  have "foldl push_new acc (push_new base r) = push_new (foldl push_new acc base) r"
    by (auto simp: push_new_def push_new_facts)
  then show ?case using Cons by simp
qed simp

lemma firsts_firsts: "firsts (xs @ firsts ys @ zs) = firsts (xs @ ys @ zs)"
  by (simp add: firsts_def push_new_firsts)

lemma alternatives_one_of [simp]: "alternatives (one_of rs) = firsts (concat (map alternatives rs))"
  by (simp add: one_of_alternatives)

text \<open>\<open>Requirement::one_of\<close> is an idempotent and associative union: however unions are nested
  into one another, the result lists the alternatives once each, in the order of their first
  occurrence, so nesting does not change the prose.\<close>

theorem one_of_flattens:
  "one_of (xs @ [one_of ys] @ zs) = one_of (xs @ ys @ zs) \<and>
   one_of [one_of ys] = one_of ys \<and>
   distinct (alternatives (one_of ys)) \<and>
   set (alternatives (one_of ys)) = (\<Union>y\<in>set ys. set (alternatives y))"
  using firsts_firsts [of "concat (map alternatives xs)" "concat (map alternatives ys)" "concat (map alternatives zs)"]
    firsts_firsts [of "[]" "concat (map alternatives ys)" "[]"]
    push_new_facts [of "[]" "concat (map alternatives ys)"]
  by (simp add: one_of_alternatives firsts_def)

text \<open>The prose of a modified union repeats the modifier.\<close>

lemma render_modified_union:
  assumes "list_all (\<lambda>r. \<forall>rs. r \<noteq> R_OneOf rs) rs"
  shows "render (R_Modified m (R_OneOf rs)) n = render (R_OneOf (map (R_Modified m) rs)) n"
proof -
  have "map (\<lambda>i. modifier_text m @ lit '' '' @ render i n) rs = map (\<lambda>r. render (R_Modified m r) n) rs"
    using assms by (intro map_cong refl) (auto simp: list_all_iff split: requirement.splits)
  moreover have "render (R_OneOf (map (R_Modified m) rs)) n =
      render_alternatives (map (\<lambda>r. render (R_Modified m r) n) rs)"
    by (simp add: comp_def del: render.simps(7))
  ultimately show ?thesis unfolding render.simps(7) requirement.case by (simp only:)
qed

lemma requirement_examples:
  "requirement_text (R_List (positive (one_of [R_Type TN_Int, R_Type TN_Float]))) =
     lit ''list whose elements are positive ints or positive floats''"
  "requirement_text (R_Dict (R_Type TN_Tag) (R_List (R_Type TN_Int))) =
     lit ''dict with tag keys and values that are lists of ints''"
  "requirement_text (one_of [non_negative (R_Type TN_Int), R_Literal (lit ''inf'')]) = lit ''non-negative int or inf''"
  by (simp_all add: requirement_text_def one_of_def one_of_step_def push_new_def positive_def non_negative_def
      type_name_text_def modifier_text_def render_alternatives_def dict_member_text_def lit_def)

end
