(* ===== verification/Float64.thy ===== *)
theory Float64
  imports Prelude
begin

unbundle bit_operations_syntax

text \<open>
  The operations of the type \<open>f64\<close> that the sources use: comparison, negation, addition,
  subtraction, multiplication and conversion of integers on IEEE binary64 bit patterns, rounding to
  nearest with ties to even. The not-a-number an operation delivers is the positive quiet one; Rust
  leaves its sign and payload open.
\<close>

definition f64_nan :: f64 where "f64_nan = 0x7FF8000000000000"

definition f64_sign :: "f64 \<Rightarrow> bool" where
  "f64_sign b = bit b 63"

definition f64_magnitude :: "f64 \<Rightarrow> nat" where
  "f64_magnitude b = unat (take_bit 63 b)"

definition f64_nan_p :: "f64 \<Rightarrow> bool" where
  "f64_nan_p b \<longleftrightarrow> 0x7FF * 2 ^ 52 < f64_magnitude b"

definition f64_inf_p :: "f64 \<Rightarrow> bool" where
  "f64_inf_p b \<longleftrightarrow> f64_magnitude b = 0x7FF * 2 ^ 52"

definition f64_make :: "bool \<Rightarrow> nat \<Rightarrow> f64" where
  "f64_make s m = (if s then set_bit 63 (of_nat m) else of_nat m)"

section \<open>Comparison\<close>

definition f64_key :: "f64 \<Rightarrow> int" where
  "f64_key b = (if f64_sign b then - int (f64_magnitude b) else int (f64_magnitude b))"

definition f64_lt :: "f64 \<Rightarrow> f64 \<Rightarrow> bool" where
  "f64_lt x y \<longleftrightarrow> \<not> f64_nan_p x \<and> \<not> f64_nan_p y \<and> f64_key x < f64_key y"

definition f64_le :: "f64 \<Rightarrow> f64 \<Rightarrow> bool" where
  "f64_le x y \<longleftrightarrow> \<not> f64_nan_p x \<and> \<not> f64_nan_p y \<and> f64_key x \<le> f64_key y"

definition f64_eq :: "f64 \<Rightarrow> f64 \<Rightarrow> bool" where
  "f64_eq x y \<longleftrightarrow> \<not> f64_nan_p x \<and> \<not> f64_nan_p y \<and> f64_key x = f64_key y"

section \<open>Rounding\<close>

fun bit_length :: "nat \<Rightarrow> nat" where
  "bit_length n = (if n = 0 then 0 else Suc (bit_length (n div 2)))"

declare bit_length.simps [simp del]

text \<open>The exponent of the leading bit of \<open>p / q\<close>.\<close>

definition flog2_ratio :: "nat \<Rightarrow> nat \<Rightarrow> int" where
  "flog2_ratio p q =
     (let k = int (bit_length p) - int (bit_length q) in
      if q * 2 ^ nat k \<le> p * 2 ^ nat (- k) then k else k - 1)"

definition half_even :: "nat \<Rightarrow> nat \<Rightarrow> nat" where
  "half_even n d =
     (let m = n div d; r = n mod d in if d < 2 * r \<or> 2 * r = d \<and> odd m then m + 1 else m)"

text \<open>The magnitude nearest to \<open>p / q\<close>; overflow is infinity.\<close>

definition round_ratio :: "nat \<Rightarrow> nat \<Rightarrow> nat" where
  "round_ratio p q =
     (if p = 0 then 0
      else let e = max (- 1074) (flog2_ratio p q - 52);
               m = half_even (p * 2 ^ nat (- e)) (q * 2 ^ nat e)
           in min (nat (e + 1074) * 2 ^ 52 + m) (0x7FF * 2 ^ 52))"

text \<open>The integer \<open>n\<close> times two to the \<open>e\<close>.\<close>

definition f64_round :: "int \<Rightarrow> int \<Rightarrow> f64" where
  "f64_round n e = f64_make (n < 0) (round_ratio (nat \<bar>n\<bar> * 2 ^ nat e) (2 ^ nat (- e)))"

definition f64_of_int :: "int \<Rightarrow> f64" where
  "f64_of_int n = f64_round n 0"

section \<open>Arithmetic\<close>

definition f64_exponent :: "f64 \<Rightarrow> int" where
  "f64_exponent b =
     (let e = f64_magnitude b div 2 ^ 52 in if e = 0 then - 1074 else int e - 1075)"

definition f64_significand :: "f64 \<Rightarrow> int" where
  "f64_significand b =
     (let m = f64_magnitude b mod 2 ^ 52 + (if f64_magnitude b div 2 ^ 52 = 0 then 0 else 2 ^ 52)
      in if f64_sign b then - int m else int m)"

definition f64_neg :: "f64 \<Rightarrow> f64" where
  "f64_neg b = flip_bit 63 b"

definition f64_add :: "f64 \<Rightarrow> f64 \<Rightarrow> f64" where
  "f64_add x y =
     (if f64_nan_p x \<or> f64_nan_p y then f64_nan
      else if f64_inf_p x then (if f64_inf_p y \<and> f64_sign x \<noteq> f64_sign y then f64_nan else x)
      else if f64_inf_p y then y
      else let e = min (f64_exponent x) (f64_exponent y);
               n = f64_significand x * 2 ^ nat (f64_exponent x - e) +
                   f64_significand y * 2 ^ nat (f64_exponent y - e)
           in if n = 0 then f64_make (f64_sign x \<and> f64_sign y) 0 else f64_round n e)"

definition f64_sub :: "f64 \<Rightarrow> f64 \<Rightarrow> f64" where
  "f64_sub x y = f64_add x (f64_neg y)"

definition f64_mul :: "f64 \<Rightarrow> f64 \<Rightarrow> f64" where
  "f64_mul x y =
     (let s = (f64_sign x \<noteq> f64_sign y) in
      if f64_nan_p x \<or> f64_nan_p y then f64_nan
      else if f64_inf_p x \<or> f64_inf_p y then
        (if f64_magnitude x = 0 \<or> f64_magnitude y = 0 then f64_nan else f64_make s (0x7FF * 2 ^ 52))
      else let n = f64_significand x * f64_significand y
           in if n = 0 then f64_make s 0 else f64_round n (f64_exponent x + f64_exponent y))"

end
