(* ===== verification/Range.thy ===== *)
theory Range
  imports Requirement Float64
begin

text \<open>
  Construction of ranges (\<open>wqpl/src/range.rs\<close>). A \<open>u64\<close> is a word, a \<open>usize\<close> a natural number of
  the same 64 bits. The argument \<open>ex\<close> of the error paths is the excerpt of a value.
\<close>

section \<open>Integer ranges\<close>

definition domain_msg :: "string \<Rightarrow> wq_error" where
  "domain_msg m = with_msg (lit m) (new_error W_Domain)"

definition default_int_step :: "i64 \<Rightarrow> i64 \<Rightarrow> i64" where
  "default_int_step start finish = (if finish <s start then - 1 else 1)"

definition validate_step_int :: "i64 \<Rightarrow> i64 \<Rightarrow> i64 \<Rightarrow> wq_error option" where
  "validate_step_int start finish step =
     (if step = 0 then Some (domain_msg ''range step cannot be zero'')
      else if start \<noteq> finish \<and> (start <s finish \<and> step <s 0 \<or> finish <s start \<and> 0 <s step)
      then Some (domain_msg ''range step points away from end'')
      else None)"

definition validate_next_int :: "i64 \<Rightarrow> i64 \<Rightarrow> i64 \<Rightarrow> bool \<Rightarrow> wq_error option" where
  "validate_next_int start nxt finish inclusive =
     (case checked_sub nxt start of
        None \<Rightarrow> Some (domain_msg ''range step too large'')
      | Some step \<Rightarrow>
          (case validate_step_int start finish step of
             Some e \<Rightarrow> Some e
           | None \<Rightarrow>
               let in_bounds =
                 (if 0 <s step then (if inclusive then nxt \<le>s finish else nxt <s finish)
                  else if inclusive then finish \<le>s nxt else finish <s nxt)
               in if in_bounds then None else Some (domain_msg ''range next point is outside the range'')))"

definition abs_diff :: "i64 \<Rightarrow> i64 \<Rightarrow> u64" where
  "abs_diff a b = word_of_int \<bar>sint a - sint b\<bar>"

definition unsigned_abs :: "i64 \<Rightarrow> u64" where
  "unsigned_abs a = word_of_int \<bar>sint a\<bar>"

definition checked_add_u64 :: "u64 \<Rightarrow> u64 \<Rightarrow> u64 option" where
  "checked_add_u64 a b = (if unat a + unat b < 2 ^ 64 then Some (a + b) else None)"

definition range_len_to_usize :: "u64 option \<Rightarrow> wq_error + nat" where
  "range_len_to_usize len =
     (case len of Some n \<Rightarrow> Inr (unat n) | None \<Rightarrow> Inl (domain_msg ''range too large''))"

text \<open>The length computed in both directions from the distance and the magnitude of the step.\<close>

definition steps_len :: "u64 \<Rightarrow> u64 \<Rightarrow> bool \<Rightarrow> u64 option" where
  "steps_len diff step inclusive =
     (let steps = diff div step in
      if inclusive \<or> diff mod step \<noteq> 0 then checked_add_u64 steps 1 else Some steps)"

definition make_range_int :: "i64 \<Rightarrow> i64 \<Rightarrow> i64 \<Rightarrow> bool \<Rightarrow> wq_error + int_range" where
  "make_range_int start finish step inclusive =
     (case validate_step_int start finish step of
        Some e \<Rightarrow> Inl e
      | None \<Rightarrow>
          (case (if start = finish then Inr (if inclusive then 1 else 0)
                 else if 0 <s step then range_len_to_usize (steps_len (abs_diff finish start) step inclusive)
                 else range_len_to_usize (steps_len (abs_diff start finish) (unsigned_abs step) inclusive)) of
             Inl e \<Rightarrow> Inl e
           | Inr len \<Rightarrow> Inr (new_int_range start step len)))"

section \<open>Character ranges\<close>

abbreviation (input) surrogate_start :: nat where "surrogate_start \<equiv> 0xD800"
abbreviation (input) surrogate_end :: nat where "surrogate_end \<equiv> 0xDFFF"
abbreviation (input) surrogate_len :: nat where "surrogate_len \<equiv> 0x800"
abbreviation (input) max_scalar_index :: int where "max_scalar_index \<equiv> 0x10F7FF"

definition char_scalar_index :: "uchar \<Rightarrow> i64" where
  "char_scalar_index c = of_nat (if surrogate_end < c then c - surrogate_len else c)"

definition char_from_scalar_index :: "i64 \<Rightarrow> wq_error + uchar" where
  "char_from_scalar_index index =
     (if \<not> (0 \<le> sint index \<and> sint index \<le> max_scalar_index)
      then Inl (domain_msg ''char range extends beyond valid Unicode scalar values'')
      else let code = nat (sint index);
               code = (if surrogate_start \<le> code then code + surrogate_len else code)
           in if is_scalar code then Inr code
              else Inl (domain_msg ''char range extends beyond valid Unicode scalar values''))"

definition default_char_step :: "uchar \<Rightarrow> uchar \<Rightarrow> i64" where
  "default_char_step start finish =
     (if char_scalar_index finish <s char_scalar_index start then - 1 else 1)"

definition validate_next_char :: "uchar \<Rightarrow> uchar \<Rightarrow> uchar \<Rightarrow> bool \<Rightarrow> wq_error option" where
  "validate_next_char start nxt finish inclusive =
     validate_next_int (char_scalar_index start) (char_scalar_index nxt) (char_scalar_index finish) inclusive"

fun push_chars :: "i64 list \<Rightarrow> ustr \<Rightarrow> wq_error + ustr" where
  "push_chars [] out = Inr out"
| "push_chars (i # is) out =
     (case char_from_scalar_index i of Inl e \<Rightarrow> Inl e | Inr c \<Rightarrow> push_chars is (out @ [c]))"

definition make_range_char :: "uchar \<Rightarrow> uchar \<Rightarrow> i64 \<Rightarrow> bool \<Rightarrow> wq_error + wq_value" where
  "make_range_char start finish step inclusive =
     (let start = char_scalar_index start; finish = char_scalar_index finish in
      case validate_step_int start finish step of
        Some e \<Rightarrow> Inl e
      | None \<Rightarrow>
          (case make_range_int start finish step inclusive of
             Inl e \<Rightarrow> Inl e
           | Inr r \<Rightarrow> map_sum id VString (push_chars (ir_to_vec r) [])))"

section \<open>Float ranges\<close>

definition finite_number :: requirement where
  "finite_number = one_of [finite_req (R_Type TN_Int), finite_req (R_Type TN_Float)]"

definition numeric_as_f64 :: "(wq_value \<Rightarrow> ustr) \<Rightarrow> wq_value \<Rightarrow> string \<Rightarrow> wq_error + f64" where
  "numeric_as_f64 ex v label =
     (let err = got1 ex v (attach_note (lit ''for range '' @ lit label)
                  (expected finite_number (new_error W_Domain)))
      in case v of
           VInt n \<Rightarrow> Inr (f64_of_int (sint n))
         | VFloat f \<Rightarrow> if f64_is_finite f then Inr f else Inl err
         | _ \<Rightarrow> Inl err)"

abbreviation (input) f64_zero :: f64 where "f64_zero \<equiv> 0"

definition default_float_step :: "f64 \<Rightarrow> f64 \<Rightarrow> f64" where
  "default_float_step start finish = (if f64_lt finish start then f64_of_int (- 1) else f64_of_int 1)"

definition validate_step_float :: "f64 \<Rightarrow> f64 \<Rightarrow> f64 \<Rightarrow> wq_error option" where
  "validate_step_float start finish step =
     (if f64_eq step f64_zero then Some (domain_msg ''range step cannot be zero'')
      else if \<not> f64_is_finite step then Some (domain_msg ''range step must be finite'')
      else if \<not> f64_eq start finish \<and>
        (f64_lt start finish \<and> f64_lt step f64_zero \<or> f64_lt finish start \<and> f64_lt f64_zero step)
      then Some (domain_msg ''range step points away from end'')
      else None)"

definition validate_next_float :: "f64 \<Rightarrow> f64 \<Rightarrow> f64 \<Rightarrow> bool \<Rightarrow> wq_error + f64" where
  "validate_next_float start nxt finish inclusive =
     (let step = f64_sub nxt start in
      case validate_step_float start finish step of
        Some e \<Rightarrow> Inl e
      | None \<Rightarrow>
          let in_bounds =
            (if f64_lt f64_zero step then (if inclusive then f64_le nxt finish else f64_lt nxt finish)
             else if inclusive then f64_le finish nxt else f64_lt finish nxt)
          in if in_bounds then Inr step else Inl (domain_msg ''range next point is outside the range''))"

text \<open>The loops \<open>for i in 0..MAX_ITER\<close>: \<open>n\<close> iterations are left.\<close>

fun float_items :: "(f64 \<Rightarrow> bool) \<Rightarrow> (nat \<Rightarrow> f64) \<Rightarrow> nat \<Rightarrow> nat \<Rightarrow> f64 list" where
  "float_items stop cur i 0 = []"
| "float_items stop cur i (Suc n) = (if stop (cur i) then [] else cur i # float_items stop cur (Suc i) n)"

definition max_iter :: nat where "max_iter = 10000000"

definition float_cur :: "f64 \<Rightarrow> f64 \<Rightarrow> nat \<Rightarrow> f64" where
  "float_cur start step i = f64_add start (f64_mul (f64_of_int (int i)) step)"

definition make_range_float_with_step :: "f64 \<Rightarrow> f64 \<Rightarrow> f64 \<Rightarrow> bool \<Rightarrow> wq_error + wq_value" where
  "make_range_float_with_step start finish step inclusive =
     (case validate_step_float start finish step of
        Some e \<Rightarrow> Inl e
      | None \<Rightarrow>
          Inr (VFloatList
            (if f64_lt f64_zero step
             then float_items (\<lambda>cur. if inclusive then f64_lt finish cur else f64_le finish cur)
                    (float_cur start step) 0 max_iter
             else float_items (\<lambda>cur. if inclusive then f64_lt cur finish else f64_le cur finish)
                    (float_cur start step) 0 max_iter)))"

definition make_range_float ::
  "(wq_value \<Rightarrow> ustr) \<Rightarrow> wq_value \<Rightarrow> wq_value \<Rightarrow> wq_value option \<Rightarrow> bool \<Rightarrow> wq_error + wq_value" where
  "make_range_float ex start finish step inclusive =
     (case numeric_as_f64 ex start ''start'' of Inl e \<Rightarrow> Inl e | Inr start_f \<Rightarrow>
     (case numeric_as_f64 ex finish ''end'' of Inl e \<Rightarrow> Inl e | Inr end_f \<Rightarrow>
     (case (case step of
              Some v \<Rightarrow> numeric_as_f64 ex v ''step''
            | None \<Rightarrow> Inr (default_float_step start_f end_f)) of Inl e \<Rightarrow> Inl e | Inr step_f \<Rightarrow>
        make_range_float_with_step start_f end_f step_f inclusive)))"

definition make_range_float_from_next ::
  "(wq_value \<Rightarrow> ustr) \<Rightarrow> wq_value \<Rightarrow> wq_value \<Rightarrow> wq_value \<Rightarrow> bool \<Rightarrow> wq_error + wq_value" where
  "make_range_float_from_next ex start nxt finish inclusive =
     (case numeric_as_f64 ex start ''start'' of Inl e \<Rightarrow> Inl e | Inr start_f \<Rightarrow>
     (case numeric_as_f64 ex nxt ''next'' of Inl e \<Rightarrow> Inl e | Inr next_f \<Rightarrow>
     (case numeric_as_f64 ex finish ''end'' of Inl e \<Rightarrow> Inl e | Inr end_f \<Rightarrow>
     (case validate_next_float start_f next_f end_f inclusive of Inl e \<Rightarrow> Inl e | Inr step_f \<Rightarrow>
        make_range_float_with_step start_f end_f step_f inclusive))))"

section \<open>Dispatch\<close>

definition char_range_kind_err :: "(wq_value \<Rightarrow> ustr) \<Rightarrow> wq_value \<Rightarrow> wq_value \<Rightarrow> wq_error" where
  "char_range_kind_err ex start finish = got2 ex start finish (domain_msg ''char range endpoints must both be chars'')"

definition make_range ::
  "(wq_value \<Rightarrow> ustr) \<Rightarrow> wq_value \<Rightarrow> wq_value \<Rightarrow> wq_value option \<Rightarrow> bool \<Rightarrow> wq_error + wq_value" where
  "make_range ex start finish step inclusive =
     (case (start, finish, step) of
        (VInt s, VInt e, None) \<Rightarrow> map_sum id VIntRange (make_range_int s e (default_int_step s e) inclusive)
      | (VInt s, VInt e, Some (VInt st)) \<Rightarrow> map_sum id VIntRange (make_range_int s e st inclusive)
      | (VChar s, VChar e, None) \<Rightarrow> make_range_char s e (default_char_step s e) inclusive
      | (VChar s, VChar e, Some (VInt st)) \<Rightarrow> make_range_char s e st inclusive
      | (VChar _, VChar _, Some other) \<Rightarrow>
          Inl (got1 ex other (attach_note (lit ''for a char range step'')
            (expected (R_Type TN_Int) (new_error W_Domain))))
      | (VChar _, _, _) \<Rightarrow> Inl (char_range_kind_err ex start finish)
      | (_, VChar _, _) \<Rightarrow> Inl (char_range_kind_err ex start finish)
      | _ \<Rightarrow> make_range_float ex start finish step inclusive)"

definition make_range_from_next ::
  "(wq_value \<Rightarrow> ustr) \<Rightarrow> wq_value \<Rightarrow> wq_value \<Rightarrow> wq_value \<Rightarrow> bool \<Rightarrow> wq_error + wq_value" where
  "make_range_from_next ex start nxt finish inclusive =
     (let kind_err = Inl (attach_note (got_text ex ''got end '' finish)
            (attach_note (got_text ex ''got next '' nxt)
              (attach_note (got_text ex ''got start '' start)
                (domain_msg ''char range start, next, and end must all be chars'')))) in
      case (start, nxt, finish) of
        (VInt s, VInt n, VInt e) \<Rightarrow>
          (case checked_sub n s of
             None \<Rightarrow> Inl (domain_msg ''range step too large'')
           | Some step \<Rightarrow>
               (case validate_next_int s n e inclusive of
                  Some err \<Rightarrow> Inl err
                | None \<Rightarrow> map_sum id VIntRange (make_range_int s e step inclusive)))
      | (VChar s, VChar n, VChar e) \<Rightarrow>
          (case validate_next_char s n e inclusive of
             Some err \<Rightarrow> Inl err
           | None \<Rightarrow> make_range_char s e (char_scalar_index n - char_scalar_index s) inclusive)
      | (VChar _, _, _) \<Rightarrow> kind_err
      | (_, VChar _, _) \<Rightarrow> kind_err
      | (_, _, VChar _) \<Rightarrow> kind_err
      | _ \<Rightarrow> make_range_float_from_next ex start nxt finish inclusive)"

definition range_alloc_len :: "wq_value \<Rightarrow> nat" where
  "range_alloc_len v = (case v of
     VIntRange r \<Rightarrow> ir_len r | VIntList xs \<Rightarrow> length xs | VFloatList xs \<Rightarrow> length xs
   | VBoolList xs \<Rightarrow> length xs | VList xs \<Rightarrow> length xs | VString s \<Rightarrow> length s | _ \<Rightarrow> 0)"

end
