(* ===== verification/Range_Facts.thy ===== *)
theory Range_Facts
  imports Range
begin

text \<open>
  Correctness of range construction: the length of an integer range, characters as contiguous
  indices, and the bounds of float ranges.
\<close>

section \<open>Integer ranges are exact\<close>

definition points_away :: "i64 \<Rightarrow> i64 \<Rightarrow> i64 \<Rightarrow> bool" where
  "points_away start finish step \<longleftrightarrow>
     sint start < sint finish \<and> sint step < 0 \<or> sint finish < sint start \<and> 0 < sint step"

definition before_end :: "i64 \<Rightarrow> i64 \<Rightarrow> bool \<Rightarrow> int \<Rightarrow> bool" where
  "before_end finish step inclusive x \<longleftrightarrow>
     (if 0 < sint step then (if inclusive then x \<le> sint finish else x < sint finish)
      else if inclusive then sint finish \<le> x else sint finish < x)"

definition span_len :: "nat \<Rightarrow> nat \<Rightarrow> bool \<Rightarrow> nat" where
  "span_len d s inclusive = (if inclusive \<or> d mod s \<noteq> 0 then d div s + 1 else d div s)"

lemma span_len_iff:
  assumes s: "0 < s"
  shows "i < span_len d s inclusive \<longleftrightarrow> (if inclusive then i * s \<le> d else i * s < d)"
proof -
  have le: "i \<le> d div s \<longleftrightarrow> i * s \<le> d" using s by (rule less_eq_div_iff_mult_less_eq)
  have lt: "i < d div s \<longleftrightarrow> i * s < d" if "d mod s = 0"
    using s that mult_div_mod_eq [of s d] by (metis add.right_neutral mult.commute mult_less_cancel2)
  have "i * s \<noteq> d" if "d mod s \<noteq> 0" using that by auto
  then show ?thesis using le lt by (auto simp: span_len_def less_Suc_eq_le)
qed

lemma span_le: "span_len d s inclusive \<le> d div s + 1"
  by (simp add: span_len_def)

lemma sint_abs_less: "nat \<bar>sint (a :: i64) - sint (b :: i64)\<bar> < 2 ^ 64"
  using sint_range [of a] sint_range [of b] by (simp add: nat_less_iff abs_if)

lemma unat_of_nonneg: "0 \<le> n \<Longrightarrow> nat n < 2 ^ 64 \<Longrightarrow> unat (word_of_int n :: u64) = nat n"
  by (simp add: unsigned_of_int take_bit_int_eq_self nat_less_iff)

lemma unat_abs_diff: "unat (abs_diff a b) = nat \<bar>sint a - sint b\<bar>"
  unfolding abs_diff_def by (intro unat_of_nonneg sint_abs_less) simp

lemma unat_unsigned_abs: "unat (unsigned_abs a) = nat \<bar>sint a\<bar>"
  unfolding unsigned_abs_def using sint_abs_less [of a 0] by (intro unat_of_nonneg) simp_all

lemma unat_positive: "0 < sint (a :: i64) \<Longrightarrow> unat a = nat (sint a)"
  using unat_of_nonneg [of "sint a"] sint_range [of a] by (simp add: nat_less_iff)

lemma steps_len_span:
  assumes "step \<noteq> 0"
  shows "range_len_to_usize (steps_len diff step inclusive) =
    (let n = span_len (unat diff) (unat step) inclusive in
     if n < 2 ^ 64 then Inr n else Inl (domain_msg ''range too large''))"
proof -
  have small: "unat (diff div step) < 2 ^ 64" using unsigned_less [of "diff div step"] by simp
  have "unat (diff div step + 1) = unat diff div unat step + 1" if "unat diff div unat step + 1 < 2 ^ 64"
    using that by (simp add: unat_word_ariths unat_div)
  then show ?thesis using small
    by (auto simp: range_len_to_usize_def steps_len_def span_len_def Let_def checked_add_u64_def unat_div
        word_eq_iff_unsigned [where 'a = nat] unat_mod)
qed


text \<open>The length of a range whose step points to its end.\<close>

lemma validate_step_int_iff:
  "validate_step_int s e st = None \<longleftrightarrow> st \<noteq> 0 \<and> \<not> points_away s e st"
  by (auto simp: validate_step_int_def points_away_def word_sless_alt)

lemma make_range_int_len:
  assumes "validate_step_int s e st = None"
  shows "make_range_int s e st inclusive =
    (let n = span_len (nat \<bar>sint e - sint s\<bar>) (nat \<bar>sint st\<bar>) inclusive in
     if n < 2 ^ 64 then Inr (new_int_range s st n) else Inl (domain_msg ''range too large''))"
proof (cases "s = e")
  case True
  then show ?thesis using assms by (simp add: make_range_int_def span_len_def Let_def)
next
  case False
  have st: "st \<noteq> 0" using assms by (simp add: validate_step_int_iff)
  then have "sint st \<noteq> 0" by (simp add: signed_eq_0_iff)
  then have st0: "unsigned_abs st \<noteq> 0" using unat_unsigned_abs [of st] by auto
  show ?thesis
  proof (cases "0 <s st")
    case True
    then have "unat st = nat \<bar>sint st\<bar>" using unat_positive [of st] by (simp add: word_sless_alt)
    then show ?thesis using assms False True
      by (simp add: make_range_int_def steps_len_span [OF st] unat_abs_diff Let_def)
  next
    case neg: False
    then show ?thesis using assms False
      by (simp add: make_range_int_def steps_len_span [OF st0] unat_abs_diff unat_unsigned_abs Let_def abs_minus_commute)
  qed
qed

lemma scaled_abs: "int i * \<bar>x\<bar> = \<bar>int i * x\<bar>"
  by (simp add: abs_mult)

lemma within_iff:
  assumes "st \<noteq> 0" "\<not> points_away s e st"
  shows "i < span_len (nat \<bar>sint e - sint s\<bar>) (nat \<bar>sint st\<bar>) inclusive \<longleftrightarrow>
    before_end e st inclusive (sint s + int i * sint st)"
proof -
  have st0: "sint st \<noteq> 0" using assms(1) by (metis signed_eq_0_iff)
  have le: "i * nat \<bar>sint st\<bar> \<le> nat \<bar>sint e - sint s\<bar> \<longleftrightarrow> int i * \<bar>sint st\<bar> \<le> \<bar>sint e - sint s\<bar>"
    and lt: "i * nat \<bar>sint st\<bar> < nat \<bar>sint e - sint s\<bar> \<longleftrightarrow> int i * \<bar>sint st\<bar> < \<bar>sint e - sint s\<bar>"
    by (simp_all flip: of_nat_le_iff [where 'a = int] of_nat_less_iff [where 'a = int])
  have pos: "0 \<le> int i * sint st" if "0 < sint st" using that by simp
  have neg: "int i * sint st \<le> 0" if "sint st < 0" using that by (simp add: mult_nonneg_nonpos)
  have "0 < nat \<bar>sint st\<bar>" using st0 by simp
  from span_len_iff [OF this, of i "nat \<bar>sint e - sint s\<bar>" inclusive] show ?thesis
    using assms(2) st0 pos neg unfolding le lt before_end_def points_away_def
    by (cases "0 < sint st"; cases inclusive) (auto simp: abs_if)
qed

lemma span_too_large:
  fixes s e st :: i64
  assumes "st \<noteq> 0" "2 ^ 64 \<le> span_len (nat \<bar>sint e - sint s\<bar>) (nat \<bar>sint st\<bar>) inclusive"
  shows "inclusive \<and> \<bar>sint st\<bar> = 1 \<and> \<bar>sint e - sint s\<bar> = 2 ^ 64 - 1"
proof -
  let ?d = "nat \<bar>sint e - sint s\<bar>" and ?s = "nat \<bar>sint st\<bar>"
  have d: "?d < 2 ^ 64" by (rule sint_abs_less)
  have s: "0 < ?s" using assms(1) by (simp add: signed_eq_0_iff)
  have "2 ^ 64 - 1 < span_len ?d ?s inclusive" using assms(2) by simp
  then have big: "if inclusive then (2 ^ 64 - 1) * ?s \<le> ?d else (2 ^ 64 - 1) * ?s < ?d"
    by (simp only: span_len_iff [OF s])
  have "(2 ^ 64 - 1) * 1 \<le> (2 ^ 64 - 1) * ?s" using s by (intro mult_left_mono) auto
  with big d have "inclusive" "?d = 2 ^ 64 - 1" "(2 ^ 64 - 1) * ?s \<le> 2 ^ 64 - 1"
    by (auto split: if_splits)
  then have "?s \<le> 1" by simp
  then show ?thesis using s \<open>inclusive\<close> \<open>?d = 2 ^ 64 - 1\<close> by auto
qed

lemma validate_step_int_error:
  "validate_step_int s e st = Some err \<longleftrightarrow>
     err = domain_msg ''range step cannot be zero'' \<and> st = 0 \<or>
     err = domain_msg ''range step points away from end'' \<and> points_away s e st"
  by (auto simp: validate_step_int_def points_away_def word_sless_alt)

lemma make_range_int_spec:
  fixes s e st :: i64
  shows "case make_range_int s e st inclusive of
     Inl err \<Rightarrow>
       err = domain_msg ''range step cannot be zero'' \<and> st = 0 \<or>
       err = domain_msg ''range step points away from end'' \<and> points_away s e st \<or>
       err = domain_msg ''range too large'' \<and> inclusive \<and> \<bar>sint st\<bar> = 1 \<and> \<bar>sint e - sint s\<bar> = 2 ^ 64 - 1
   | Inr r \<Rightarrow>
       st \<noteq> 0 \<and> \<not> points_away s e st \<and> range_ok r \<and> ir_start r = s \<and> ir_step r = st \<and>
       (\<forall>i. (i < ir_len r) = before_end e st inclusive (elem r i))"
proof (cases "validate_step_int s e st")
  case (Some err)
  then show ?thesis using validate_step_int_error [of s e st err] by (auto simp: make_range_int_def)
next
  case None
  then have v: "st \<noteq> 0" "\<not> points_away s e st" by (simp_all add: validate_step_int_iff)
  let ?n = "span_len (nat \<bar>sint e - sint s\<bar>) (nat \<bar>sint st\<bar>) inclusive"
  let ?r = "new_int_range s st ?n"
  have len: "(i < ir_len ?r) = before_end e st inclusive (elem ?r i)" for i
    using within_iff [OF v] by (simp add: new_int_range_def elem_def)
  have "fits_i64 (elem ?r (?n - 1))" if "0 < ?n"
  proof -
    define x where "x = elem ?r (?n - 1)"
    have "before_end e st inclusive x" using len [of "?n - 1"] that by (simp add: new_int_range_def x_def)
    moreover have "sint s \<le> x" if "0 < sint st" using that by (simp add: x_def elem_def new_int_range_def)
    moreover have "x \<le> sint s" if "sint st \<le> 0"
      using that by (simp add: x_def elem_def new_int_range_def mult_nonneg_nonpos)
    ultimately have "sint s \<le> x \<and> x \<le> sint e \<or> sint e \<le> x \<and> x \<le> sint s"
      unfolding before_end_def by (cases "0 < sint st"; cases inclusive; simp)
    then have "fits_i64 x" using fits_between [OF fits_sint [of s] fits_sint [of e], of x]
        fits_between [OF fits_sint [of e] fits_sint [of s], of x] by blast
    then show ?thesis by (simp add: x_def)
  qed
  then have "range_ok ?r" using v(1) by (simp add: range_ok_def new_int_range_def)
  then show ?thesis
    using make_range_int_len [OF None, of inclusive] v len span_too_large [OF v(1), of e s inclusive]
    by (cases "?n < 2 ^ 64") (simp_all add: Let_def new_int_range_def not_less)
qed

text \<open>C19: \<open>make_range_int\<close> is exact. It fails exactly when the step is zero, points away from the
  end, or the range would have two to the 64 elements; otherwise the elements of the virtual range
  are machine integers, and the number of elements is the number of multiples of the step from the
  start that have not passed the end.\<close>

theorem make_range_int_exact:
  "case make_range_int s e st inclusive of
     Inl err \<Rightarrow>
       err = domain_msg ''range step cannot be zero'' \<and> st = 0 \<or>
       err = domain_msg ''range step points away from end'' \<and> points_away s e st \<or>
       err = domain_msg ''range too large'' \<and> inclusive \<and> \<bar>sint st\<bar> = 1 \<and> \<bar>sint e - sint s\<bar> = 2 ^ 64 - 1
   | Inr r \<Rightarrow>
       st \<noteq> 0 \<and> \<not> points_away s e st \<and> range_ok r \<and> ir_start r = s \<and> ir_step r = st \<and>
       (\<forall>i. (i < ir_len r) = before_end e st inclusive (elem r i))"
  by (rule make_range_int_spec)

section \<open>Characters as contiguous indices\<close>

lemma sint_of_nat: "int n < 2 ^ 63 \<Longrightarrow> sint (of_nat n :: i64) = int n"
  using sint_of_int [of "int n"] by (simp add: fits_i64_def)

lemma scalar_index:
  assumes "is_scalar c"
  shows "sint (char_scalar_index c) = int (if 0xDFFF < c then c - 0x800 else c)"
    and "0 \<le> sint (char_scalar_index c)" and "sint (char_scalar_index c) \<le> 0x10F7FF"
  using assms sint_of_nat [of "c - 0x800"] sint_of_nat [of c]
  by (auto simp: char_scalar_index_def is_scalar_def simp del: of_nat_diff)

lemma char_of_index: "is_scalar c \<Longrightarrow> char_from_scalar_index (char_scalar_index c) = Inr c"
  using scalar_index [of c] by (auto simp: char_from_scalar_index_def is_scalar_def Let_def)

lemma index_of_char:
  assumes "char_from_scalar_index i = Inr c"
  shows "is_scalar c \<and> char_scalar_index c = i"
proof -
  from assms have c: "0 \<le> sint i" "sint i \<le> 0x10F7FF" "is_scalar c"
    "c = (if 0xD800 \<le> nat (sint i) then nat (sint i) + 0x800 else nat (sint i))"
    by (auto simp: char_from_scalar_index_def Let_def split: if_splits)
  then have "sint (char_scalar_index c) = sint i"
    using scalar_index(1) [OF c(3)] by (auto simp: is_scalar_def split: if_splits)
  then show ?thesis using c(3) by (metis word_of_sint)
qed

text \<open>Characters and their indices are in one-to-one correspondence: the indices run from 0 to
  1112063, without the gap of the surrogates, and each direction undoes the other.\<close>

theorem char_index_round_trip:
  "{c. is_scalar c} = {c. \<exists>i. char_from_scalar_index i = Inr c} \<and>
   (char_from_scalar_index i = Inr c) = (is_scalar c \<and> char_scalar_index c = i)"
  using char_of_index index_of_char by blast

lemma char_from_index:
  assumes "0 \<le> sint i" "sint i \<le> 0x10F7FF"
  shows "\<exists>c. char_from_scalar_index i = Inr c \<and> is_scalar c \<and> char_scalar_index c = i"
proof -
  have "\<exists>c. char_from_scalar_index i = Inr c"
    using assms by (auto simp: char_from_scalar_index_def is_scalar_def Let_def)
  then show ?thesis using index_of_char by blast
qed

lemma push_chars_all:
  assumes "list_all (\<lambda>i. 0 \<le> sint i \<and> sint i \<le> 0x10F7FF) is"
  shows "\<exists>cs. push_chars is out = Inr (out @ cs) \<and> list_all is_scalar cs \<and> map char_scalar_index cs = is"
  using assms
proof (induction "is" arbitrary: out)
  case (Cons i "is")
  then obtain c where c: "char_from_scalar_index i = Inr c" "is_scalar c" "char_scalar_index c = i"
    using char_from_index [of i] by auto
  then show ?case using Cons(1) [of "out @ [c]"] Cons(2) by (force intro: exI [of _ "c # _"])
qed simp

text \<open>The elements of a range lie between its end points.\<close>

lemma elems_between:
  assumes "make_range_int s e st inclusive = Inr r" "x \<in> set (ir_elems r)"
  shows "sint s \<le> sint x \<and> sint x \<le> sint e \<or> sint e \<le> sint x \<and> sint x \<le> sint s"
proof -
  have r: "range_ok r" "ir_start r = s" "ir_step r = st"
      "\<And>i. i < ir_len r \<longleftrightarrow> before_end e st inclusive (elem r i)"
    using make_range_int_spec [where s = s and e = e and st = st and inclusive = inclusive] assms(1) by simp_all
  obtain i where i: "i < ir_len r" "x = word_of_int (elem r i)"
    using assms(2) by (auto simp: ir_elems_def)
  then have x: "sint x = elem r i" using elem_fits [OF r(1)] sint_of_int by simp
  have "sint s \<le> elem r i" if "0 < sint st" using that by (simp add: elem_def r)
  moreover have "elem r i \<le> sint s" if "sint st \<le> 0" using that by (simp add: elem_def r mult_nonneg_nonpos)
  ultimately show ?thesis using i(1) r(4) [of i] unfolding x before_end_def
    by (cases "0 < sint st"; cases inclusive; simp)
qed

text \<open>A character range never leaves the Unicode scalar values and never grows too long: it
  fails exactly when its step is zero or points away from the end, and otherwise its characters
  are the images of the integer range over the indices of its end points.\<close>

theorem char_range_exact:
  assumes "is_scalar s" "is_scalar e"
  shows "case make_range_char s e st inclusive of
     Inl err \<Rightarrow>
       err = domain_msg ''range step cannot be zero'' \<and> st = 0 \<or>
       err = domain_msg ''range step points away from end'' \<and>
         points_away (char_scalar_index s) (char_scalar_index e) st
   | Inr v \<Rightarrow> \<exists>cs r. v = VString cs \<and> list_all is_scalar cs \<and>
       make_range_int (char_scalar_index s) (char_scalar_index e) st inclusive = Inr r \<and>
       map char_scalar_index cs = ir_elems r"
proof -
  let ?s = "char_scalar_index s" and ?e = "char_scalar_index e"
  note bounds = scalar_index(2,3) [OF assms(1)] scalar_index(2,3) [OF assms(2)]
  show ?thesis
  proof (cases "validate_step_int ?s ?e st")
    case (Some err)
    then show ?thesis using validate_step_int_error [of ?s ?e st err]
      by (auto simp: make_range_char_def Let_def)
  next
    case None
    obtain r where r: "make_range_int ?s ?e st inclusive = Inr r"
    proof (cases "make_range_int ?s ?e st inclusive")
      case (Inl err)
      then have False using make_range_int_spec [where s = "?s" and e = "?e" and st = st and inclusive = inclusive] None bounds
        by (auto simp: validate_step_int_iff domain_msg_def abs_if split: if_splits)
      then show ?thesis ..
    qed
    have ok: "range_ok r" using make_range_int_spec [where s = "?s" and e = "?e" and st = st and inclusive = inclusive] r by simp
    have "list_all (\<lambda>i. 0 \<le> sint i \<and> sint i \<le> 0x10F7FF) (ir_elems r)"
      unfolding list_all_iff using elems_between [OF r] bounds by fastforce
    from push_chars_all [OF this, of "[]"] obtain cs where
      "push_chars (ir_elems r) [] = Inr cs" "list_all is_scalar cs" "map char_scalar_index cs = ir_elems r"
      by auto
    then show ?thesis using None r by (auto simp: make_range_char_def ir_to_vec_elems [OF ok])
  qed
qed

theorem char_range_exact_witness:
  "\<exists>r. make_range_int (char_scalar_index 97) (char_scalar_index 100) 1 False = Inr r"
  using char_range_exact [of 97 100 1 False]
  by (auto simp: is_scalar_def points_away_def char_scalar_index_def split: sum.splits)

section \<open>Three-point ranges\<close>

lemma map_sum_Inr: "map_sum f g x = Inr v \<longleftrightarrow> (\<exists>y. x = Inr y \<and> v = g y)"
  by (cases x) auto

text \<open>In a range written with its first, next and end points, the point written second is the
  second element.\<close>

theorem range_from_next_second:
  assumes "make_range_from_next ex (VInt s) (VInt n) (VInt e) inclusive = Inr v"
  shows "\<exists>r. v = VIntRange r \<and> range_ok r \<and> 2 \<le> ir_len r \<and> ir_get r 0 = Some s \<and> ir_get r 1 = Some n"
proof -
  obtain st r where st: "checked_sub n s = Some st" and v: "validate_next_int s n e inclusive = None"
    and r: "make_range_int s e st inclusive = Inr r" "v = VIntRange r"
    using assms by (auto simp: make_range_from_next_def Let_def map_sum_Inr split: option.splits sum.splits)
  have d: "sint st = sint n - sint s" using st by (auto simp: checked_sub_def to_i64_Some)
  have ok: "range_ok r" "ir_start r = s" "ir_step r = st"
      "\<And>i. i < ir_len r \<longleftrightarrow> before_end e st inclusive (elem r i)" "st \<noteq> 0"
    using make_range_int_spec [where s = s and e = e and st = st and inclusive = inclusive] r(1) by simp_all
  have "before_end e st inclusive (sint n)"
    using v st d by (auto simp: validate_next_int_def before_end_def word_sless_alt word_sle_eq Let_def
        split: option.splits if_splits)
  moreover have "elem r 1 = sint n" by (simp add: elem_def ok d)
  ultimately have len: "1 < ir_len r" using ok(4) [of 1] by simp
  then show ?thesis using r(2) ok(1,2) \<open>elem r 1 = sint n\<close>
    by (auto simp: ir_get_elem elem_def)
qed

theorem range_from_next_second_witness:
  "\<exists>r. make_range_from_next (\<lambda>v. []) (VInt 1) (VInt 3) (VInt 10) False = Inr (VIntRange r) \<and>
     2 \<le> ir_len r \<and> ir_get r 1 = Some 3"
proof -
  have "make_range_from_next (\<lambda>v. []) (VInt 1) (VInt 3) (VInt 10) False = Inr (VIntRange (new_int_range 1 2 5))"
    by (simp add: make_range_from_next_def checked_sub_def to_i64_def fits_i64_def validate_next_int_def
        validate_step_int_def make_range_int_def word_sless_alt word_sle_eq steps_len_def abs_diff_def
        range_len_to_usize_def checked_add_u64_def Let_def)
  with range_from_next_second [OF this] show ?thesis by auto
qed

section \<open>Float ranges\<close>

definition float_passed :: "f64 \<Rightarrow> f64 \<Rightarrow> bool \<Rightarrow> f64 \<Rightarrow> bool" where
  "float_passed finish step inclusive x \<longleftrightarrow>
     (if f64_lt f64_zero step then (if inclusive then f64_lt finish x else f64_le finish x)
      else if inclusive then f64_lt x finish else f64_le x finish)"

lemma float_items_spec:
  "let xs = float_items stop cur i n in length xs \<le> n \<and> (\<forall>k<length xs. xs ! k = cur (i + k) \<and> \<not> stop (cur (i + k))) \<and>
     (length xs = n \<or> stop (cur (i + length xs)))"
proof (induction n arbitrary: i)
  case (Suc n)
  show ?case using Suc [of "Suc i"] by (auto simp: Let_def nth_Cons split: nat.splits)
qed simp

text \<open>C20: a float range holds the points \<open>start + i * step\<close> that precede the first one past its end,
  but never more than ten million of them: where the ten millionth point is still inside, the
  range is cut off without an error.\<close>

theorem float_range_points:
  assumes "make_range_float_with_step s e st inclusive = Inr v"
  shows "\<exists>xs. v = VFloatList xs \<and> length xs \<le> 10000000 \<and>
     (\<forall>i<length xs. xs ! i = float_cur s st i \<and> \<not> float_passed e st inclusive (float_cur s st i)) \<and>
     (length xs = 10000000 \<or> float_passed e st inclusive (float_cur s st (length xs)))"
proof -
  have "v = VFloatList (float_items (float_passed e st inclusive) (float_cur s st) 0 max_iter)"
    using assms by (cases inclusive; cases "f64_lt f64_zero st")
      (auto simp: make_range_float_with_step_def float_passed_def [abs_def] split: option.splits)
  then show ?thesis
    using float_items_spec [of "float_passed e st inclusive" "float_cur s st" 0 max_iter]
    by (auto simp: Let_def max_iter_def)
qed

theorem float_range_points_witness:
  "\<exists>xs. make_range_float_with_step 0 0 0x3FF0000000000000 False = Inr (VFloatList xs) \<and> length xs \<le> 10000000"
proof -
  have "\<exists>v. make_range_float_with_step 0 0 0x3FF0000000000000 False = Inr v"
    by (simp add: make_range_float_with_step_def validate_step_float_def f64_eq_def f64_key_def f64_sign_def
        f64_magnitude_def f64_nan_p_def f64_is_finite_def)
  with float_range_points [of 0 0 "0x3FF0000000000000" False] show ?thesis by blast
qed

end
