(* ===== verification/Rng.thy ===== *)
theory Rng
  imports Requirement Float64
begin

unbundle bit_operations_syntax

text \<open>
  The generator \<open>wq-rng-v1\<close> (\<open>wqpl/src/value/rng.rs\<close>): xoshiro256++ with SplitMix64 seeding. The
  rejection loop of \<open>below\<close> has no bound in the code; \<open>None\<close> is the loop that does not return.
  The excerpt of a value and the display of a double are arguments of the error paths.
\<close>

record rng_state =
  rs0 :: u64
  rs1 :: u64
  rs2 :: u64
  rs3 :: u64

definition splitmix64 :: "u64 \<Rightarrow> u64 \<times> u64" where
  "splitmix64 state =
     (let state = state + 0x9E3779B97F4A7C15;
          v = (state XOR drop_bit 30 state) * 0xBF58476D1CE4E5B9;
          v = (v XOR drop_bit 27 v) * 0x94D049BB133111EB
      in (v XOR drop_bit 31 v, state))"

definition from_seed :: "i64 \<Rightarrow> rng_state" where
  "from_seed seed =
     (case splitmix64 seed of (a, s) \<Rightarrow>
      case splitmix64 s of (b, s) \<Rightarrow>
      case splitmix64 s of (c, s) \<Rightarrow>
      case splitmix64 s of (d, s) \<Rightarrow> \<lparr>rs0 = a, rs1 = b, rs2 = c, rs3 = d\<rparr>)"

text \<open>\<open>u64::rotate_left\<close> for a distance below 64.\<close>

definition rotate_left :: "nat \<Rightarrow> u64 \<Rightarrow> u64" where
  "rotate_left k x = push_bit k x OR drop_bit (64 - k) x"

definition next_u64 :: "rng_state \<Rightarrow> u64 \<times> rng_state" where
  "next_u64 s =
     (let result = rotate_left 23 (rs0 s + rs3 s) + rs0 s;
          t = push_bit 17 (rs1 s);
          s2 = rs2 s XOR rs0 s;
          s3 = rs3 s XOR rs1 s;
          s1 = rs1 s XOR s2;
          s0 = rs0 s XOR s3;
          s2 = s2 XOR t;
          s3 = rotate_left 45 s3
      in (result, \<lparr>rs0 = s0, rs1 = s1, rs2 = s2, rs3 = s3\<rparr>))"

definition threshold :: "u64 \<Rightarrow> u64" where
  "threshold upper = (- upper) mod upper"

partial_function (option) below :: "u64 \<Rightarrow> rng_state \<Rightarrow> (u64 \<times> rng_state) option" where
  "below upper s =
     (let v = fst (next_u64 s); s' = snd (next_u64 s) in
      if threshold upper \<le> v then Some (v mod upper, s') else below upper s')"

definition rng_int_range :: "i64 \<Rightarrow> i64 \<Rightarrow> rng_state \<Rightarrow> (i64 \<times> rng_state) option" where
  "rng_int_range lower upper s =
     map_option (\<lambda>(offset, s'). (word_of_int (sint lower + uint offset), s'))
       (below (word_of_int (sint upper - sint lower)) s)"

definition next_f64 :: "rng_state \<Rightarrow> f64 \<times> rng_state" where
  "next_f64 s =
     (case next_u64 s of (v, s') \<Rightarrow> (f64_mul (f64_of_int (uint (drop_bit 11 v))) 0x3CA0000000000000, s'))"

text \<open>\<open>f64::next_down\<close>.\<close>

definition f64_next_down :: "f64 \<Rightarrow> f64" where
  "f64_next_down x =
     (if f64_nan_p x \<or> f64_inf_p x \<and> f64_sign x then x
      else if f64_magnitude x = 0 then 0x8000000000000001
      else if f64_sign x then x + 1 else x - 1)"

definition float_range :: "f64 \<Rightarrow> f64 \<Rightarrow> rng_state \<Rightarrow> f64 \<times> rng_state" where
  "float_range lower upper s =
     (case next_f64 s of (u01, s') \<Rightarrow>
        let width = f64_sub upper lower;
            sampled = (if f64_is_finite width then f64_add lower (f64_mul width u01)
                       else f64_add (f64_mul lower (f64_sub 0x3FF0000000000000 u01)) (f64_mul upper u01))
        in (if f64_le upper sampled then f64_next_down upper
            else if f64_lt sampled lower then lower else sampled, s'))"

section \<open>Drawing\<close>

definition signed_64_bit_int :: "wq_value \<Rightarrow> i64 option" where
  "signed_64_bit_int v = (case v of VInt i \<Rightarrow> Some i | VBigInt n \<Rightarrow> to_i64 n | _ \<Rightarrow> None)"

definition signed_64_bit_int_requirement :: requirement where
  "signed_64_bit_int_requirement =
     R_Phrase (lit ''int in the signed 64-bit range'') (lit ''ints in the signed 64-bit range'')"

definition positive_random_bound_requirement :: requirement where
  "positive_random_bound_requirement =
     one_of [positive signed_64_bit_int_requirement, positive (finite_req (R_Type TN_Float))]"

definition random_bound_requirement :: requirement where
  "random_bound_requirement = one_of [signed_64_bit_int_requirement, finite_req (R_Type TN_Float)]"

definition finite_bound :: "wq_value \<Rightarrow> f64 option" where
  "finite_bound v =
     (case signed_64_bit_int v of
        Some i \<Rightarrow> Some (f64_of_int (sint i))
      | None \<Rightarrow> (case v of VFloat x \<Rightarrow> if f64_is_finite x then Some x else None | _ \<Rightarrow> None))"

definition draw1 :: "(wq_value \<Rightarrow> ustr) \<Rightarrow> ustr \<Rightarrow> wq_value \<Rightarrow> rng_state \<Rightarrow> ((wq_error + wq_value) \<times> rng_state) option" where
  "draw1 ex source upper s =
     (let err = got1 ex upper (at_arg 0 (expected positive_random_bound_requirement
                  (with_src source (new_error W_Domain)))) in
      case (case signed_64_bit_int upper of Some u \<Rightarrow> if 0 <s u then Some u else None | None \<Rightarrow> None) of
        Some u \<Rightarrow> map_option (\<lambda>(v, s'). (Inr (VInt v), s')) (rng_int_range 0 u s)
      | None \<Rightarrow>
          (case upper of
             VFloat u \<Rightarrow>
               if f64_is_finite u \<and> f64_lt 0 u
               then (case float_range 0 u s of (x, s') \<Rightarrow> Some (Inr (VFloat x), s'))
               else Some (Inl err, s)
           | _ \<Rightarrow> Some (Inl err, s)))"

definition draw2 ::
  "(wq_value \<Rightarrow> ustr) \<Rightarrow> (f64 \<Rightarrow> ustr) \<Rightarrow> ustr \<Rightarrow> wq_value \<Rightarrow> wq_value \<Rightarrow> rng_state \<Rightarrow>
   ((wq_error + wq_value) \<times> rng_state) option" where
  "draw2 ex show_f64 source lower upper s =
     (let err = (\<lambda>i v. got1 ex v (at_arg i (expected random_bound_requirement
                  (with_src source (new_error W_Domain))))) in
      case (case (signed_64_bit_int lower, signed_64_bit_int upper) of
              (Some l, Some u) \<Rightarrow> if l <s u then Some (l, u) else None | _ \<Rightarrow> None) of
        Some (l, u) \<Rightarrow> map_option (\<lambda>(v, s'). (Inr (VInt v), s')) (rng_int_range l u s)
      | None \<Rightarrow>
          (case finite_bound lower of
             None \<Rightarrow> Some (Inl (err 0 lower), s)
           | Some l \<Rightarrow>
               (case finite_bound upper of
                  None \<Rightarrow> Some (Inl (err 1 upper), s)
                | Some u \<Rightarrow>
                    if f64_lt l u then (case float_range l u s of (x, s') \<Rightarrow> Some (Inr (VFloat x), s'))
                    else Some (Inl (attach_note (lit ''got upper bound '' @ show_f64 u)
                           (attach_note (lit ''got lower bound '' @ show_f64 l)
                             (with_msg (lit ''lower bound must be less than upper bound'')
                               (with_src source (new_error W_Domain))))), s))))"

definition draw ::
  "(wq_value \<Rightarrow> ustr) \<Rightarrow> (f64 \<Rightarrow> ustr) \<Rightarrow> ustr \<Rightarrow> ustr \<Rightarrow> wq_value list \<Rightarrow> rng_state \<Rightarrow>
   ((wq_error + wq_value) \<times> rng_state) option" where
  "draw ex show_f64 source usage args s =
     (case args of
        [] \<Rightarrow> (case next_f64 s of (x, s') \<Rightarrow> Some (Inr (VFloat x), s'))
      | [upper] \<Rightarrow> draw1 ex source upper s
      | [lower, upper] \<Rightarrow> draw2 ex show_f64 source lower upper s
      | _ \<Rightarrow> Some (Inl (attach_note usage
               (with_msg (lit ''expected 0, 1, or 2 arguments, got '' @ show_nat (length args))
                 (with_src source (new_error W_Arity)))), s))"

section \<open>The state\<close>

definition rng_zero :: "rng_state \<Rightarrow> bool" where
  "rng_zero s \<longleftrightarrow> rs0 s = 0 \<and> rs1 s = 0 \<and> rs2 s = 0 \<and> rs3 s = 0"

lemma xor_eq_zero: "x XOR y = 0 \<longleftrightarrow> x = y" for x y :: u64
  by (auto simp: bit_eq_iff bit_xor_iff)

lemma xor_drop_bit_zero:
  fixes x :: u64
  assumes "0 < k" "x XOR drop_bit k x = 0"
  shows "x = 0"
proof -
  have "x = drop_bit k x" using assms(2) by (simp add: xor_eq_zero)
  then have "unat x = unat (drop_bit k x)" by (rule arg_cong)
  then have eq: "unat x = unat x div 2 ^ k" by (simp only: unat_drop_bit_eq drop_bit_eq_div [where 'a = nat])
  have "unat x div 2 ^ k < unat x" if "0 < unat x"
    using that assms(1) one_less_power [of "2 :: nat" k] by (intro div_less_dividend) simp_all
  then have "unat x = 0" using eq by linarith
  then show ?thesis by (simp add: unat_eq_zero)
qed

lemma mix_step:
  fixes x c d :: u64
  assumes "0 < k" "c * d = 1" "(x XOR drop_bit k x) * c = 0"
  shows "x = 0"
proof -
  have "(x XOR drop_bit k x) * (c * d) = 0" using assms(3) by (simp only: mult.assoc [symmetric] mult_zero_left)
  then have "x XOR drop_bit k x = 0" unfolding assms(2) by (simp only: mult_1_right)
  then show ?thesis by (rule xor_drop_bit_zero [OF assms(1)])
qed

lemma mix_inverses:
  "(0xBF58476D1CE4E5B9 :: u64) * 0x96DE1B173F119089 = 1" "(0x94D049BB133111EB :: u64) * 0x319642B2D24D8EC3 = 1"
  by simp_all

lemma mix_zero:
  assumes "fst (splitmix64 s) = 0"
  shows "s + 0x9E3779B97F4A7C15 = 0"
proof -
  define a where "a = s + 0x9E3779B97F4A7C15"
  define b where "b = (a XOR drop_bit 30 a) * 0xBF58476D1CE4E5B9"
  define c where "c = (b XOR drop_bit 27 b) * 0x94D049BB133111EB"
  have "c XOR drop_bit 31 c = 0" using assms unfolding splitmix64_def Let_def fst_conv a_def b_def c_def .
  then have "c = 0" by (rule xor_drop_bit_zero [rotated]) simp
  then have "b = 0" unfolding c_def by (rule mix_step [OF _ mix_inverses(2)  , rotated]) simp
  then have "a = 0" unfolding b_def by (rule mix_step [OF _ mix_inverses(1), rotated]) simp
  then show ?thesis by (simp only: a_def)
qed

lemma seed_not_zero: "\<not> rng_zero (from_seed seed)"
proof
  assume "rng_zero (from_seed seed)"
  then have "fst (splitmix64 seed) = 0" "fst (splitmix64 (snd (splitmix64 seed))) = 0"
    by (simp_all add: rng_zero_def from_seed_def split: prod.splits)
  from this [THEN mix_zero] show False by (simp add: splitmix64_def Let_def)
qed

lemma rotate_left_zero:
  assumes "0 < k" "k < 64" "rotate_left k x = 0"
  shows "x = 0"
proof (rule bit_word_eqI)
  fix n assume n: "n < LENGTH(64)"
  have z: "\<not> bit (push_bit k x) m" "\<not> bit (drop_bit (64 - k) x) m" for m
    using assms(3) unfolding rotate_left_def by (metis bit_0_eq bot_apply bot_bool_def bit_or_iff)+
  show "bit x n = bit 0 n"
  proof (cases "n < 64 - k")
    case True
    then show ?thesis using z(1) [of "n + k"] by (simp add: bit_push_bit_iff)
  next
    case False
    then show ?thesis using z(2) [of "n - (64 - k)"] by (simp add: bit_drop_bit_eq)
  qed
qed

lemma shift_self_zero:
  fixes x :: u64
  assumes "x = push_bit 17 x"
  shows "x = 0"
proof -
  have "x = push_bit 17 (push_bit 17 (push_bit 17 (push_bit 17 x)))" using assms by metis
  also have "\<dots> = push_bit 68 x" by simp
  also have "\<dots> = 0" by (rule bit_word_eqI) (simp add: bit_push_bit_iff)
  finally show ?thesis .
qed

lemma next_not_zero:
  assumes "\<not> rng_zero s"
  shows "\<not> rng_zero (snd (next_u64 s))"
proof
  assume "rng_zero (snd (next_u64 s))"
  then have z: "rs0 s XOR (rs3 s XOR rs1 s) = 0" "rs1 s XOR (rs2 s XOR rs0 s) = 0"
      "(rs2 s XOR rs0 s) XOR push_bit 17 (rs1 s) = 0" "rotate_left 45 (rs3 s XOR rs1 s) = 0"
    by (simp_all add: rng_zero_def next_u64_def Let_def)
  have 31: "rs3 s = rs1 s" using rotate_left_zero [OF _ _ z(4)] by (simp add: xor_eq_zero)
  then have 0: "rs0 s = 0" using z(1) by simp
  then have "rs1 s = rs2 s" using z(2) by (simp add: xor_eq_zero)
  moreover have "rs2 s = push_bit 17 (rs1 s)" using z(3) 0 by (simp add: xor_eq_zero)
  ultimately have "rs1 s = 0" using shift_self_zero by metis
  then show False using assms 0 31 \<open>rs1 s = rs2 s\<close> by (simp add: rng_zero_def)
qed

text \<open>C28: the generator never reaches its only bad state. Whatever the seed and however many numbers
  have been drawn, the four words of the state are not all zero, in which case every output would
  be zero.\<close>

theorem rng_never_zero:
  "\<not> rng_zero (((\<lambda>s. snd (next_u64 s)) ^^ n) (from_seed seed)) \<and>
   (rng_zero s \<longrightarrow> next_u64 s = (0, s))"
proof
  show "\<not> rng_zero (((\<lambda>s. snd (next_u64 s)) ^^ n) (from_seed seed))"
    by (induction n) (simp_all add: seed_not_zero next_not_zero)
  show "rng_zero s \<longrightarrow> next_u64 s = (0, s)"
    by (cases s) (simp add: rng_zero_def next_u64_def rotate_left_def)
qed

theorem rng_never_zero_witness:
  "next_u64 \<lparr>rs0 = 0, rs1 = 0, rs2 = 0, rs3 = 0\<rparr> = (0, \<lparr>rs0 = 0, rs1 = 0, rs2 = 0, rs3 = 0\<rparr>)"
  using rng_never_zero [of 0 0 "\<lparr>rs0 = 0, rs1 = 0, rs2 = 0, rs3 = 0\<rparr>"] by (simp add: rng_zero_def)

fun outputs :: "nat \<Rightarrow> rng_state \<Rightarrow> u64 list" where
  "outputs 0 s = []"
| "outputs (Suc n) s = (case next_u64 s of (v, s') \<Rightarrow> v # outputs n s')"

lemma outputs_numeral [simp]:
  "outputs (numeral n) s = (case next_u64 s of (v, s') \<Rightarrow> v # outputs (pred_numeral n) s')"
  by (simp add: numeral_eq_Suc)

lemma seed_42: "from_seed 42 = \<lparr>rs0 = 13679457532755275413, rs1 = 2949826092126892291, rs2 = 5139283748462763858, rs3 = 6349198060258255764\<rparr>"
  by (simp add: from_seed_def splitmix64_def Let_def)

lemma stream_of_seed_42:
  "outputs 4 (from_seed 42) =
     [15021278609987233951, 5881210131331364753, 18149643915985481100, 12933668939759105464]"
  by (simp add: seed_42 next_u64_def Let_def rotate_left_def)

section \<open>Numbers in a range\<close>

definition state_at :: "nat \<Rightarrow> rng_state \<Rightarrow> rng_state" where
  "state_at n s = ((\<lambda>s. snd (next_u64 s)) ^^ n) s"

definition accepted :: "u64 \<Rightarrow> rng_state \<Rightarrow> nat \<Rightarrow> bool" where
  "accepted upper s n \<longleftrightarrow> threshold upper \<le> fst (next_u64 (state_at n s))"

lemma state_at_Suc: "state_at (Suc n) s = state_at n (snd (next_u64 s))"
  by (simp add: state_at_def funpow_swap1 [of "\<lambda>s. snd (next_u64 s)"])

lemma accepted_shift: "accepted upper (snd (next_u64 s)) n = accepted upper s (Suc n)"
  by (simp add: accepted_def state_at_Suc)

lemma below_accepted:
  assumes "accepted upper s n" "\<forall>m<n. \<not> accepted upper s m"
  shows "below upper s = Some (fst (next_u64 (state_at n s)) mod upper, state_at (Suc n) s)"
  using assms
proof (induction n arbitrary: s)
  case 0
  then show ?case by (subst below.simps) (simp add: accepted_def state_at_def Let_def)
next
  case (Suc n)
  then have "\<not> accepted upper s 0" by blast
  then have "below upper s = below upper (snd (next_u64 s))"
    by (subst below.simps) (simp add: accepted_def state_at_def Let_def)
  also have "\<dots> = Some (fst (next_u64 (state_at n (snd (next_u64 s)))) mod upper, state_at (Suc n) (snd (next_u64 s)))"
    using Suc(2,3) by (intro Suc.IH) (auto simp: accepted_shift)
  finally show ?case by (simp add: state_at_Suc)
qed

lemma below_returns:
  assumes "below upper s = Some r"
  shows "\<exists>n. accepted upper s n"
  using assms
proof (rule below.raw_induct [of "\<lambda>upper s r. \<exists>n. accepted upper s n", rotated])
  fix rec upper s r
  assume IH: "\<And>upper s r. rec upper s = Some r \<Longrightarrow> \<exists>n. accepted upper s n"
    and run: "(let v = fst (next_u64 s); s' = snd (next_u64 s) in
        if threshold upper \<le> v then Some (v mod upper, s') else rec upper s') = Some r"
  show "\<exists>n. accepted upper s n"
  proof (cases "accepted upper s 0")
    case False
    then have "rec upper (snd (next_u64 s)) = Some r"
      using run by (simp add: Let_def accepted_def state_at_def)
    then show ?thesis using IH accepted_shift by blast
  qed blast
qed

lemma below_least:
  assumes "\<exists>n. accepted upper s n"
  shows "below upper s = Some (fst (next_u64 (state_at (LEAST n. accepted upper s n) s)) mod upper,
      state_at (Suc (LEAST n. accepted upper s n)) s)"
  by (rule below_accepted [OF LeastI_ex [OF assms]]) (blast dest: not_less_Least)

text \<open>The rejection loop behind bounded random numbers returns exactly when the stream of the
  generator has an acceptable number, and then delivers the first one, reduced, and the state
  right after it.\<close>

theorem below_first_accepted:
  "below upper s =
     (if \<exists>n. accepted upper s n
      then let n = (LEAST n. accepted upper s n)
           in Some (fst (next_u64 (state_at n s)) mod upper, state_at (Suc n) s)
      else None)"
proof (cases "\<exists>n. accepted upper s n")
  case True
  then show ?thesis by (simp only: below_least Let_def if_True)
next
  case False
  then show ?thesis using below_returns [of upper s] by (cases "below upper s") fastforce+
qed

section \<open>No bias\<close>

lemma unat_threshold:
  assumes "upper \<noteq> 0"
  shows "unat (threshold upper) = 2 ^ 64 mod unat upper"
proof -
  have "unat (- upper) = 2 ^ 64 - unat upper"
    using assms unat_sub_if' [of 0 upper] by (simp add: unat_eq_zero)
  then have "unat (threshold upper) = (2 ^ 64 - unat upper) mod unat upper"
    by (simp add: threshold_def unat_mod)
  also have "\<dots> = 2 ^ 64 mod unat upper"
    using unsigned_less [of upper, where 'a = nat] by (intro le_mod_geq [symmetric]) simp
  finally show ?thesis .
qed

text \<open>Every run of \<open>u\<close> consecutive numbers has one in each residue class.\<close>

lemma one_residue:
  fixes u :: nat
  assumes "k < u"
  shows "\<exists>x. {n \<in> {a..<a + u}. n mod u = k} = {x}"
proof -
  let ?x = "a + (k + u - a mod u) mod u"
  have "?x mod u = k"
  proof -
    have "?x mod u = (a mod u + (k + u - a mod u)) mod u" by (simp add: mod_simps)
    also have "a mod u + (k + u - a mod u) = k + u"
    proof -
      have "a mod u < u" using assms by simp
      then show ?thesis by simp
    qed
    finally show ?thesis using assms by simp
  qed
  moreover have "?x < a + u" using assms by simp
  moreover have "n = m" if "n \<in> {a..<a + u}" "m \<in> {a..<a + u}" "n mod u = m mod u" for n m
  proof -
    have le: "x = y" if "x \<le> y" "y < x + u" "x mod u = y mod u" for x y
    proof -
      have "u dvd y - x" using mod_eq_dvd_iff_nat [OF that(1), of u] that(3) by metis
      moreover have "y - x < u" using that by simp
      ultimately have "y - x = 0" using nat_dvd_not_less by blast
      then show ?thesis using that(1) by simp
    qed
    show ?thesis
    proof (cases "n \<le> m")
      case True
      show ?thesis by (rule le [OF True]) (use that in auto)
    next
      case False
      have "m = n" by (rule le) (use that False in auto)
      then show ?thesis ..
    qed
  qed
  ultimately have "{n \<in> {a..<a + u}. n mod u = k} = {?x}" by auto
  then show ?thesis by blast
qed

lemma residue_count:
  fixes u :: nat
  assumes "k < u"
  shows "card {n \<in> {t..<t + q * u}. n mod u = k} = q"
proof (induction q)
  case (Suc q)
  have split: "{n \<in> {t..<t + Suc q * u}. n mod u = k} =
      {n \<in> {t..<t + q * u}. n mod u = k} \<union> {n \<in> {t + q * u..<t + q * u + u}. n mod u = k}" by auto
  obtain x where x: "{n \<in> {t + q * u..<t + q * u + u}. n mod u = k} = {x}" using one_residue [OF assms] by blast
  then have "x \<in> {n \<in> {t + q * u..<t + q * u + u}. n mod u = k}" by blast
  then have "x \<notin> {n \<in> {t..<t + q * u}. n mod u = k}" by simp
  then show ?case using Suc unfolding split x by simp
qed simp

lemma accepted_residue_count:
  assumes "k < upper"
  shows "card {v. threshold upper \<le> v \<and> v mod upper = k} = 2 ^ 64 div unat upper"
proof -
  have u: "upper \<noteq> 0" "unat k < unat upper" using assms by (auto simp: word_less_nat_alt)
  define t q where "t = 2 ^ 64 mod unat upper" and "q = 2 ^ 64 div unat upper"
  let ?V = "{v. threshold upper \<le> v \<and> v mod upper = k}"
  let ?N = "{n \<in> {t..<t + q * unat upper}. n mod unat upper = unat k}"
  have top: "t + q * unat upper = 2 ^ 64" unfolding t_def q_def by (rule mod_div_mult_eq)
  have thr: "unat (threshold upper) = t" using unat_threshold [OF u(1)] by (simp only: t_def)
  have "unat ` ?V = ?N"
  proof
    show "unat ` ?V \<subseteq> ?N"
      unfolding top using thr unsigned_less [where 'a = nat and 'b = 64]
      by (auto simp: word_le_nat_alt unat_mod)
    show "?N \<subseteq> unat ` ?V"
    proof
      fix n assume "n \<in> ?N"
      then have n: "t \<le> n" "n < 2 ^ 64" "n mod unat upper = unat k" unfolding top by simp_all
      then have self: "unat (word_of_nat n :: u64) = n" by (simp add: unsigned_of_nat take_bit_nat_eq_self)
      have "unat (word_of_nat n mod upper) = unat k" by (simp only: unat_mod self n(3))
      then have "word_of_nat n mod upper = k" by (simp only: word_eq_iff_unsigned [where 'a = nat])
      moreover have "threshold upper \<le> word_of_nat n" using n by (simp add: word_le_nat_alt self thr)
      ultimately have "word_of_nat n \<in> ?V" by blast
      then have "unat (word_of_nat n :: u64) \<in> unat ` ?V" by (rule imageI)
      then show "n \<in> unat ` ?V" by (simp only: self)
    qed
  qed
  moreover have "card (unat ` ?V) = card ?V" by (intro card_image inj_onI) (simp add: word_eq_iff_unsigned [where 'a = nat])
  ultimately show ?thesis using residue_count [OF u(2), of t q] by (simp only: q_def)
qed



text \<open>A random integer lies between its bounds, the upper one excluded, for all pairs of bounds:
  the width of the widest range and the offset never overflow.\<close>

theorem rng_int_range_bounds:
  assumes "sint lower < sint upper" "rng_int_range lower upper s = Some (v, s')"
  shows "sint lower \<le> sint v \<and> sint v < sint upper"
proof -
  have id: "uint (word_of_int x :: u64) = x" if "0 \<le> x" "x < 2 ^ 64" for x
    using that by (simp add: unsigned_of_int take_bit_int_eq_self)
  define w where "w = (word_of_int (sint upper - sint lower) :: u64)"
  obtain n where n: "below w s = Some (n, s')" "v = word_of_int (sint lower + uint n)"
    using assms(2) by (auto simp: rng_int_range_def w_def)
  have w: "uint w = sint upper - sint lower"
    unfolding w_def by (rule id) (use assms(1) sint_range [of lower] sint_range [of upper] in simp_all)
  have "n = fst (next_u64 (state_at (LEAST n. accepted w s n) s)) mod w"
    using n(1) below_returns [OF n(1)] below_least [of w s] by simp
  then have "uint n < uint w" using w assms(1) by (simp add: uint_mod)
  then have "fits_i64 (sint lower + uint n)" "sint lower + uint n < sint upper"
    using w fits_between [OF fits_sint [of lower] fits_sint [of upper], of "sint lower + uint n"] by simp_all
  moreover from this(1) have "sint v = sint lower + uint n" unfolding n(2) by (rule sint_of_int)
  ultimately show ?thesis by simp
qed

theorem rng_int_range_bounds_witness:
  "\<exists>v s'. rng_int_range 0 16 \<lparr>rs0 = 1, rs1 = 2, rs2 = 3, rs3 = 4\<rparr> = Some (v, s') \<and> 0 \<le> sint v \<and> sint v < 16"
proof -
  have "accepted 16 \<lparr>rs0 = 1, rs1 = 2, rs2 = 3, rs3 = 4\<rparr> 0" by (simp add: accepted_def threshold_def)
  from below_accepted [OF this] obtain v s' where
    "rng_int_range 0 16 \<lparr>rs0 = 1, rs1 = 2, rs2 = 3, rs3 = 4\<rparr> = Some (v, s')"
    by (simp add: rng_int_range_def)
  with rng_int_range_bounds [OF _ this] show ?thesis by simp
qed

end
