(* ===== verification/Index_Map.thy ===== *)
theory Index_Map
  imports Prelude
begin

text \<open>
  The insertion-ordered dictionaries of the interpreter: an \<open>IndexMap<Arc<str>, Value>\<close> is the list
  of its entries in order. The operations the sources call are those of the crate's documentation;
  \<open>None\<close> as the result of \<open>map_shift_insert\<close> is its documented panic. Clients rely on the laws of the locale
  \<open>index_map\<close> only.
\<close>

type_synonym 'v entries = "(ustr \<times> 'v) list"

fun map_insert :: "ustr \<Rightarrow> 'v \<Rightarrow> 'v entries \<Rightarrow> 'v entries" where
  "map_insert k v [] = [(k, v)]"
| "map_insert k v ((k', w) # m) = (if k' = k then (k, v) # m else (k', w) # map_insert k v m)"

definition map_set_index :: "nat \<Rightarrow> 'v \<Rightarrow> 'v entries \<Rightarrow> 'v entries option" where
  "map_set_index i v m = (if i < length m then Some (m[i := (fst (m ! i), v)]) else None)"

definition map_without :: "ustr \<Rightarrow> 'v entries \<Rightarrow> 'v entries" where
  "map_without k m = filter (\<lambda>e. fst e \<noteq> k) m"

definition map_shift_remove :: "ustr \<Rightarrow> 'v entries \<Rightarrow> ('v \<times> 'v entries) option" where
  "map_shift_remove k m = map_option (\<lambda>v. (v, map_without k m)) (map_of m k)"

text \<open>\<open>shift_insert\<close> moves an entry whose key is present, and then the index must be less than the
  length; it inserts any other, and then the index may be the length too.\<close>

definition map_shift_insert :: "nat \<Rightarrow> ustr \<Rightarrow> 'v \<Rightarrow> 'v entries \<Rightarrow> 'v entries option" where
  "map_shift_insert i k v m =
     (let rest = map_without k m in
      if (if map_of m k \<noteq> None then i < length m else i \<le> length m)
      then Some (take i rest @ (k, v) # drop i rest) else None)"

section \<open>Laws\<close>

definition keys_distinct :: "'v entries \<Rightarrow> bool" where
  "keys_distinct m \<longleftrightarrow> distinct (map fst m)"

locale index_map =
  fixes get :: "'m \<Rightarrow> ustr \<Rightarrow> 'v option"
    and insert :: "ustr \<Rightarrow> 'v \<Rightarrow> 'm \<Rightarrow> 'm"
    and shift_remove :: "ustr \<Rightarrow> 'm \<Rightarrow> ('v \<times> 'm) option"
    and shift_insert :: "nat \<Rightarrow> ustr \<Rightarrow> 'v \<Rightarrow> 'm \<Rightarrow> 'm option"
    and ok :: "'m \<Rightarrow> bool"
  assumes get_insert: "get (insert k v m) = (get m)(k \<mapsto> v)"
    and ok_insert: "ok m \<Longrightarrow> ok (insert k v m)"
    and shift_remove_law: "shift_remove k m = Some (v, m') \<Longrightarrow> get m k = Some v \<and> get m' = (get m)(k := None)"
    and ok_shift_remove: "shift_remove k m = Some (v, m') \<Longrightarrow> ok m \<Longrightarrow> ok m'"
    and shift_insert_law: "shift_insert i k v m = Some m' \<Longrightarrow> get m' = (get m)(k \<mapsto> v)"
    and ok_shift_insert: "shift_insert i k v m = Some m' \<Longrightarrow> ok m \<Longrightarrow> ok m'"
begin

text \<open>Many insertions, then the value of a key is the last one inserted for it.\<close>

lemma get_inserts: "get (foldl (\<lambda>m (k, v). insert k v m) m kvs) = get m ++ map_of (rev kvs)"
proof (induction kvs arbitrary: m)
  case (Cons kv kvs)
  then show ?case by (cases kv) (auto simp: get_insert fun_eq_iff map_add_def split: option.splits)
qed simp

lemma ok_inserts: "ok m \<Longrightarrow> ok (foldl (\<lambda>m (k, v). insert k v m) m kvs)"
  by (induction kvs arbitrary: m) (auto simp: ok_insert)

lemma get_overwritten: "get (insert k w (insert k v m)) = get (insert k w m)"
  by (simp add: get_insert)

text \<open>A removed key can be put back anywhere.\<close>

lemma reinsert:
  assumes "shift_remove k m = Some (v, m')" "shift_insert i k v m' = Some m''"
  shows "get m'' = get m"
  using shift_remove_law [OF assms(1)] shift_insert_law [OF assms(2)] by (auto simp: fun_eq_iff)

end

lemma map_of_insert: "map_of (map_insert k v m) = (map_of m)(k \<mapsto> v)"
  by (induction k v m rule: map_insert.induct) (auto simp: fun_eq_iff)

lemma keys_insert: "map fst (map_insert k v m) = (if k \<in> fst ` set m then map fst m else map fst m @ [k])"
  by (induction k v m rule: map_insert.induct) auto

lemma map_of_without: "map_of (map_without k m) = (map_of m)(k := None)"
  by (induction m) (auto simp: map_without_def fun_eq_iff)

lemma map_of_none_keys: "map_of m k = None \<longleftrightarrow> k \<notin> fst ` set m"
  by (simp add: map_of_eq_None_iff)

lemma without_absent: "k \<notin> fst ` set m \<Longrightarrow> map_without k m = m"
  unfolding map_without_def by (rule filter_True) force

lemma keys_without: "map fst (map_without k m) = filter (\<lambda>x. x \<noteq> k) (map fst m)"
  by (simp add: map_without_def filter_map comp_def)

lemma map_of_spliced: "k \<notin> fst ` set m \<Longrightarrow> map_of (take i m @ (k, v) # drop i m) = (map_of m)(k \<mapsto> v)"
proof -
  assume k: "k \<notin> fst ` set m"
  have "map_of m = map_of (take i m @ drop i m)" by simp
  then have "map_of m = map_of (drop i m) ++ map_of (take i m)" by (simp only: map_of_append)
  moreover have "map_of (take i m) k = None"
    using k by (auto simp: map_of_eq_None_iff dest: in_set_takeD)
  ultimately show ?thesis by (auto simp: fun_eq_iff map_add_def split: option.splits)
qed

lemma distinct_splice: "distinct xs \<Longrightarrow> x \<notin> set xs \<Longrightarrow> distinct (take i xs @ x # drop i xs)"
proof -
  assume a: "distinct xs" "x \<notin> set xs"
  have "distinct (take i xs @ drop i xs)" using a by simp
  then show ?thesis using a(2) unfolding distinct_append by (auto dest: in_set_takeD in_set_dropD)
qed

lemma without_key: "k \<notin> fst ` set (map_without k m)"
  by (auto simp: map_without_def)

lemma shift_insert_map_of:
  assumes "map_shift_insert i k v m = Some m'"
  shows "map_of m' = (map_of m)(k \<mapsto> v)"
proof -
  have "m' = take i (map_without k m) @ (k, v) # drop i (map_without k m)"
    using assms by (simp add: map_shift_insert_def Let_def split: if_splits)
  then show ?thesis by (simp only: map_of_spliced [OF without_key]) (simp add: map_of_without)
qed

lemma shift_insert_distinct:
  assumes "map_shift_insert i k v m = Some m'" "keys_distinct m"
  shows "keys_distinct m'"
proof -
  let ?r = "map_without k m"
  have m': "m' = take i ?r @ (k, v) # drop i ?r"
    using assms by (simp add: map_shift_insert_def Let_def split: if_splits)
  have "distinct (map fst ?r)" using assms(2) by (simp add: keys_without keys_distinct_def)
  then have "distinct (take i (map fst ?r) @ k # drop i (map fst ?r))"
    by (rule distinct_splice) (use without_key [of k m] in simp)
  then show ?thesis by (simp add: keys_distinct_def m' take_map drop_map)
qed

interpretation entries: index_map map_of map_insert map_shift_remove map_shift_insert keys_distinct
proof (unfold_locales, goal_cases)
  case (1 k v m)
  show ?case by (rule map_of_insert)
next
  case (2 m k v)
  then show ?case by (auto simp: keys_distinct_def keys_insert)
next
  case (3 k m v m')
  then show ?case by (auto simp: map_shift_remove_def map_of_without)
next
  case (4 k m v m')
  then show ?case by (auto simp: map_shift_remove_def keys_distinct_def keys_without)
qed (fact shift_insert_map_of shift_insert_distinct)+

text \<open>When an insertion panics.\<close>

lemma shift_insert_panics:
  "map_shift_insert i k v m = None \<longleftrightarrow> (if k \<in> fst ` set m then length m \<le> i else length m < i)"
  using map_of_none_keys [of m k] by (auto simp: map_shift_insert_def Let_def)

lemma shift_insert_length:
  "map_shift_insert i k v m = Some m' \<Longrightarrow> keys_distinct m \<Longrightarrow>
   length m' = (if k \<in> fst ` set m then length m else Suc (length m))"
proof -
  assume a: "map_shift_insert i k v m = Some m'" "keys_distinct m"
  have l: "length m' = Suc (length (map_without k m))"
    using a(1) by (auto simp: map_shift_insert_def Let_def split: if_splits)
  have "length (map_without k m) = length (filter (\<lambda>x. x \<noteq> k) (map fst m))"
    using keys_without [of k m] by (metis length_map)
  also have "\<dots> = card (set (map fst m) - {k})"
    using distinct_card [of "filter (\<lambda>x. x \<noteq> k) (map fst m)"] a(2)
    by (simp add: keys_distinct_def set_diff_eq del: length_filter_map filter_map)
  also have "\<dots> = (if k \<in> fst ` set m then length m - 1 else length m)"
    using a(2) by (simp add: keys_distinct_def card_Diff_singleton_if distinct_card [of "map fst m", simplified])
  finally show ?thesis using l by (cases m) auto
qed

end
