(* ===== verification/Value_Access.thy ===== *)
theory Value_Access
  imports Value_Cat Index_Map
begin

text \<open>
  Indexing and indexed assignment of values (\<open>wqpl/src/value/access.rs\<close>). A function that updates its
  target returns the new target and whether it succeeded (\<open>Option<()>\<close>); a position that passed
  \<open>normalize_idx\<close> is below the length, so the indexing expressions \<open>list[idx] = ..\<close> never panic.
\<close>

section \<open>Positions\<close>

definition normalize_idx :: "i64 \<Rightarrow> nat \<Rightarrow> nat option" where
  "normalize_idx i len =
     (if 0 \<le> sint i then (if nat (sint i) < len then Some (nat (sint i)) else None)
      else let off = nat (- sint i) in if off \<le> len then Some (len - off) else None)"

definition resolve_single_idx :: "wq_value \<Rightarrow> nat \<Rightarrow> nat option" where
  "resolve_single_idx key len =
     (case key of
        VInt i \<Rightarrow> normalize_idx i len
      | VBigInt n \<Rightarrow> Option.bind (to_i64 n) (\<lambda>i. normalize_idx i len)
      | _ \<Rightarrow> None)"

definition normalize_many :: "i64 list \<Rightarrow> nat \<Rightarrow> nat list option" where
  "normalize_many idxs len = those (map (\<lambda>i. normalize_idx i len) idxs)"

definition int_arg_to_i64 :: "wq_value \<Rightarrow> i64 option" where
  "int_arg_to_i64 v = (case v of VInt i \<Rightarrow> Some i | VBigInt n \<Rightarrow> to_i64 n | _ \<Rightarrow> None)"

definition normalize_list_indices :: "wq_value list \<Rightarrow> nat \<Rightarrow> nat list option" where
  "normalize_list_indices idxs len =
     Option.bind (those (map int_arg_to_i64 idxs)) (\<lambda>raw. normalize_many raw len)"

definition resolve_many_idx :: "wq_value \<Rightarrow> nat \<Rightarrow> nat list option" where
  "resolve_many_idx key len =
     Option.bind (exact_int_seq key) (\<lambda>s. normalize_many (int_seq_vec s) len)"

definition bulk_index_key :: "wq_value \<Rightarrow> unit option" where
  "bulk_index_key v = (case v of
     VIntList _ \<Rightarrow> Some () | VIntRange _ \<Rightarrow> Some () | VFloatList _ \<Rightarrow> Some () | VBoolList _ \<Rightarrow> Some ()
   | VList _ \<Rightarrow> Some () | _ \<Rightarrow> None)"

section \<open>Indexing\<close>

definition index_structured_keys :: "wq_value list \<Rightarrow> (wq_value \<Rightarrow> wq_value option) \<Rightarrow> wq_value option" where
  "index_structured_keys keys index_key =
     (case keys of [] \<Rightarrow> None | [key] \<Rightarrow> index_key key
      | _ \<Rightarrow> map_option from_items (those (map index_key keys)))"

definition index_complex_key :: "f64 \<Rightarrow> f64 \<Rightarrow> wq_value \<Rightarrow> wq_value option" where
  "index_complex_key re im key =
     (case key of
        VTag s \<Rightarrow> if s = lit ''re'' then Some (VFloat re) else if s = lit ''im'' then Some (VFloat im) else None
      | _ \<Rightarrow> None)"

definition index_fraction_key :: "int \<Rightarrow> int \<Rightarrow> wq_value \<Rightarrow> wq_value option" where
  "index_fraction_key n d key =
     (case key of
        VTag s \<Rightarrow>
          if s = lit ''n'' \<or> s = lit ''numer'' then Some (value_from_bigint n)
          else if s = lit ''d'' \<or> s = lit ''denom'' then Some (value_from_bigint d) else None
      | _ \<Rightarrow> None)"

definition dict_at :: "wq_value entries \<Rightarrow> nat \<Rightarrow> wq_value option" where
  "dict_at m i = map_option snd (nth_opt m i)"

text \<open>The loop body over the keys of a dictionary, the same in \<open>index_many\<close> and \<open>index\<close>.\<close>

definition index_dict_key :: "wq_value entries \<Rightarrow> wq_value \<Rightarrow> wq_value option" where
  "index_dict_key m k =
     (case k of
        VTag s \<Rightarrow> map_of m s
      | VInt i \<Rightarrow> Option.bind (normalize_idx i (length m)) (dict_at m)
      | VBigInt n \<Rightarrow> Option.bind (to_i64 n) (\<lambda>i. Option.bind (normalize_idx i (length m)) (dict_at m))
      | _ \<Rightarrow> None)"

definition index_structured :: "wq_value \<Rightarrow> (wq_value \<Rightarrow> wq_value option) \<Rightarrow> wq_value option" where
  "index_structured key index_key =
     (case key of VTag _ \<Rightarrow> index_key key
      | VList keys \<Rightarrow> map_option from_items (those (map index_key keys)) | _ \<Rightarrow> None)"

definition index :: "wq_value \<Rightarrow> wq_value \<Rightarrow> wq_value option" where
  "index v key =
     (case seq_from_value v of
        Some s \<Rightarrow>
          or_else (Option.bind (resolve_single_idx key (seq_len s)) (seq_get s))
            (Option.bind (resolve_many_idx key (seq_len s)) (seq_gather s))
      | None \<Rightarrow>
          (case v of
             VDict m \<Rightarrow>
               or_else (or_else (Option.bind (resolve_single_idx key (length m)) (dict_at m))
                 (Option.bind (resolve_many_idx key (length m))
                    (\<lambda>idxs. map_option from_items (those (map (dict_at m) idxs)))))
                 (case key of VTag s \<Rightarrow> map_of m s
                  | VList keys \<Rightarrow> map_option from_items (those (map (index_dict_key m) keys)) | _ \<Rightarrow> None)
           | VComplex re im \<Rightarrow> index_structured key (index_complex_key re im)
           | VFraction n d \<Rightarrow> index_structured key (index_fraction_key n d)
           | _ \<Rightarrow> None))"

definition index_many :: "wq_value \<Rightarrow> wq_value list \<Rightarrow> wq_value option" where
  "index_many v keys =
     (case seq_from_value v of
        Some s \<Rightarrow> Option.bind (normalize_list_indices keys (seq_len s)) (seq_gather s)
      | None \<Rightarrow>
          (case v of
             VDict m \<Rightarrow> map_option from_items (those (map (index_dict_key m) keys))
           | VComplex re im \<Rightarrow> index_structured_keys keys (index_complex_key re im)
           | VFraction n d \<Rightarrow> index_structured_keys keys (index_fraction_key n d)
           | _ \<Rightarrow> (case keys of [key] \<Rightarrow> index v key | _ \<Rightarrow> None)))"

section \<open>Writing positions\<close>

text \<open>\<open>for idx in idxs { items[idx] = v }\<close> and
  \<open>for (idx, val) in idxs.into_iter().zip(vals) { items[idx] = val }\<close>.\<close>

definition write_each :: "'a list \<Rightarrow> nat list \<Rightarrow> 'a \<Rightarrow> 'a list" where
  "write_each xs idxs v = foldl (\<lambda>xs i. xs[i := v]) xs idxs"

definition write_zip :: "'a list \<Rightarrow> nat list \<Rightarrow> 'a list \<Rightarrow> 'a list" where
  "write_zip xs idxs vs = foldl (\<lambda>xs (i, v). xs[i := v]) xs (zip idxs vs)"

definition collect_exact_ints :: "wq_value list \<Rightarrow> i64 list option" where
  "collect_exact_ints vs = those (map (\<lambda>v. case v of VInt i \<Rightarrow> Some i | _ \<Rightarrow> None) vs)"

definition collect_bools :: "wq_value list \<Rightarrow> bool list option" where
  "collect_bools vs = those (map (\<lambda>v. case v of VBool b \<Rightarrow> Some b | _ \<Rightarrow> None) vs)"

definition collect_floats :: "wq_value list \<Rightarrow> f64 list option" where
  "collect_floats vs = those (map (\<lambda>v. case v of VFloat f \<Rightarrow> Some f | _ \<Rightarrow> None) vs)"

definition collect_chars :: "wq_value list \<Rightarrow> uchar list option" where
  "collect_chars vs = those (map char_of vs)"

datatype packed_assign_mode = Mode_Single | Mode_Bulk

text \<open>\<open>PackedListAssignment\<close>; \<open>KeepPacked\<close> carries the list that was updated in place.\<close>

datatype 'a packed_list_assignment = KeepPacked "'a list" | Promote "wq_value list"

text \<open>In single mode the callers pass one position, so the \<open>expect\<close> never fires; an empty list of
  positions is refused before (\<open>assign_packed_list_indices\<close>).\<close>

definition assign_int_list_indices ::
  "i64 list \<Rightarrow> nat list \<Rightarrow> packed_assign_mode \<Rightarrow> wq_value \<Rightarrow> i64 packed_list_assignment option" where
  "assign_int_list_indices xs idxs mode v =
     (case mode of
        Mode_Single \<Rightarrow>
          (case v of VInt i \<Rightarrow> Some (KeepPacked (xs[hd idxs := i]))
           | _ \<Rightarrow> Some (Promote ((map VInt xs)[hd idxs := v])))
      | Mode_Bulk \<Rightarrow>
          (case v of
             VInt i \<Rightarrow> Some (KeepPacked (write_each xs idxs i))
           | VList vals \<Rightarrow>
               if length idxs \<noteq> length vals then None
               else (case collect_exact_ints vals of
                 Some ints \<Rightarrow> Some (KeepPacked (write_zip xs idxs ints))
               | None \<Rightarrow> Some (Promote (write_zip (map VInt xs) idxs vals)))
           | _ \<Rightarrow>
               (case packed_int_seq v of
                  Some s \<Rightarrow>
                    if length idxs \<noteq> int_seq_len s then None
                    else Some (KeepPacked (write_zip xs idxs (int_seq_vec s)))
                | None \<Rightarrow> Some (Promote (write_each (map VInt xs) idxs v)))))"

definition assign_bool_list_indices ::
  "bool list \<Rightarrow> nat list \<Rightarrow> packed_assign_mode \<Rightarrow> wq_value \<Rightarrow> bool packed_list_assignment option" where
  "assign_bool_list_indices xs idxs mode v =
     (case mode of
        Mode_Single \<Rightarrow>
          (case v of VBool b \<Rightarrow> Some (KeepPacked (xs[hd idxs := b]))
           | _ \<Rightarrow> Some (Promote ((map VBool xs)[hd idxs := v])))
      | Mode_Bulk \<Rightarrow>
          (case v of
             VBool b \<Rightarrow> Some (KeepPacked (write_each xs idxs b))
           | VBoolList vals \<Rightarrow>
               if length idxs \<noteq> length vals then None
               else Some (KeepPacked (write_zip xs idxs vals))
           | VList vals \<Rightarrow>
               if length idxs \<noteq> length vals then None
               else (case collect_bools vals of
                 Some bools \<Rightarrow> Some (KeepPacked (write_zip xs idxs bools))
               | None \<Rightarrow> Some (Promote (write_zip (map VBool xs) idxs vals)))
           | _ \<Rightarrow> Some (Promote (write_each (map VBool xs) idxs v))))"

definition assign_float_list_indices ::
  "f64 list \<Rightarrow> nat list \<Rightarrow> packed_assign_mode \<Rightarrow> wq_value \<Rightarrow> f64 packed_list_assignment option" where
  "assign_float_list_indices xs idxs mode v =
     (case mode of
        Mode_Single \<Rightarrow>
          (case v of VFloat f \<Rightarrow> Some (KeepPacked (xs[hd idxs := f]))
           | _ \<Rightarrow> Some (Promote ((map VFloat xs)[hd idxs := v])))
      | Mode_Bulk \<Rightarrow>
          (case v of
             VFloat f \<Rightarrow> Some (KeepPacked (write_each xs idxs f))
           | VFloatList vals \<Rightarrow>
               if length idxs \<noteq> length vals then None
               else Some (KeepPacked (write_zip xs idxs vals))
           | VList vals \<Rightarrow>
               if length idxs \<noteq> length vals then None
               else (case collect_floats vals of
                 Some floats \<Rightarrow> Some (KeepPacked (write_zip xs idxs floats))
               | None \<Rightarrow> Some (Promote (write_zip (map VFloat xs) idxs vals)))
           | _ \<Rightarrow> Some (Promote (write_each (map VFloat xs) idxs v))))"

definition packed_list_len :: "wq_value \<Rightarrow> nat option" where
  "packed_list_len v = (case v of
     VIntList xs \<Rightarrow> Some (length xs) | VFloatList xs \<Rightarrow> Some (length xs) | VBoolList xs \<Rightarrow> Some (length xs)
   | _ \<Rightarrow> None)"

definition store_packed :: "('a list \<Rightarrow> wq_value) \<Rightarrow> 'a packed_list_assignment \<Rightarrow> wq_value" where
  "store_packed pack a = (case a of KeepPacked xs \<Rightarrow> pack xs | Promote vs \<Rightarrow> VList vs)"

text \<open>\<open>PackedListMut\<close> dispatches on the storage of the target.\<close>

definition assign_packed_list_indices ::
  "wq_value \<Rightarrow> nat list \<Rightarrow> packed_assign_mode \<Rightarrow> wq_value \<Rightarrow> wq_value option" where
  "assign_packed_list_indices data idxs mode v =
     (if idxs = [] then None
      else case data of
        VIntList xs \<Rightarrow> map_option (store_packed VIntList) (assign_int_list_indices xs idxs mode v)
      | VFloatList xs \<Rightarrow> map_option (store_packed VFloatList) (assign_float_list_indices xs idxs mode v)
      | VBoolList xs \<Rightarrow> map_option (store_packed VBoolList) (assign_bool_list_indices xs idxs mode v)
      | _ \<Rightarrow> None)"

text \<open>The assignment to many positions of a string, the same in \<open>assign_by_indices\<close> and
  \<open>assign_by_index\<close>.\<close>

definition assign_string_bulk :: "ustr \<Rightarrow> nat list \<Rightarrow> wq_value \<Rightarrow> wq_value option" where
  "assign_string_bulk s idxs v =
     (case v of
        VList vals \<Rightarrow>
          if length idxs \<noteq> length vals then None
          else (case collect_chars vals of
            Some chars \<Rightarrow> Some (VString (write_zip s idxs chars))
          | None \<Rightarrow> Some (VList (write_zip (map VChar s) idxs vals)))
      | VChar c \<Rightarrow> Some (VString (write_each s idxs c))
      | _ \<Rightarrow> Some (VList (write_each (map VChar s) idxs v)))"

definition assign_string_single :: "ustr \<Rightarrow> nat \<Rightarrow> wq_value \<Rightarrow> wq_value" where
  "assign_string_single s idx v =
     (case v of VChar c \<Rightarrow> VString (s[idx := c]) | _ \<Rightarrow> VList ((map VChar s)[idx := v]))"

definition storage_len :: "list_storage_seq \<Rightarrow> nat" where
  "storage_len s = (case s of
     LS_List xs \<Rightarrow> length xs | LS_Int xs \<Rightarrow> int_seq_len xs | LS_Float xs \<Rightarrow> length xs | LS_Bool xs \<Rightarrow> length xs)"

definition assign_list_bulk :: "wq_value list \<Rightarrow> nat list \<Rightarrow> wq_value \<Rightarrow> wq_value list option" where
  "assign_list_bulk xs idxs v =
     (case list_storage_from_value v of
        Some vals \<Rightarrow>
          if length idxs \<noteq> storage_len vals then None
          else Some (write_zip xs idxs (storage_values vals))
      | None \<Rightarrow> Some (write_each xs idxs v))"

section \<open>Dictionaries\<close>

datatype dict_bulk_key = BK_Symbol ustr | BK_Position nat

definition normalize_dict_bulk_key :: "nat \<Rightarrow> wq_value \<Rightarrow> dict_bulk_key option" where
  "normalize_dict_bulk_key len key =
     (case key of
        VTag s \<Rightarrow> Some (BK_Symbol s)
      | VInt i \<Rightarrow> map_option BK_Position (normalize_idx i len)
      | VBigInt n \<Rightarrow> Option.bind (to_i64 n) (\<lambda>i. map_option BK_Position (normalize_idx i len))
      | _ \<Rightarrow> None)"

definition normalize_dict_bulk_keys :: "wq_value list \<Rightarrow> nat \<Rightarrow> dict_bulk_key list option" where
  "normalize_dict_bulk_keys keys len = those (map (normalize_dict_bulk_key len) keys)"

definition assign_dict_entry :: "wq_value entries \<Rightarrow> dict_bulk_key \<Rightarrow> wq_value \<Rightarrow> wq_value entries option" where
  "assign_dict_entry m key v =
     (case key of BK_Symbol s \<Rightarrow> Some (map_insert s v m) | BK_Position i \<Rightarrow> map_set_index i v m)"

text \<open>The loops stop at the first entry that fails, keeping the entries written before it.\<close>

fun assign_dict_loop :: "wq_value entries \<Rightarrow> (dict_bulk_key \<times> wq_value) list \<Rightarrow> wq_value entries \<times> bool" where
  "assign_dict_loop m [] = (m, True)"
| "assign_dict_loop m ((k, v) # kvs) =
     (case assign_dict_entry m k v of None \<Rightarrow> (m, False) | Some m' \<Rightarrow> assign_dict_loop m' kvs)"

definition assign_dict_bulk :: "wq_value entries \<Rightarrow> dict_bulk_key list \<Rightarrow> wq_value \<Rightarrow> wq_value entries \<times> bool" where
  "assign_dict_bulk m keys v =
     (case list_storage_from_value v of
        Some vals \<Rightarrow>
          if length keys \<noteq> storage_len vals then (m, False)
          else assign_dict_loop m (zip keys (storage_values vals))
      | None \<Rightarrow> assign_dict_loop m (map (\<lambda>k. (k, v)) keys))"

section \<open>Assignment\<close>

definition materialize_int_range :: "wq_value \<Rightarrow> wq_value" where
  "materialize_int_range v = (case v of VIntRange r \<Rightarrow> VIntList (ir_to_vec r) | _ \<Rightarrow> v)"

definition updated :: "wq_value \<Rightarrow> wq_value option \<Rightarrow> wq_value \<times> bool" where
  "updated old r = (case r of Some new \<Rightarrow> (new, True) | None \<Rightarrow> (old, False))"

definition assign_by_index :: "wq_value \<Rightarrow> wq_value \<Rightarrow> wq_value \<Rightarrow> wq_value \<times> bool" where
  "assign_by_index target key v =
     (let data = materialize_int_range target in
      case packed_list_len data of
        Some len \<Rightarrow>
          updated data
            (case resolve_single_idx key len of
               Some idx \<Rightarrow> assign_packed_list_indices data [idx] Mode_Single v
             | None \<Rightarrow> Option.bind (resolve_many_idx key len)
                 (\<lambda>idxs. assign_packed_list_indices data idxs Mode_Bulk v))
      | None \<Rightarrow>
          (case data of
             VString s \<Rightarrow>
               updated data
                 (case resolve_single_idx key (length s) of
                    Some idx \<Rightarrow> Some (assign_string_single s idx v)
                  | None \<Rightarrow> Option.bind (resolve_many_idx key (length s)) (\<lambda>idxs. assign_string_bulk s idxs v))
           | VList xs \<Rightarrow>
               updated data
                 (case resolve_single_idx key (length xs) of
                    Some idx \<Rightarrow> Some (VList (xs[idx := v]))
                  | None \<Rightarrow> Option.bind (resolve_many_idx key (length xs))
                      (\<lambda>idxs. map_option VList (assign_list_bulk xs idxs v)))
           | VDict m \<Rightarrow>
               (case key of
                  VTag k \<Rightarrow> (VDict (map_insert k v m), True)
                | _ \<Rightarrow>
                    (case resolve_single_idx key (length m) of
                       Some idx \<Rightarrow> updated data (map_option VDict (map_set_index idx v m))
                     | None \<Rightarrow>
                         (case (case key of
                                  VList keys \<Rightarrow> normalize_dict_bulk_keys keys (length m)
                                | _ \<Rightarrow> map_option (map BK_Position) (resolve_many_idx key (length m))) of
                            None \<Rightarrow> (data, False)
                          | Some keys \<Rightarrow> map_prod VDict id (assign_dict_bulk m keys v))))
           | _ \<Rightarrow> (data, False)))"

definition assign_by_indices :: "wq_value \<Rightarrow> wq_value list \<Rightarrow> wq_value \<Rightarrow> wq_value \<times> bool" where
  "assign_by_indices target keys v =
     (case keys of
        [] \<Rightarrow> (target, False)
      | [key] \<Rightarrow> assign_by_index target key v
      | _ \<Rightarrow>
          (let data = materialize_int_range target in
           case packed_list_len data of
             Some len \<Rightarrow>
               updated data (Option.bind (normalize_list_indices keys len)
                 (\<lambda>idxs. assign_packed_list_indices data idxs Mode_Bulk v))
           | None \<Rightarrow>
               (case data of
                  VString s \<Rightarrow>
                    updated data (Option.bind (normalize_list_indices keys (length s))
                      (\<lambda>idxs. assign_string_bulk s idxs v))
                | VList xs \<Rightarrow>
                    updated data (Option.bind (normalize_list_indices keys (length xs))
                      (\<lambda>idxs. map_option VList (assign_list_bulk xs idxs v)))
                | VDict m \<Rightarrow>
                    (case normalize_dict_bulk_keys keys (length m) of
                       None \<Rightarrow> (data, False)
                     | Some ks \<Rightarrow> map_prod VDict id (assign_dict_bulk m ks v))
                | _ \<Rightarrow> (data, False))))"

end
