(* ===== verification/Value_Edit.thy ===== *)
theory Value_Edit
  imports Value_Access Requirement "HOL-Library.List_Lexorder"
begin

text \<open>
  In-place insertion, popping and removal (\<open>insert_in_place\<close>, \<open>pop_in_place\<close>, \<open>remove_in_place\<close> of
  \<open>wqpl/src/value/access.rs\<close>), behind \<open>xs[!i]:v\<close>, \<open>xs[!]\<close> and \<open>xs[!i]\<close>. An operation returns its result and
  the edited value; \<open>None\<close> is a panic. The excerpt of a value in an error is the argument \<open>ex\<close>.
\<close>

section \<open>Positions\<close>

definition normalize_remove_idx :: "i64 \<Rightarrow> nat \<Rightarrow> nat option" where
  "normalize_remove_idx i len =
     (if 0 \<le> sint i then (if nat (sint i) < len then Some (nat (sint i)) else None)
      else let off = nat (- sint i) in if off \<le> len then Some (len - off) else None)"

definition normalize_insert_idx :: "i64 \<Rightarrow> nat \<Rightarrow> nat option" where
  "normalize_insert_idx i len =
     (if 0 \<le> sint i then (if nat (sint i) \<le> len then Some (nat (sint i)) else None)
      else let off = nat (- sint i) in if off \<le> len then Some (len - off) else None)"

definition domain_error :: "string \<Rightarrow> wq_error" where
  "domain_error m = with_msg (lit m) (new_error W_Domain)"

definition seq_is_atom :: "exact_int_seq_view \<Rightarrow> bool" where
  "seq_is_atom s = (case s of EI_Atom _ \<Rightarrow> True | _ \<Rightarrow> False)"

definition parse_exact_int_positions ::
  "(wq_value \<Rightarrow> ustr) \<Rightarrow> wq_value \<Rightarrow> nat \<Rightarrow> (i64 \<Rightarrow> nat \<Rightarrow> nat option) \<Rightarrow> string \<Rightarrow> requirement \<Rightarrow>
   wq_error + nat list \<times> bool" where
  "parse_exact_int_positions ex v len norm invalid_msg req =
     (case exact_int_seq v of
        None \<Rightarrow> Inl (got1 ex v (case v of VList _ \<Rightarrow> domain_error invalid_msg
                                 | _ \<Rightarrow> expected req (new_error W_Domain)))
      | Some s \<Rightarrow>
          (case those (map (\<lambda>i. norm i len) (int_seq_vec s)) of
             None \<Rightarrow> Inl (domain_error invalid_msg)
           | Some out \<Rightarrow> Inr (out, \<not> seq_is_atom s)))"

definition int_or_ints :: requirement where
  "int_or_ints = one_of [R_Type TN_Int, R_List (R_Type TN_Int)]"

definition parse_remove_positions :: "(wq_value \<Rightarrow> ustr) \<Rightarrow> wq_value \<Rightarrow> nat \<Rightarrow> wq_error + nat list \<times> bool" where
  "parse_remove_positions ex idx len =
     parse_exact_int_positions ex idx len normalize_remove_idx ''remove index is out of range'' int_or_ints"

definition parse_insert_positions :: "(wq_value \<Rightarrow> ustr) \<Rightarrow> wq_value option \<Rightarrow> nat \<Rightarrow> wq_error + nat list \<times> bool" where
  "parse_insert_positions ex dsts len =
     (case dsts of
        None \<Rightarrow> Inr ([1..<len], True)
      | Some d \<Rightarrow>
          parse_exact_int_positions ex d len normalize_insert_idx ''insert index is out of range'' int_or_ints)"

text \<open>\<open>sorted.windows(2).any(|pair| pair[0] == pair[1])\<close>.\<close>

fun adjacent_equal :: "'a list \<Rightarrow> bool" where
  "adjacent_equal (x # y # xs) \<longleftrightarrow> x = y \<or> adjacent_equal (y # xs)"
| "adjacent_equal _ \<longleftrightarrow> False"

definition ensure_unique_positions :: "nat list \<Rightarrow> string \<Rightarrow> wq_error option" where
  "ensure_unique_positions ps what =
     (if adjacent_equal (sort ps) then Some (domain_error (what @ '' must be unique'')) else None)"

section \<open>Merging insertions\<close>

fun insert_loop :: "nat \<Rightarrow> 'a list \<Rightarrow> (nat \<times> 'a) list \<Rightarrow> 'a list" where
  "insert_loop i [] ops = map snd (takeWhile (\<lambda>p. fst p = i) ops)"
| "insert_loop i (b # bs) ops =
     map snd (takeWhile (\<lambda>p. fst p = i) ops) @ b # insert_loop (Suc i) bs (dropWhile (\<lambda>p. fst p = i) ops)"

definition insert_many_owned :: "'a list \<Rightarrow> (nat \<times> 'a) list \<Rightarrow> 'a list" where
  "insert_many_owned base ops = insert_loop 0 base (sort_key fst ops)"

fun chunk_loop :: "nat \<Rightarrow> ustr \<Rightarrow> (nat \<times> ustr) list \<Rightarrow> ustr" where
  "chunk_loop i [] ops = concat (map snd (takeWhile (\<lambda>p. fst p = i) ops))"
| "chunk_loop i (c # cs) ops =
     concat (map snd (takeWhile (\<lambda>p. fst p = i) ops)) @
     c # chunk_loop (Suc i) cs (dropWhile (\<lambda>p. fst p = i) ops)"

definition insert_string_chunks :: "ustr \<Rightarrow> (nat \<times> ustr) list \<Rightarrow> ustr" where
  "insert_string_chunks base ops = chunk_loop 0 base (sort_key fst ops)"

section \<open>What is inserted\<close>

definition pairwise_error :: wq_error where
  "pairwise_error =
     domain_error ''destinations and inserted values must have matching lengths for pairwise insertion''"

definition list_insert_items :: "wq_value \<Rightarrow> wq_value list" where
  "list_insert_items xs = (case list_storage_from_value xs of Some s \<Rightarrow> storage_values s | None \<Rightarrow> [xs])"

definition list_insert_pairwise :: "wq_value \<Rightarrow> nat \<Rightarrow> wq_error + wq_value list" where
  "list_insert_pairwise xs len =
     (case list_storage_from_value xs of
        Some s \<Rightarrow> if storage_len s = len then Inr (storage_values s) else Inl pairwise_error
      | None \<Rightarrow> Inr (replicate len xs))"

definition exact_int_insert_items :: "wq_value \<Rightarrow> i64 list option" where
  "exact_int_insert_items xs = map_option int_seq_vec (exact_int_seq xs)"

definition exact_int_insert_pairwise :: "wq_value \<Rightarrow> nat \<Rightarrow> i64 list option" where
  "exact_int_insert_pairwise xs len =
     (case exact_int_seq xs of
        None \<Rightarrow> None
      | Some s \<Rightarrow>
          if seq_is_atom s then Some (replicate len (hd (int_seq_vec s)))
          else if int_seq_len s = len then Some (int_seq_vec s) else None)"

definition bool_insert_items :: "wq_value \<Rightarrow> bool list option" where
  "bool_insert_items xs =
     (case xs of VBool b \<Rightarrow> Some [b] | VBoolList bs \<Rightarrow> Some bs | VList vs \<Rightarrow> collect_bools vs | _ \<Rightarrow> None)"

definition bool_insert_pairwise :: "wq_value \<Rightarrow> nat \<Rightarrow> bool list option" where
  "bool_insert_pairwise xs len =
     (case xs of
        VBool b \<Rightarrow> Some (replicate len b)
      | VBoolList bs \<Rightarrow> if length bs = len then Some bs else None
      | VList vs \<Rightarrow> if length vs = len then collect_bools vs else None
      | _ \<Rightarrow> None)"

definition float_insert_items :: "wq_value \<Rightarrow> f64 list option" where
  "float_insert_items xs =
     (case xs of VFloat f \<Rightarrow> Some [f] | VFloatList fs \<Rightarrow> Some fs | VList vs \<Rightarrow> collect_floats vs | _ \<Rightarrow> None)"

definition float_insert_pairwise :: "wq_value \<Rightarrow> nat \<Rightarrow> f64 list option" where
  "float_insert_pairwise xs len =
     (case xs of
        VFloat f \<Rightarrow> Some (replicate len f)
      | VFloatList fs \<Rightarrow> if length fs = len then Some fs else None
      | VList vs \<Rightarrow> if length vs = len then collect_floats vs else None
      | _ \<Rightarrow> None)"

text \<open>\<open>expected_string1\<close> (\<open>value/error.rs\<close>).\<close>

definition expected_string1 :: "(wq_value \<Rightarrow> ustr) \<Rightarrow> wq_value \<Rightarrow> wq_error" where
  "expected_string1 ex v =
     (let e = expected (one_of [R_Type TN_Char, R_Type TN_String]) (new_error W_Domain) in
      case v of
        VList vs \<Rightarrow>
          (case find (\<lambda>i. \<not> is_char (vs ! i)) [0..<length vs] of
             Some i \<Rightarrow> got_at_index ex (vs ! i) i e
           | None \<Rightarrow> got1 ex v e)
      | _ \<Rightarrow> got1 ex v e)"

definition string_or_error :: "(wq_value \<Rightarrow> ustr) \<Rightarrow> wq_value \<Rightarrow> wq_error + ustr" where
  "string_or_error ex v =
     (case try_rust_string v of Some s \<Rightarrow> Inr s | None \<Rightarrow> Inl (expected_string1 ex v))"

text \<open>\<open>collect::<WqResult<Vec<_>>>()\<close>: the first error, or every result.\<close>

fun collect_results :: "(wq_error + 'a) list \<Rightarrow> wq_error + 'a list" where
  "collect_results [] = Inr []"
| "collect_results (r # rs) =
     (case r of Inl e \<Rightarrow> Inl e
      | Inr x \<Rightarrow> (case collect_results rs of Inl e \<Rightarrow> Inl e | Inr xs \<Rightarrow> Inr (x # xs)))"

definition string_insert_pairwise :: "(wq_value \<Rightarrow> ustr) \<Rightarrow> wq_value \<Rightarrow> nat \<Rightarrow> wq_error + ustr list" where
  "string_insert_pairwise ex xs len =
     (case (case xs of VList vs \<Rightarrow> if length vs = len then Some vs else None | _ \<Rightarrow> None) of
        Some vs \<Rightarrow> collect_results (map (string_or_error ex) vs)
      | None \<Rightarrow>
          if list_storage_from_value xs = None
          then (case string_or_error ex xs of Inl e \<Rightarrow> Inl e | Inr s \<Rightarrow> Inr (replicate len s))
          else (case string_or_error ex xs of
                  Inl e \<Rightarrow> Inl e
                | Inr s \<Rightarrow> if length s = len then Inr (map (\<lambda>c. [c]) s) else Inl pairwise_error))"

section \<open>Insertion\<close>

type_synonym edit = "((wq_error + wq_value) \<times> wq_value) option"

definition edited :: "wq_value \<Rightarrow> edit" where
  "edited d = Some (Inr d, d)"

definition refused :: "wq_error \<Rightarrow> wq_value \<Rightarrow> edit" where
  "refused e d = Some (Inl e, d)"

definition insert_string_in_place :: "(wq_value \<Rightarrow> ustr) \<Rightarrow> wq_value \<Rightarrow> wq_value option \<Rightarrow> wq_value \<Rightarrow> wq_error + wq_value" where
  "insert_string_in_place ex data dsts xs =
     (case string_or_error ex data of
        Inl e \<Rightarrow> Inl e
      | Inr s \<Rightarrow>
          (case parse_insert_positions ex dsts (length s) of
             Inl e \<Rightarrow> Inl e
           | Inr (positions, multi) \<Rightarrow>
               if positions = [] then Inr data
               else if multi then
                 (case string_insert_pairwise ex xs (length positions) of
                    Inl e \<Rightarrow> Inl e
                  | Inr vals \<Rightarrow> Inr (VString (insert_string_chunks s (zip positions vals))))
               else
                 (case string_or_error ex xs of
                    Inl e \<Rightarrow> Inl e
                  | Inr t \<Rightarrow> Inr (VString (insert_string_chunks s [(hd positions, t)])))))"

definition splice_at :: "'a list \<Rightarrow> nat \<Rightarrow> 'a list \<Rightarrow> 'a list" where
  "splice_at xs i ys = take i xs @ ys @ drop i xs"

definition insert_into_list :: "(wq_value \<Rightarrow> ustr) \<Rightarrow> wq_value list \<Rightarrow> wq_value \<Rightarrow> wq_value option \<Rightarrow> edit" where
  "insert_into_list ex base xs dsts =
     (case parse_insert_positions ex dsts (length base) of
        Inl e \<Rightarrow> refused e (VList base)
      | Inr (positions, multi) \<Rightarrow>
          if positions = [] then edited (VList base)
          else if multi then
            (case list_insert_pairwise xs (length positions) of
               Inl e \<Rightarrow> refused e (VList base)
             | Inr vals \<Rightarrow> edited (VList (insert_many_owned base (zip positions vals))))
          else edited (VList (splice_at base (hd positions) (list_insert_items xs))))"

text \<open>The arms of the three packed lists: \<open>pack\<close> is the variant, \<open>con\<close> the variant of its elements,
  \<open>pairwise_of\<close> and \<open>items_of\<close> the conversions that keep the list packed.\<close>

definition insert_into_packed ::
  "(wq_value \<Rightarrow> ustr) \<Rightarrow> ('a list \<Rightarrow> wq_value) \<Rightarrow> ('a \<Rightarrow> wq_value) \<Rightarrow> (wq_value \<Rightarrow> nat \<Rightarrow> 'a list option) \<Rightarrow>
   (wq_value \<Rightarrow> 'a list option) \<Rightarrow> 'a list \<Rightarrow> wq_value \<Rightarrow> wq_value option \<Rightarrow> edit" where
  "insert_into_packed ex pack con pairwise_of items_of base xs dsts =
     (case parse_insert_positions ex dsts (length base) of
        Inl e \<Rightarrow> refused e (pack base)
      | Inr (positions, multi) \<Rightarrow>
          if positions = [] then edited (pack base)
          else if multi then
            (case pairwise_of xs (length positions) of
               Some vals \<Rightarrow> edited (pack (insert_many_owned base (zip positions vals)))
             | None \<Rightarrow>
                 (case list_insert_pairwise xs (length positions) of
                    Inl e \<Rightarrow> refused e (pack base)
                  | Inr vals \<Rightarrow> edited (VList (insert_many_owned (map con base) (zip positions vals)))))
          else
            (case items_of xs of
               Some vals \<Rightarrow> edited (pack (splice_at base (hd positions) vals))
             | None \<Rightarrow> edited (VList (splice_at (map con base) (hd positions) (list_insert_items xs)))))"

definition dict_insert_entries :: "wq_value \<Rightarrow> nat \<Rightarrow> wq_error + wq_value entries" where
  "dict_insert_entries xs len =
     (case xs of VDict m \<Rightarrow> if length m = len then Inr m else Inl pairwise_error | _ \<Rightarrow> Inl pairwise_error)"

definition dict_insert_values :: "wq_value \<Rightarrow> nat \<Rightarrow> wq_error + wq_value list" where
  "dict_insert_values xs len = list_insert_pairwise xs len"

definition insert_index_out_of_range :: "(wq_value \<Rightarrow> ustr) \<Rightarrow> wq_value \<Rightarrow> wq_error" where
  "insert_index_out_of_range ex v = got1 ex v (domain_error ''insert index is out of range'')"

definition dict_insert_destinations ::
  "(wq_value \<Rightarrow> ustr) \<Rightarrow> wq_value entries \<Rightarrow> nat \<Rightarrow> wq_error + (nat \<times> ustr) list" where
  "dict_insert_destinations ex dsts len =
     collect_results (map (\<lambda>(key, idx).
       case Option.bind (int_arg_to_i64 idx) (\<lambda>raw. normalize_insert_idx raw len) of
         Some i \<Rightarrow> Inr (i, key) | None \<Rightarrow> Inl (insert_index_out_of_range ex idx)) dsts)"

fun shift_insert_loop :: "nat \<Rightarrow> (nat \<times> ustr \<times> wq_value) list \<Rightarrow> wq_value entries \<Rightarrow> wq_value entries option" where
  "shift_insert_loop offset [] m = Some m"
| "shift_insert_loop offset ((idx, key, v) # ops) m =
     Option.bind (map_shift_insert (idx + offset) key v m) (shift_insert_loop (Suc offset) ops)"

definition dict_shift_insert_many ::
  "wq_value entries \<Rightarrow> (nat \<times> ustr \<times> wq_value) list \<Rightarrow> wq_value entries option" where
  "dict_shift_insert_many m ops = shift_insert_loop 0 (sort_key fst ops) m"

definition edit_dict :: "wq_value entries option \<Rightarrow> edit" where
  "edit_dict r = (case r of None \<Rightarrow> None | Some m \<Rightarrow> edited (VDict m))"

definition insert_into_dict :: "(wq_value \<Rightarrow> ustr) \<Rightarrow> wq_value entries \<Rightarrow> wq_value \<Rightarrow> wq_value option \<Rightarrow> edit" where
  "insert_into_dict ex m xs dsts =
     (case dsts of
        Some (VDict d) \<Rightarrow>
          (case dict_insert_destinations ex d (length m) of
             Inl e \<Rightarrow> refused e (VDict m)
           | Inr destinations \<Rightarrow>
               if destinations = [] then edited (VDict m)
               else (case dict_insert_values xs (length destinations) of
                 Inl e \<Rightarrow> refused e (VDict m)
               | Inr vals \<Rightarrow>
                   edit_dict (dict_shift_insert_many m
                     (map (\<lambda>((idx, key), v). (idx, key, v)) (zip destinations vals)))))
      | _ \<Rightarrow>
          (case parse_insert_positions ex dsts (length m) of
             Inl e \<Rightarrow> refused e (VDict m)
           | Inr (positions, multi) \<Rightarrow>
               if positions = [] then edited (VDict m)
               else if multi then
                 (case dict_insert_entries xs (length positions) of
                    Inl e \<Rightarrow> refused e (VDict m)
                  | Inr kvs \<Rightarrow>
                      edit_dict (dict_shift_insert_many m
                        (map (\<lambda>(idx, key, v). (idx, key, v)) (zip positions kvs))))
               else
                 (case xs of
                    VDict kvs \<Rightarrow>
                      edit_dict (dict_shift_insert_many m (map (\<lambda>(key, v). (hd positions, key, v)) kvs))
                  | _ \<Rightarrow> refused (got1 ex xs (expected (R_Type TN_Dict) (new_error W_Domain)))
                           (VDict m))))"

definition insert_in_place :: "(wq_value \<Rightarrow> ustr) \<Rightarrow> wq_value \<Rightarrow> wq_value \<Rightarrow> wq_value option \<Rightarrow> edit" where
  "insert_in_place ex target xs dsts =
     (let data = materialize_int_range target in
      if is_string data then
        (case insert_string_in_place ex data dsts xs of Inl e \<Rightarrow> refused e data | Inr d \<Rightarrow> edited d)
      else
        (case data of
           VList vs \<Rightarrow> insert_into_list ex vs xs dsts
         | VIntList is \<Rightarrow>
             insert_into_packed ex VIntList VInt exact_int_insert_pairwise exact_int_insert_items is xs dsts
         | VBoolList bs \<Rightarrow> insert_into_packed ex VBoolList VBool bool_insert_pairwise bool_insert_items bs xs dsts
         | VFloatList fs \<Rightarrow> insert_into_packed ex VFloatList VFloat float_insert_pairwise float_insert_items fs xs dsts
         | VDict m \<Rightarrow> insert_into_dict ex m xs dsts
         | _ \<Rightarrow> refused (got1 ex data (expected (one_of [R_Type TN_String, R_Type TN_List, R_Type TN_Dict])
                   (new_error W_Domain))) data))"

section \<open>Popping\<close>

definition parse_pop_count :: "(wq_value \<Rightarrow> ustr) \<Rightarrow> wq_value \<Rightarrow> wq_error + nat" where
  "parse_pop_count ex arg =
     (let bad = Inl (got1 ex arg (expected (non_negative (R_Type TN_Int)) (new_error W_Domain))) in
      case arg of VInt n \<Rightarrow> if 0 \<le> sint n then Inr (nat (sint n)) else bad | _ \<Rightarrow> bad)"

text \<open>What a list of removed elements becomes: its only element when one was asked for.\<close>

definition popped_packed :: "('a list \<Rightarrow> wq_value) \<Rightarrow> ('a \<Rightarrow> wq_value) \<Rightarrow> nat \<Rightarrow> 'a list \<Rightarrow> wq_value" where
  "popped_packed pack con n removed =
     (if n = 1 then (case removed of [] \<Rightarrow> empty_list_value | x # _ \<Rightarrow> con x) else pack removed)"

text \<open>The loop over a dictionary takes its last entry each time; the values are then reversed.\<close>

fun pop_dict_loop :: "nat \<Rightarrow> wq_value entries \<Rightarrow> wq_value list \<Rightarrow> wq_value list \<times> wq_value entries" where
  "pop_dict_loop 0 m removed = (rev removed, m)"
| "pop_dict_loop (Suc k) m removed = pop_dict_loop k (butlast m) (removed @ [snd (last m)])"

definition pop_packed :: "('a list \<Rightarrow> wq_value) \<Rightarrow> ('a \<Rightarrow> wq_value) \<Rightarrow> nat \<Rightarrow> 'a list \<Rightarrow> wq_value \<times> wq_value" where
  "pop_packed pack con n xs =
     (let split = length xs - n in (popped_packed pack con n (drop split xs), pack (take split xs)))"

definition pop_string :: "nat \<Rightarrow> ustr \<Rightarrow> wq_value \<times> wq_value" where
  "pop_string n s =
     (if length s \<le> n then (VString s, VString [])
      else let split = length s - n in
        ((if n = 1 then VChar (hd (drop split s)) else VString (drop split s)), VString (take split s)))"

definition pop_in_place :: "wq_value \<Rightarrow> nat \<Rightarrow> wq_value \<times> wq_value" where
  "pop_in_place target n =
     (let data = materialize_int_range target in
      if n = 0 then (empty_list_value, data)
      else case data of
        VString s \<Rightarrow> pop_string n s
      | VIntList is \<Rightarrow> pop_packed VIntList VInt n is
      | VBoolList bs \<Rightarrow> pop_packed VBoolList VBool n bs
      | VFloatList fs \<Rightarrow> pop_packed VFloatList VFloat n fs
      | VList vs \<Rightarrow>
          (let split = length vs - n
           in (popped_packed from_items id n (drop split vs), VList (take split vs)))
      | VDict m \<Rightarrow>
          (case pop_dict_loop (min n (length m)) m [] of
             (removed, m') \<Rightarrow> (popped_packed from_items id n removed, VDict m'))
      | _ \<Rightarrow> (data, empty_list_value))"

section \<open>Removal\<close>

text \<open>\<open>Vec::remove\<close>, in descending order of the positions.\<close>

definition remove_at :: "'a list \<Rightarrow> nat \<Rightarrow> 'a list" where
  "remove_at xs i = take i xs @ drop (Suc i) xs"

definition remove_descending :: "'a list \<Rightarrow> nat list \<Rightarrow> 'a list" where
  "remove_descending xs ps = foldl remove_at xs (rev (sort ps))"

text \<open>The arms of strings and lists: \<open>pack\<close> is the variant, \<open>con\<close> the variant of its elements.\<close>

definition remove_from_list ::
  "(wq_value \<Rightarrow> ustr) \<Rightarrow> ('a list \<Rightarrow> wq_value) \<Rightarrow> ('a \<Rightarrow> wq_value) \<Rightarrow> 'a list \<Rightarrow> wq_value \<Rightarrow>
   (wq_error + wq_value) \<times> wq_value" where
  "remove_from_list ex pack con xs idx =
     (case parse_remove_positions ex idx (length xs) of
        Inl e \<Rightarrow> (Inl e, pack xs)
      | Inr (positions, multi) \<Rightarrow>
          if multi then
            (case ensure_unique_positions positions ''remove indices'' of
               Some e \<Rightarrow> (Inl e, pack xs)
             | None \<Rightarrow> (Inr (pack (map ((!) xs) positions)), pack (remove_descending xs positions)))
          else (Inr (con (xs ! hd positions)), pack (remove_at xs (hd positions))))"

definition missing_dict_key_or_position :: "(wq_value \<Rightarrow> ustr) \<Rightarrow> wq_value \<Rightarrow> wq_error" where
  "missing_dict_key_or_position ex v = got1 ex v (domain_error ''dict key or position does not exist'')"

definition dict_key_requirement :: requirement where
  "dict_key_requirement = one_of [R_Type TN_Tag, R_Type TN_Int]"

text \<open>The key at a position, with the value the error reports.\<close>

definition dict_key_at :: "(wq_value \<Rightarrow> ustr) \<Rightarrow> wq_value \<Rightarrow> i64 option \<Rightarrow> wq_value entries \<Rightarrow> wq_error + ustr" where
  "dict_key_at ex reported i m =
     (case Option.bind (Option.bind i (\<lambda>i. normalize_remove_idx i (length m))) (nth_opt m) of
        Some (key, _) \<Rightarrow> Inr key | None \<Rightarrow> Inl (missing_dict_key_or_position ex reported))"

definition dict_remove_item :: "(wq_value \<Rightarrow> ustr) \<Rightarrow> wq_value entries \<Rightarrow> wq_value \<Rightarrow> wq_error + ustr" where
  "dict_remove_item ex m item =
     (case item of
        VTag key \<Rightarrow> if map_of m key \<noteq> None then Inr key else Inl (missing_dict_key_or_position ex item)
      | VInt i \<Rightarrow> dict_key_at ex item (Some i) m
      | VBigInt b \<Rightarrow> dict_key_at ex item (to_i64 b) m
      | _ \<Rightarrow> Inl (got1 ex item (attach_note (lit ''for a dict key'') (expected dict_key_requirement (new_error W_Domain)))))"

definition dict_remove_keys :: "(wq_value \<Rightarrow> ustr) \<Rightarrow> wq_value \<Rightarrow> wq_value entries \<Rightarrow> wq_error + ustr list \<times> bool" where
  "dict_remove_keys ex idx m =
     (let one = (\<lambda>r. case r of Inl e \<Rightarrow> Inl e | Inr key \<Rightarrow> Inr ([key], False));
          many = (\<lambda>r. case r of Inl e \<Rightarrow> Inl e | Inr keys \<Rightarrow> Inr (keys, True)) in
      case idx of
        VTag _ \<Rightarrow> one (dict_remove_item ex m idx)
      | VInt _ \<Rightarrow> one (dict_remove_item ex m idx)
      | VBigInt _ \<Rightarrow> one (dict_remove_item ex m idx)
      | VIntList idxs \<Rightarrow> many (collect_results (map (\<lambda>i. dict_key_at ex (VInt i) (Some i) m) idxs))
      | VIntRange r \<Rightarrow> many (collect_results (map (\<lambda>i. dict_key_at ex (VInt i) (Some i) m) (ir_to_vec r)))
      | VList vs \<Rightarrow> many (collect_results (map (dict_remove_item ex m) vs))
      | _ \<Rightarrow> Inl (got1 ex idx (attach_note (lit ''for a dict key'')
               (expected (one_of [R_Type TN_Tag, R_Type TN_Int, R_List dict_key_requirement]) (new_error W_Domain)))))"

fun dict_remove_loop ::
  "(wq_value \<Rightarrow> ustr) \<Rightarrow> wq_value \<Rightarrow> ustr list \<Rightarrow> wq_value entries \<Rightarrow> wq_value list \<Rightarrow>
   (wq_error + wq_value list) \<times> wq_value entries" where
  "dict_remove_loop ex idx [] m removed = (Inr removed, m)"
| "dict_remove_loop ex idx (key # keys) m removed =
     (case map_shift_remove key m of
        None \<Rightarrow> (Inl (missing_dict_key_or_position ex idx), m)
      | Some (v, m') \<Rightarrow> dict_remove_loop ex idx keys m' (removed @ [v]))"

definition remove_from_dict ::
  "(wq_value \<Rightarrow> ustr) \<Rightarrow> wq_value entries \<Rightarrow> wq_value \<Rightarrow> (wq_error + wq_value) \<times> wq_value" where
  "remove_from_dict ex m idx =
     (case dict_remove_keys ex idx m of
        Inl e \<Rightarrow> (Inl e, VDict m)
      | Inr (keys, multi) \<Rightarrow>
          if adjacent_equal (sort keys) then (Inl (domain_error ''dict remove keys must be unique''), VDict m)
          else
            (case dict_remove_loop ex idx keys m [] of
               (Inl e, m') \<Rightarrow> (Inl e, VDict m')
             | (Inr removed, m') \<Rightarrow>
                 (Inr (if multi then from_items removed
                       else case removed of [] \<Rightarrow> empty_list_value | v # _ \<Rightarrow> v), VDict m')))"

definition remove_from_atom ::
  "(wq_value \<Rightarrow> ustr) \<Rightarrow> wq_value \<Rightarrow> wq_value \<Rightarrow> (wq_error + wq_value) \<times> wq_value" where
  "remove_from_atom ex atom idx =
     (case parse_remove_positions ex idx 1 of
        Inl e \<Rightarrow> (Inl e, atom)
      | Inr (positions, multi) \<Rightarrow>
          if multi then
            (case ensure_unique_positions positions ''remove indices'' of
               Some e \<Rightarrow> (Inl e, atom)
             | None \<Rightarrow> (Inr (from_items (map (\<lambda>_. atom) positions)), empty_list_value))
          else (Inr atom, empty_list_value))"

definition remove_in_place ::
  "(wq_value \<Rightarrow> ustr) \<Rightarrow> wq_value \<Rightarrow> wq_value \<Rightarrow> (wq_error + wq_value) \<times> wq_value" where
  "remove_in_place ex target idx =
     (let data = materialize_int_range target in
      case data of
        VString s \<Rightarrow> remove_from_list ex VString VChar s idx
      | VIntList is \<Rightarrow> remove_from_list ex VIntList VInt is idx
      | VBoolList bs \<Rightarrow> remove_from_list ex VBoolList VBool bs idx
      | VFloatList fs \<Rightarrow> remove_from_list ex VFloatList VFloat fs idx
      | VList vs \<Rightarrow> remove_from_list ex VList id vs idx
      | VDict m \<Rightarrow> remove_from_dict ex m idx
      | _ \<Rightarrow> remove_from_atom ex data idx)"

end
