(* ===== verification/Access_Facts.thy ===== *)
theory Access_Facts
  imports Value_Access Value_Eq
begin

text \<open>
  What indexing and indexed assignment promise, stated over the elements of a list (\<open>items\<close>) and the
  entries of a dictionary: how a position is named, what an assignment leaves behind on every branch, that a
  failing one changes nothing, and that the two access paths of the interpreter agree.
\<close>

section \<open>Positions\<close>

lemma normalize_idx_iff:
  "normalize_idx i len = Some j \<longleftrightarrow> j < len \<and> (sint i = int j \<or> sint i = int j - int len)"
  by (cases "0 \<le> sint i") (auto simp: normalize_idx_def Let_def)

lemma resolve_single_atom: "resolve_single_idx key len = Option.bind (exact_int_atom key) (\<lambda>i. normalize_idx i len)"
  by (cases key) (simp_all add: resolve_single_idx_def exact_int_atom_def)

lemma int_arg_atom: "int_arg_to_i64 = exact_int_atom"
  by (rule ext) (simp add: int_arg_to_i64_def exact_int_atom_def)

lemma resolve_single_bound: "resolve_single_idx key len = Some i \<Longrightarrow> i < len"
  by (auto simp: resolve_single_atom normalize_idx_iff Option.bind_eq_Some_conv)

lemma normalize_many_bounds: "normalize_many is len = Some idxs \<Longrightarrow> list_all (\<lambda>i. i < len) idxs"
  unfolding normalize_many_def
  by (drule those_map_nth) (auto simp: list_all_length normalize_idx_iff)

lemma resolve_many_bounds: "resolve_many_idx key len = Some idxs \<Longrightarrow> list_all (\<lambda>i. i < len) idxs"
  by (auto simp: resolve_many_idx_def Option.bind_eq_Some_conv normalize_many_bounds)

lemma resolve_many_list: "normalize_list_indices keys len = resolve_many_idx (VList keys) len"
  by (cases "those (map exact_int_atom keys)")
    (simp_all add: normalize_list_indices_def resolve_many_idx_def exact_int_seq_def int_arg_atom int_seq_vec_def)

section \<open>Writing positions\<close>

lemma length_write [simp]:
  "length (write_each xs idxs v) = length xs" "length (write_zip xs idxs vs) = length xs"
proof -
  show "length (write_each xs idxs v) = length xs"
    unfolding write_each_def by (induction idxs arbitrary: xs) simp_all
  have "length (foldl (\<lambda>xs (i, v). xs[i := v]) xs ps) = length xs" for ps
    by (induction ps arbitrary: xs) (auto split: prod.splits)
  then show "length (write_zip xs idxs vs) = length xs" by (simp add: write_zip_def)
qed

lemma map_write_each: "map f (write_each xs idxs v) = write_each (map f xs) idxs (f v)"
  unfolding write_each_def by (induction idxs arbitrary: xs) (simp_all add: map_update)

lemma map_write_zip: "map f (write_zip xs idxs vs) = write_zip (map f xs) idxs (map f vs)"
proof -
  have "map f (foldl (\<lambda>xs (i, v). xs[i := v]) xs ps) =
    foldl (\<lambda>xs (i, v). xs[i := v]) (map f xs) (map (map_prod id f) ps)" for ps
    by (induction ps arbitrary: xs) (auto simp: map_update split: prod.splits)
  then show ?thesis by (simp add: write_zip_def zip_map2 map_prod_def)
qed

lemma write_zip_each: "write_zip xs idxs (replicate (length idxs) v) = write_each xs idxs v"
  unfolding write_zip_def write_each_def by (induction idxs arbitrary: xs) simp_all

lemma nth_write_zip_other: "j \<notin> set idxs \<Longrightarrow> j < length xs \<Longrightarrow> write_zip xs idxs vs ! j = xs ! j"
  unfolding write_zip_def
proof (induction idxs arbitrary: xs vs)
  case (Cons i idxs)
  then show ?case by (cases vs) simp_all
qed simp

lemma nth_write_zip:
  "distinct idxs \<Longrightarrow> length vs = length idxs \<Longrightarrow> k < length idxs \<Longrightarrow> idxs ! k < length xs \<Longrightarrow>
   write_zip xs idxs vs ! (idxs ! k) = vs ! k"
proof (induction idxs arbitrary: xs vs k)
  case (Cons i idxs)
  then obtain v vs' where vs: "vs = v # vs'" by (cases vs) auto
  have step: "write_zip xs (i # idxs) vs = write_zip (xs[i := v]) idxs vs'" by (simp add: vs write_zip_def)
  show ?case
  proof (cases k)
    case 0
    then show ?thesis using Cons.prems(1,4) unfolding step by (simp add: vs nth_write_zip_other)
  next
    case (Suc l)
    then show ?thesis using Cons.IH [of vs' l "xs[i := v]"] Cons.prems unfolding step by (simp add: vs)
  qed
qed simp

lemma nth_write_each: "j < length xs \<Longrightarrow> write_each xs idxs v ! j = (if j \<in> set idxs then v else xs ! j)"
  unfolding write_each_def by (induction idxs arbitrary: xs) auto

lemma collect_facts:
  "collect_exact_ints vs = Some is \<Longrightarrow> vs = map VInt is"
  "collect_bools vs = Some bs \<Longrightarrow> vs = map VBool bs"
  "collect_floats vs = Some fs \<Longrightarrow> vs = map VFloat fs"
  "collect_chars vs = Some cs \<Longrightarrow> vs = map VChar cs"
proof -
  have pull: "those (map g vs) = Some ys \<Longrightarrow> (\<And>v y. g v = Some y \<Longrightarrow> v = f y) \<Longrightarrow> vs = map f ys"
    for g :: "wq_value \<Rightarrow> 'b option" and f ys
    by (drule those_map_nth) (auto simp: list_eq_iff_nth_eq)
  show "collect_exact_ints vs = Some is \<Longrightarrow> vs = map VInt is"
    unfolding collect_exact_ints_def by (rule pull) (auto split: wq_value.splits)
  show "collect_bools vs = Some bs \<Longrightarrow> vs = map VBool bs"
    unfolding collect_bools_def by (rule pull) (auto split: wq_value.splits)
  show "collect_floats vs = Some fs \<Longrightarrow> vs = map VFloat fs"
    unfolding collect_floats_def by (rule pull) (auto split: wq_value.splits)
  show "collect_chars vs = Some cs \<Longrightarrow> vs = map VChar cs"
    unfolding collect_chars_def char_of_def by (rule pull) (auto split: wq_value.splits)
qed

section \<open>Assignment to many positions\<close>

text \<open>The elements a right-hand side is spread into, which depends on how the target is stored, and the
  elements the assignment leaves.\<close>

definition spread_values :: "wq_value \<Rightarrow> wq_value \<Rightarrow> wq_value list option" where
  "spread_values t v =
     (case v of
        VList ys \<Rightarrow> Some ys
      | VIntList _ \<Rightarrow> (case t of VIntList _ \<Rightarrow> Some (items v) | VIntRange _ \<Rightarrow> Some (items v) | VList _ \<Rightarrow> Some (items v) | _ \<Rightarrow> None)
      | VIntRange _ \<Rightarrow> (case t of VIntList _ \<Rightarrow> Some (items v) | VIntRange _ \<Rightarrow> Some (items v) | VList _ \<Rightarrow> Some (items v) | _ \<Rightarrow> None)
      | VFloatList _ \<Rightarrow> (case t of VFloatList _ \<Rightarrow> Some (items v) | VList _ \<Rightarrow> Some (items v) | _ \<Rightarrow> None)
      | VBoolList _ \<Rightarrow> (case t of VBoolList _ \<Rightarrow> Some (items v) | VList _ \<Rightarrow> Some (items v) | _ \<Rightarrow> None)
      | _ \<Rightarrow> None)"

definition bulk_result :: "wq_value \<Rightarrow> nat list \<Rightarrow> wq_value \<Rightarrow> wq_value list option" where
  "bulk_result t idxs v =
     (case spread_values t v of
        Some ys \<Rightarrow> if length idxs = length ys then Some (write_zip (items t) idxs ys) else None
      | None \<Rightarrow> Some (write_each (items t) idxs v))"

lemmas write_maps = map_write_each map_write_zip map_update

lemma store_packed_items:
  "items (store_packed VIntList (KeepPacked is)) = map VInt is"
  "items (store_packed VFloatList (KeepPacked fs)) = map VFloat fs"
  "items (store_packed VBoolList (KeepPacked bs)) = map VBool bs"
  "items (store_packed pack (Promote vs)) = vs"
  by (simp_all add: store_packed_def items_simps)

lemmas bulk_defs = bulk_result_def spread_values_def assign_packed_list_indices_def items_simps
  packed_int_seq_def int_seq_len_def int_seq_vec_def

lemma assign_ints:
  "idxs \<noteq> [] \<Longrightarrow> map_option items (assign_packed_list_indices (VIntList xs) idxs Mode_Bulk v) =
     bulk_result (VIntList xs) idxs v"
  by (cases v)
    (auto simp: bulk_defs assign_int_list_indices_def store_packed_items write_maps dest: collect_facts
      split: option.splits)

lemma assign_bools:
  "idxs \<noteq> [] \<Longrightarrow> map_option items (assign_packed_list_indices (VBoolList xs) idxs Mode_Bulk v) =
     bulk_result (VBoolList xs) idxs v"
  by (cases v)
    (auto simp: bulk_defs assign_bool_list_indices_def store_packed_items write_maps dest: collect_facts
      split: option.splits)

lemma assign_floats:
  "idxs \<noteq> [] \<Longrightarrow> map_option items (assign_packed_list_indices (VFloatList xs) idxs Mode_Bulk v) =
     bulk_result (VFloatList xs) idxs v"
  by (cases v)
    (auto simp: bulk_defs assign_float_list_indices_def store_packed_items write_maps dest: collect_facts
      split: option.splits)

lemma assign_chars: "map_option items (assign_string_bulk s idxs v) = bulk_result (VString s) idxs v"
  by (cases v)
    (auto simp: bulk_defs assign_string_bulk_def write_maps dest: collect_facts split: option.splits)

lemma assign_values: "assign_list_bulk xs idxs v = bulk_result (VList xs) idxs v"
  by (cases v)
    (simp_all add: bulk_defs assign_list_bulk_def list_storage_from_value_def storage_len_def storage_values_def)

lemma assign_single_items:
  "map_option items (assign_packed_list_indices (VIntList is) [i] Mode_Single v) = Some ((items (VIntList is))[i := v])"
  "map_option items (assign_packed_list_indices (VBoolList bs) [i] Mode_Single v) = Some ((items (VBoolList bs))[i := v])"
  "map_option items (assign_packed_list_indices (VFloatList fs) [i] Mode_Single v) = Some ((items (VFloatList fs))[i := v])"
  "items (assign_string_single s i v) = (items (VString s))[i := v]"
  by (cases v; simp add: bulk_defs assign_int_list_indices_def assign_bool_list_indices_def
      assign_float_list_indices_def assign_string_single_def store_packed_items write_maps)+

text \<open>The two kinds of assignment to a list: at one position, and at the positions of a bulk key. Only a
  packed list refuses an empty bulk key.\<close>

definition packed_target :: "wq_value \<Rightarrow> bool" where
  "packed_target t = (case t of
     VIntList _ \<Rightarrow> True | VIntRange _ \<Rightarrow> True | VFloatList _ \<Rightarrow> True | VBoolList _ \<Rightarrow> True | _ \<Rightarrow> False)"

definition bulk_assigned :: "wq_value \<Rightarrow> nat list option \<Rightarrow> wq_value \<Rightarrow> wq_value list option" where
  "bulk_assigned t pos v =
     (case pos of
        None \<Rightarrow> None
      | Some idxs \<Rightarrow> if packed_target t \<and> idxs = [] then None else bulk_result t idxs v)"

definition list_assigned :: "wq_value \<Rightarrow> wq_value \<Rightarrow> wq_value \<Rightarrow> wq_value list option" where
  "list_assigned t key v =
     (case resolve_single_idx key (value_len t) of
        Some i \<Rightarrow> Some ((items t)[i := v])
      | None \<Rightarrow> bulk_assigned t (resolve_many_idx key (value_len t)) v)"

definition stored :: "wq_value \<Rightarrow> bool" where
  "stored v \<longleftrightarrow> is_list v \<and> materialize_int_range v = v"

definition describes :: "wq_value \<times> bool \<Rightarrow> wq_value \<Rightarrow> wq_value list option \<Rightarrow> bool" where
  "describes r t xs \<longleftrightarrow> snd r = (xs \<noteq> None) \<and> stored (fst r) \<and>
     (case xs of Some ys \<Rightarrow> items (fst r) = ys | None \<Rightarrow> fst r = materialize_int_range t)"

lemma stored_simps [simp]:
  "stored (VList xs)" "stored (VIntList is)" "stored (VFloatList fs)" "stored (VBoolList bs)" "stored (VString s)"
  by (simp_all add: stored_def is_list_def materialize_int_range_def)

lemma stored_packed [simp]:
  "stored (store_packed VIntList a)" "stored (store_packed VFloatList b)" "stored (store_packed VBoolList c)"
  by (cases a; cases b; cases c; simp add: store_packed_def)+

lemma packed_stored: "assign_packed_list_indices data idxs mode v = Some new \<Longrightarrow> stored new"
  by (cases data) (auto simp: assign_packed_list_indices_def split: if_splits)

lemma string_stored: "assign_string_bulk s idxs v = Some new \<Longrightarrow> stored new"
  by (cases v) (auto simp: assign_string_bulk_def split: option.splits if_splits)

lemma describes_updated:
  assumes "materialize_int_range t = data" "stored data" "\<And>new. res = Some new \<Longrightarrow> stored new"
    "map_option items res = xs"
  shows "describes (updated data res) t xs"
  using assms by (cases res) (auto simp: describes_def updated_def)

lemma materialize_simps [simp]:
  "materialize_int_range (VIntRange r) = VIntList (ir_to_vec r)" "materialize_int_range (VIntList is) = VIntList is"
  "materialize_int_range (VFloatList fs) = VFloatList fs" "materialize_int_range (VBoolList bs) = VBoolList bs"
  "materialize_int_range (VList xs) = VList xs" "materialize_int_range (VString s) = VString s"
  "materialize_int_range (VDict m) = VDict m"
  by (simp_all add: materialize_int_range_def)

lemma bulk_range: "bulk_result (VIntRange r) idxs v = bulk_result (VIntList (ir_to_vec r)) idxs v"
  by (cases v) (simp_all add: bulk_defs)

lemma value_len_items: "is_list t \<Longrightarrow> value_len t = length (items t)"
  unfolding value_len_def items_def by (cases "seq_from_value t") (auto simp: list_has_seq)

text \<open>Every storage: the positions, then the write.\<close>

definition packed_bulk :: "wq_value \<Rightarrow> nat list option \<Rightarrow> wq_value \<Rightarrow> wq_value option" where
  "packed_bulk data pos v = Option.bind pos (\<lambda>idxs. assign_packed_list_indices data idxs Mode_Bulk v)"

lemma packed_bulk_items:
  assumes "packed_target data" "stored data"
  shows "map_option items (packed_bulk data pos v) = bulk_assigned data pos v"
proof (cases pos)
  case (Some idxs)
  have "map_option items (assign_packed_list_indices data [] Mode_Bulk v) = None"
    by (simp add: assign_packed_list_indices_def)
  moreover have "map_option items (assign_packed_list_indices data idxs Mode_Bulk v) = bulk_result data idxs v"
    if "idxs \<noteq> []"
    using assms assign_ints [OF that] assign_bools [OF that] assign_floats [OF that]
    by (cases data) (simp_all add: packed_target_def stored_def)
  ultimately show ?thesis using assms(1) Some by (auto simp: packed_bulk_def bulk_assigned_def)
qed (simp add: packed_bulk_def bulk_assigned_def)

definition assign_positions :: "wq_value \<Rightarrow> nat option \<Rightarrow> nat list option \<Rightarrow> wq_value \<Rightarrow> wq_value option" where
  "assign_positions data one many v =
     (case data of
        VString s \<Rightarrow> (case one of Some i \<Rightarrow> Some (assign_string_single s i v)
          | None \<Rightarrow> Option.bind many (\<lambda>idxs. assign_string_bulk s idxs v))
      | VList xs \<Rightarrow> (case one of Some i \<Rightarrow> Some (VList (xs[i := v]))
          | None \<Rightarrow> Option.bind many (\<lambda>idxs. map_option VList (assign_list_bulk xs idxs v)))
      | _ \<Rightarrow> (case one of Some i \<Rightarrow> assign_packed_list_indices data [i] Mode_Single v
          | None \<Rightarrow> packed_bulk data many v))"

lemma assign_positions_items:
  assumes "stored data"
  shows "map_option items (assign_positions data one many v) =
    (case one of Some i \<Rightarrow> Some ((items data)[i := v]) | None \<Rightarrow> bulk_assigned data many v)"
proof (cases "packed_target data")
  case True
  then show ?thesis using packed_bulk_items [OF True assms, of many v] assms
    by (cases data; cases one) (simp_all add: packed_target_def assign_positions_def assign_single_items stored_def)
next
  case False
  then consider s where "data = VString s" | xs where "data = VList xs"
    using assms by (cases data) (simp_all add: packed_target_def stored_def is_list_def)
  then show ?thesis
  proof cases
    case 1
    then show ?thesis
      by (cases one; cases many)
        (simp_all add: assign_positions_def bulk_assigned_def packed_target_def assign_chars assign_single_items)
  next
    case 2
    then show ?thesis
      by (cases one; cases many)
        (simp_all add: assign_positions_def bulk_assigned_def packed_target_def assign_values items_simps
          option.map_comp comp_def option.map_ident)
  qed
qed

lemma assign_positions_stored: "assign_positions data one many v = Some new \<Longrightarrow> stored data \<Longrightarrow> stored new"
  by (cases data; cases one)
    (auto simp: assign_positions_def packed_bulk_def Option.bind_eq_Some_conv stored_def is_list_def
      assign_string_single_def materialize_int_range_def dest!: packed_stored string_stored split: wq_value.splits)

lemma assign_by_index_positions:
  assumes "is_list t"
  shows "assign_by_index t key v =
    updated (materialize_int_range t) (assign_positions (materialize_int_range t)
      (resolve_single_idx key (value_len t)) (resolve_many_idx key (value_len t)) v)"
  using assms value_len_items [OF assms]
  by (cases t; cases "resolve_single_idx key (value_len t)")
    (simp_all add: is_list_def assign_by_index_def packed_list_len_def assign_positions_def packed_bulk_def items_simps Let_def)

lemma assign_by_indices_positions:
  assumes "is_list t" "1 < length keys"
  shows "assign_by_indices t keys v =
    updated (materialize_int_range t) (assign_positions (materialize_int_range t) None
      (resolve_many_idx (VList keys) (value_len t)) v)"
proof -
  obtain a b ks where "keys = a # b # ks" using assms(2) by (cases keys; cases "tl keys") auto
  then show ?thesis
    using assms(1) value_len_items [OF assms(1)] resolve_many_list [of keys]
    by (cases t) (simp_all add: is_list_def assign_by_indices_def packed_list_len_def assign_positions_def
        packed_bulk_def items_simps Let_def)
qed

lemma materialize_list: "is_list t \<Longrightarrow> stored (materialize_int_range t) \<and> items (materialize_int_range t) = items t"
  by (cases t) (simp_all add: is_list_def items_simps)

lemma bulk_materialize: "is_list t \<Longrightarrow> bulk_assigned (materialize_int_range t) = bulk_assigned t"
  by (cases t) (auto simp: is_list_def bulk_assigned_def packed_target_def bulk_range fun_eq_iff split: option.splits)

lemma assign_by_index_describes:
  assumes "is_list t"
  shows "describes (assign_by_index t key v) t (list_assigned t key v)"
  unfolding assign_by_index_positions [OF assms]
  using materialize_list [OF assms] bulk_materialize [OF assms]
  by (intro describes_updated) (auto simp: assign_positions_items list_assigned_def split: option.splits
      dest: assign_positions_stored)

lemma assign_by_indices_describes:
  assumes "is_list t" "1 < length keys"
  shows "describes (assign_by_indices t keys v) t (bulk_assigned t (resolve_many_idx (VList keys) (value_len t)) v)"
  unfolding assign_by_indices_positions [OF assms]
  using materialize_list [OF assms(1)] bulk_materialize [OF assms(1)]
  by (intro describes_updated) (auto simp: assign_positions_items split: option.splits dest: assign_positions_stored)

section \<open>Reading positions\<close>

text \<open>A list whose range, when it is one, is one that the program builds.\<close>

definition list_ok :: "wq_value \<Rightarrow> bool" where
  "list_ok t = (case seq_from_value t of Some s \<Rightarrow> seq_ok s | None \<Rightarrow> False)"

lemma list_ok_list: "list_ok t \<Longrightarrow> is_list t"
  by (auto simp: list_ok_def list_has_seq split: option.splits)

lemma stored_ok: "stored t \<Longrightarrow> list_ok t"
  by (cases t) (simp_all add: stored_def is_list_def list_ok_def seq_from_value_def)

lemma resolve_single_none_many: "resolve_single_idx key len = Some i \<Longrightarrow> resolve_many_idx key len = Some [i]"
  by (cases key)
    (auto simp: resolve_single_idx_def resolve_many_idx_def exact_int_seq_def int_seq_vec_def normalize_many_def
      Option.bind_eq_Some_conv)

lemma index_single:
  assumes "list_ok t" "resolve_single_idx key (value_len t) = Some i"
  shows "index t key = Some (items t ! i)"
proof -
  obtain s where s: "seq_from_value t = Some s" "seq_ok s" using assms(1) by (auto simp: list_ok_def split: option.splits)
  have "i < seq_len s" using resolve_single_bound [OF assms(2)] by (simp add: value_len_def s)
  then have "seq_get s i = Some (items t ! i)" using s by (simp add: seq_get_nth items_def nth_opt_def)
  then show ?thesis using assms(2) by (simp add: index_def s value_len_def or_else_def)
qed

lemma gather_in_range:
  assumes "list_all (\<lambda>i. i < length xs) idxs"
  shows "those (map (nth_opt xs) idxs) = Some (map ((!) xs) idxs)"
  unfolding those_eq_Some_iff using assms by (auto simp: nth_opt_def list_all_iff)

lemma index_bulk:
  assumes "list_ok t" "resolve_single_idx key (value_len t) = None" "resolve_many_idx key (value_len t) = Some idxs"
  shows "map_option items (index t key) = Some (map ((!) (items t)) idxs)"
proof -
  obtain s where s: "seq_from_value t = Some s" "seq_ok s" using assms(1) by (auto simp: list_ok_def split: option.splits)
  have "list_all (\<lambda>i. i < length (items t)) idxs"
    using resolve_many_bounds [OF assms(3)] value_len_items [OF list_ok_list [OF assms(1)]] by simp
  then have "map_option items (seq_gather s idxs) = Some (map ((!) (items t)) idxs)"
    using s by (simp add: seq_gather_items items_def gather_in_range)
  then show ?thesis using assms(2,3) by (simp add: index_def s value_len_def or_else_def)
qed

section \<open>What assignment promises\<close>

text \<open>C30: assignment to one position of a list, however the list is stored and whatever is written,
  succeeds, updates exactly that position, is read back by the same key, and leaves what any other key
  reads.\<close>

theorem assign_then_index:
  assumes "list_ok t" "resolve_single_idx key (value_len t) = Some i"
  shows "\<exists>t'. assign_by_index t key v = (t', True) \<and> items t' = (items t)[i := v] \<and>
    index t' key = Some v \<and>
    (\<forall>key' j. resolve_single_idx key' (value_len t) = Some j \<and> j \<noteq> i \<longrightarrow> index t' key' = index t key')"
proof -
  let ?r = "assign_by_index t key v"
  have l: "is_list t" by (rule list_ok_list) fact
  have d: "snd ?r \<and> stored (fst ?r) \<and> items (fst ?r) = (items t)[i := v]"
    using assign_by_index_describes [OF l, of key v] assms(2) by (simp add: describes_def list_assigned_def)
  then have ok: "list_ok (fst ?r)" by (simp add: stored_ok)
  have len: "value_len (fst ?r) = value_len t"
    using d value_len_items [OF l] value_len_items [OF list_ok_list [OF ok]] by simp
  have "i < length (items t)" using resolve_single_bound [OF assms(2)] value_len_items [OF l] by simp
  then have "index (fst ?r) key = Some v" using index_single [OF ok] assms(2) len d by simp
  moreover have "index (fst ?r) key' = index t key'" if "resolve_single_idx key' (value_len t) = Some j" "j \<noteq> i" for key' j
    using index_single [OF ok, of key' j] index_single [OF assms(1) that(1)] that len d by simp
  ultimately show ?thesis using d by (intro exI [of _ "fst ?r"]) (auto simp: prod_eq_iff)
qed

theorem assign_then_index_witness:
  "\<exists>t'. assign_by_index (VIntRange (new_int_range 5 2 3)) (VInt (- 1)) (VBool True) = (t', True) \<and>
    items t' = (items (VIntRange (new_int_range 5 2 3)))[2 := VBool True] \<and> index t' (VInt (- 1)) = Some (VBool True)"
proof -
  have "list_ok (VIntRange (new_int_range 5 2 3))"
    by (simp add: list_ok_def seq_from_value_def range_ok_def new_int_range_def fits_i64_def elem_def)
  moreover have "resolve_single_idx (VInt (- 1)) (value_len (VIntRange (new_int_range 5 2 3))) = Some 2"
    by (simp add: resolve_single_idx_def normalize_idx_def value_len_def seq_from_value_def seq_len_def new_int_range_def)
  ultimately show ?thesis using assign_then_index [of "VIntRange (new_int_range 5 2 3)" "VInt (- 1)" 2 "VBool True"]
    by blast
qed

text \<open>Assignment through a bulk key: with distinct positions and as many elements, the same key
  reads the elements back, and every other position keeps its element.\<close>

theorem bulk_assign_then_index:
  assumes "list_ok t" "resolve_single_idx key (value_len t) = None" "resolve_many_idx key (value_len t) = Some idxs"
    and "distinct idxs" "idxs \<noteq> []" "length ys = length idxs"
  shows "\<exists>t' w. assign_by_index t key (VList ys) = (t', True) \<and> index t' key = Some w \<and> items w = ys \<and>
    length (items t') = length (items t) \<and>
    (\<forall>j<length (items t). j \<notin> set idxs \<longrightarrow> items t' ! j = items t ! j)"
proof -
  let ?r = "assign_by_index t key (VList ys)"
  have l: "is_list t" by (rule list_ok_list) fact
  have d: "snd ?r \<and> stored (fst ?r) \<and> items (fst ?r) = write_zip (items t) idxs ys"
    using assign_by_index_describes [OF l, of key "VList ys"] assms
    by (simp add: describes_def list_assigned_def bulk_assigned_def bulk_result_def spread_values_def)
  then have ok: "list_ok (fst ?r)" by (simp add: stored_ok)
  have len: "value_len (fst ?r) = value_len t"
    using d value_len_items [OF l] value_len_items [OF list_ok_list [OF ok]] by simp
  have b: "list_all (\<lambda>i. i < length (items t)) idxs"
    using resolve_many_bounds [OF assms(3)] value_len_items [OF l] by simp
  have "map ((!) (write_zip (items t) idxs ys)) idxs = ys"
    using assms(4,6) b by (intro nth_equalityI) (auto simp: nth_write_zip list_all_length)
  then obtain w where "index (fst ?r) key = Some w" "items w = ys"
    using index_bulk [OF ok, of key idxs] assms(2,3) len d by auto
  then show ?thesis using d
    by (intro exI [of _ "fst ?r"] exI [of _ w]) (auto simp: prod_eq_iff nth_write_zip_other)
qed

theorem bulk_assign_then_index_witness:
  "\<exists>t' w. assign_by_index (VString [97, 98, 99]) (VIntList [2, 0]) (VList [VInt 1, VChar 120]) = (t', True) \<and>
    index t' (VIntList [2, 0]) = Some w \<and> items w = [VInt 1, VChar 120]"
proof -
  have "list_ok (VString [97, 98, 99])" by (simp add: list_ok_def seq_from_value_def)
  moreover have "resolve_single_idx (VIntList [2, 0]) (value_len (VString [97, 98, 99])) = None"
    "resolve_many_idx (VIntList [2, 0]) (value_len (VString [97, 98, 99])) = Some [2, 0]"
    by (simp_all add: resolve_single_idx_def resolve_many_idx_def exact_int_seq_def packed_int_seq_def int_seq_vec_def
        normalize_many_def normalize_idx_def value_len_def seq_from_value_def seq_len_def)
  ultimately show ?thesis
    using bulk_assign_then_index [of "VString [97, 98, 99]" "VIntList [2, 0]" "[2, 0]" "[VInt 1, VChar 120]"] by auto
qed

section \<open>Failing assignments\<close>

lemma dict_position_ok:
  "normalize_dict_bulk_key len key = Some k \<Longrightarrow> (case k of BK_Position i \<Rightarrow> i < len | _ \<Rightarrow> True)"
  by (cases key) (auto simp: normalize_dict_bulk_key_def normalize_idx_iff Option.bind_eq_Some_conv)

lemma dict_positions_ok:
  "normalize_dict_bulk_keys keys len = Some ks \<Longrightarrow> list_all (\<lambda>k. case k of BK_Position i \<Rightarrow> i < len | _ \<Rightarrow> True) ks"
  unfolding normalize_dict_bulk_keys_def
  by (drule those_map_nth) (auto simp: list_all_length intro!: dict_position_ok)

lemma length_map_insert: "length m \<le> length (map_insert k v m)"
  by (induction k v m rule: map_insert.induct) auto

lemma assign_entry_grows:
  assumes "case k of BK_Position i \<Rightarrow> i < length m | _ \<Rightarrow> True"
  shows "\<exists>m'. assign_dict_entry m k v = Some m' \<and> length m \<le> length m'"
  using assms length_map_insert by (cases k) (auto simp: assign_dict_entry_def map_set_index_def)

lemma assign_dict_loop_total:
  "list_all (\<lambda>kv. case fst kv of BK_Position i \<Rightarrow> i < length m | _ \<Rightarrow> True) kvs \<Longrightarrow> snd (assign_dict_loop m kvs)"
proof (induction kvs arbitrary: m)
  case (Cons kv kvs)
  obtain k v where kv: "kv = (k, v)" by (cases kv)
  from Cons.prems kv obtain m' where m': "assign_dict_entry m k v = Some m'" "length m \<le> length m'"
    using assign_entry_grows [of m k v] by auto
  have "list_all (\<lambda>kv. case fst kv of BK_Position i \<Rightarrow> i < length m' | _ \<Rightarrow> True) kvs"
    using Cons.prems m'(2) by (auto simp: list_all_iff split: dict_bulk_key.splits)
  then show ?case using Cons.IH m'(1) kv by simp
qed simp

lemma assign_dict_bulk_atomic:
  assumes "list_all (\<lambda>k. case k of BK_Position i \<Rightarrow> i < length m | _ \<Rightarrow> True) ks"
  shows "snd (assign_dict_bulk m ks v) \<or> assign_dict_bulk m ks v = (m, False)"
proof -
  have "snd (assign_dict_loop m (zip ks vs))" for vs
    by (rule assign_dict_loop_total) (use assms in \<open>auto simp: list_all_iff dest: set_zip_leftD\<close>)
  moreover have "snd (assign_dict_loop m (map (\<lambda>k. (k, v)) ks))"
    by (rule assign_dict_loop_total) (use assms in \<open>simp add: list.pred_map comp_def\<close>)
  ultimately show ?thesis by (auto simp: assign_dict_bulk_def split: option.splits)
qed

lemma many_positions_ok:
  "resolve_many_idx key len = Some idxs \<Longrightarrow>
   list_all (\<lambda>k. case k of BK_Position i \<Rightarrow> i < len | _ \<Rightarrow> True) (map BK_Position idxs)"
  by (drule resolve_many_bounds) (simp add: list.pred_map comp_def)

lemma assign_no_container:
  "\<not> is_container t \<Longrightarrow> assign_by_index t key v = (t, False) \<and> assign_by_indices t keys v = (t, False)"
proof -
  assume "\<not> is_container t"
  then have "assign_by_index t k v = (t, False)" for k
    by (cases t) (simp_all add: is_container_def is_list_def is_dict_def assign_by_index_def packed_list_len_def
        materialize_int_range_def)
  then show ?thesis using \<open>\<not> is_container t\<close>
    by (cases t) (auto simp: is_container_def is_list_def is_dict_def assign_by_indices_def packed_list_len_def
        materialize_int_range_def split: list.splits)
qed

definition dict_positions :: "nat \<Rightarrow> dict_bulk_key list \<Rightarrow> bool" where
  "dict_positions len ks \<longleftrightarrow> list_all (\<lambda>k. case k of BK_Position i \<Rightarrow> i < len | _ \<Rightarrow> True) ks"

definition dict_key_positions :: "wq_value \<Rightarrow> nat \<Rightarrow> dict_bulk_key list option" where
  "dict_key_positions key len =
     (case key of VList keys \<Rightarrow> normalize_dict_bulk_keys keys len
      | _ \<Rightarrow> map_option (map BK_Position) (resolve_many_idx key len))"

lemma dict_key_positions_ok: "dict_key_positions key len = Some ks \<Longrightarrow> dict_positions len ks"
  unfolding dict_positions_def
  by (cases key) (auto simp: dict_key_positions_def dict_positions_ok dest: many_positions_ok)

lemma assign_dict:
  assumes "\<And>k. key \<noteq> VTag k"
  shows "assign_by_index (VDict m) key v =
    (case resolve_single_idx key (length m) of
       Some i \<Rightarrow> (VDict (m[i := (fst (m ! i), v)]), True)
     | None \<Rightarrow> (case dict_key_positions key (length m) of
         None \<Rightarrow> (VDict m, False) | Some ks \<Rightarrow> map_prod VDict id (assign_dict_bulk m ks v)))"
  using assms resolve_single_bound [of key "length m"]
  by (cases "resolve_single_idx key (length m)"; cases key)
    (auto simp: assign_by_index_def packed_list_len_def updated_def map_set_index_def dict_key_positions_def
      resolve_single_idx_def)

lemma bulk_atomic_dict:
  "dict_positions (length m) ks \<Longrightarrow> snd (map_prod VDict id (assign_dict_bulk m ks v)) \<or>
     map_prod VDict id (assign_dict_bulk m ks v) = (VDict m, False)"
  using assign_dict_bulk_atomic [of m ks v] unfolding dict_positions_def
  by (cases "assign_dict_bulk m ks v") auto

lemma dict_assign_atomic:
  "snd (assign_by_index (VDict m) key v) \<or> assign_by_index (VDict m) key v = (VDict m, False)"
proof (cases "\<exists>k. key = VTag k")
  case True
  then show ?thesis by (auto simp: assign_by_index_def packed_list_len_def)
next
  case False
  then have e: "\<And>k. key \<noteq> VTag k" by blast
  show ?thesis unfolding assign_dict [OF e]
    by (auto split: option.splits dest!: dict_key_positions_ok dest: bulk_atomic_dict [THEN iffD1 [OF disj_commute]])
qed

lemma dict_assign_indices:
  "1 < length keys \<Longrightarrow> assign_by_indices (VDict m) keys v = assign_by_index (VDict m) (VList keys) v"
proof -
  assume "1 < length keys"
  then obtain a b ks where "keys = a # b # ks" by (cases keys; cases "tl keys") auto
  then show ?thesis
    by (simp add: assign_by_indices_def assign_by_index_def packed_list_len_def resolve_single_idx_def Let_def)
qed

section \<open>The two access paths\<close>

lemma index_many_list: "is_container t \<Longrightarrow> index_many t keys = index t (VList keys)"
proof -
  assume t: "is_container t"
  show ?thesis
  proof (cases "seq_from_value t")
    case (Some s)
    then show ?thesis
      by (simp add: index_many_def index_def resolve_single_idx_def resolve_many_list or_else_def)
  next
    case None
    then obtain m where m: "t = VDict m" using t by (cases t) (simp_all add: is_container_def is_list_def is_dict_def seq_from_value_def)
    have int: "index_dict_key m k = Option.bind (normalize_idx i (length m)) (dict_at m)"
      if "exact_int_atom k = Some i" for k i
      using that by (cases k) (simp_all add: exact_int_atom_def index_dict_key_def)
    have "map_option from_items (those (map (index_dict_key m) keys)) =
        Option.bind (resolve_many_idx (VList keys) (length m)) (\<lambda>idxs. map_option from_items (those (map (dict_at m) idxs)))"
      if some: "resolve_many_idx (VList keys) (length m) \<noteq> None"
    proof -
      obtain idxs where idxs: "resolve_many_idx (VList keys) (length m) = Some idxs" using some by auto
      then obtain raw where raw: "map exact_int_atom keys = map Some raw"
        and norm: "map (\<lambda>i. normalize_idx i (length m)) raw = map Some idxs"
        by (auto simp: resolve_many_idx_def exact_int_seq_def int_seq_vec_def normalize_many_def
            those_eq_Some_iff Option.bind_eq_Some_conv)
      have "map (index_dict_key m) keys = map (dict_at m) idxs"
        using raw norm by (auto simp: list_eq_iff_nth_eq int)
      then show ?thesis by (simp add: idxs)
    qed
    then show ?thesis unfolding m
      by (cases "resolve_many_idx (VList keys) (length m)")
        (auto simp: index_many_def index_def seq_from_value_def resolve_single_idx_def or_else_def split: option.splits)
  qed
qed

lemma assign_indices_list:
  "1 < length keys \<Longrightarrow> assign_by_indices t keys v = assign_by_index t (VList keys) v"
proof -
  assume k: "1 < length keys"
  show ?thesis
  proof (cases "is_list t")
    case True
    show ?thesis unfolding assign_by_indices_positions [OF True k] assign_by_index_positions [OF True]
      by (simp add: resolve_single_idx_def)
  next
    case False
    then show ?thesis using dict_assign_indices [OF k] assign_no_container [of t]
      by (cases t) (simp_all add: is_container_def is_list_def is_dict_def)
  qed
qed

text \<open>C33: an access with several keys \<open>x[a;b;c]\<close> takes a path of its own in the interpreter; it behaves
  exactly as the access with the keys collected in one list, for reading any list or dictionary and for
  assigning to any value.\<close>

theorem many_keys_as_list:
  "(is_container t \<longrightarrow> index_many t keys = index t (VList keys)) \<and>
   (1 < length keys \<longrightarrow> assign_by_indices t keys v = assign_by_index t (VList keys) v)"
  using index_many_list assign_indices_list by blast

theorem many_keys_as_list_witness:
  "index_many (VString [97, 98, 99]) [VInt 2, VInt 0] = index (VString [97, 98, 99]) (VList [VInt 2, VInt 0]) \<and>
   assign_by_indices (VString [97, 98, 99]) [VInt 2, VInt 0] (VChar 120) =
     assign_by_index (VString [97, 98, 99]) (VList [VInt 2, VInt 0]) (VChar 120)"
  using many_keys_as_list [of "VString [97, 98, 99]" "[VInt 2, VInt 0]" "VChar 120"]
  by (simp add: is_container_def is_list_def)

section \<open>Every branch of an assignment\<close>

text \<open>C31: the result of assigning to a list, on every branch: which keys and values are refused, which
  elements are left otherwise (\<open>list_assigned\<close>), and that a refused assignment keeps the elements.\<close>

theorem list_assignment_exact:
  assumes "is_list t"
  shows "assign_by_index t key v =
      (case list_assigned t key v of
         Some ys \<Rightarrow> (fst (assign_by_index t key v), True) | None \<Rightarrow> (materialize_int_range t, False)) \<and>
    items (fst (assign_by_index t key v)) = (case list_assigned t key v of Some ys \<Rightarrow> ys | None \<Rightarrow> items t)"
  using assign_by_index_describes [OF assms, of key v] materialize_list [OF assms]
  by (cases "assign_by_index t key v") (auto simp: describes_def split: option.splits)

theorem list_assignment_exact_witness:
  "assign_by_index (VBoolList [True, False]) (VInt 7) (VInt 1) = (VBoolList [True, False], False)"
proof -
  have "is_list (VBoolList [True, False])" by (simp add: is_list_def)
  moreover have "list_assigned (VBoolList [True, False]) (VInt 7) (VInt 1) = None"
    by (simp add: list_assigned_def resolve_single_idx_def normalize_idx_def value_len_def seq_from_value_def seq_len_def
        resolve_many_idx_def exact_int_seq_def int_seq_vec_def normalize_many_def bulk_assigned_def)
  ultimately show ?thesis using list_assignment_exact [of "VBoolList [True, False]" "VInt 7" "VInt 1"] by simp
qed

text \<open>C32: an assignment that fails, to any value and through any key, leaves its target as it was: only
  the storage of a virtual range may have become an int list.\<close>

theorem failed_assignment_atomic:
  "(\<not> snd (assign_by_index t key v) \<longrightarrow> fst (assign_by_index t key v) = materialize_int_range t) \<and>
   (\<not> snd (assign_by_indices t keys v) \<longrightarrow>
      fst (assign_by_indices t keys v) = (if keys = [] then t else materialize_int_range t))"
proof -
  have one: "snd (assign_by_index t key v) \<or> fst (assign_by_index t key v) = materialize_int_range t" for key
  proof -
    consider "is_list t" | m where "t = VDict m" | "\<not> is_container t" by (cases t) (auto simp: is_container_def is_list_def is_dict_def)
    then show ?thesis
    proof cases
      case 1
      then show ?thesis using assign_by_index_describes [OF 1, of key v]
        by (cases "list_assigned t key v") (auto simp: describes_def)
    next
      case (2 m)
      then show ?thesis using dict_assign_atomic [of m key v] by auto
    next
      case 3
      then have "materialize_int_range t = t" by (cases t) (simp_all add: is_container_def is_list_def materialize_int_range_def)
      then show ?thesis using assign_no_container [OF 3, of key v keys] by simp
    qed
  qed
  have many: "keys = [] \<or> assign_by_indices t keys v = assign_by_index t (VList keys) v \<or>
      (\<exists>key. assign_by_indices t keys v = assign_by_index t key v)"
  proof (cases keys)
    case (Cons a ks)
    then show ?thesis
      using assign_indices_list [of keys t v] by (cases ks) (auto simp: assign_by_indices_def)
  qed simp
  show ?thesis
  proof (cases "keys = []")
    case True
    then show ?thesis using one [of key] by (auto simp: assign_by_indices_def)
  next
    case False
    then obtain k where "assign_by_indices t keys v = assign_by_index t k v" using many by auto
    then show ?thesis using one [of key] one [of k] False by auto
  qed
qed

theorem failed_assignment_atomic_witness:
  "fst (assign_by_index (VIntRange (new_int_range 5 2 3)) (VInt 9) (VInt 0)) =
     materialize_int_range (VIntRange (new_int_range 5 2 3))"
proof -
  have "\<not> snd (assign_by_index (VIntRange (new_int_range 5 2 3)) (VInt 9) (VInt 0))"
    by (simp add: assign_by_index_def packed_list_len_def resolve_single_idx_def normalize_idx_def new_int_range_def
        resolve_many_idx_def exact_int_seq_def int_seq_vec_def normalize_many_def updated_def)
  then show ?thesis
    using failed_assignment_atomic [of "VIntRange (new_int_range 5 2 3)" "VInt 9" "VInt 0" "[]"] by blast
qed

lemma value_eq_ints: "value_eq E (VInt a) (VInt b) \<longleftrightarrow> a = b"
  by (subst value_eq.simps) (simp add: eq_step_def seq_from_value_def atom_eq_def is_unit_value_def is_list_def)


section \<open>Dictionaries\<close>

lemma index_dict_tag: "index (VDict m) (VTag k) = map_of m k"
  by (simp add: index_def seq_from_value_def resolve_single_idx_def resolve_many_idx_def exact_int_seq_def or_else_def)

lemma index_dict_position:
  "resolve_single_idx key (length m) = Some i \<Longrightarrow> index (VDict m) key = Some (snd (m ! i))"
  using resolve_single_bound [of key "length m" i]
  by (simp add: index_def seq_from_value_def or_else_def dict_at_def nth_opt_def)

lemma resolve_single_no_tag: "resolve_single_idx key len = Some i \<Longrightarrow> key \<noteq> VTag k"
  by (auto simp: resolve_single_idx_def)



end
