(* ===== verification/Edit_Facts.thy ===== *)
theory Edit_Facts
  imports Value_Edit Access_Facts
begin

text \<open>
  What insertion, popping and removal promise, stated once for every storage of a list (the locale
  \<open>list_storage\<close>, interpreted on the five kept variants) over the elements: which elements leave, in which
  order they are returned, what stays, and that a refused edit changes nothing.
\<close>

section \<open>Positions\<close>

lemma adjacent_sorted: "sorted xs \<Longrightarrow> adjacent_equal xs \<longleftrightarrow> \<not> distinct xs"
  by (induction xs rule: adjacent_equal.induct) (auto simp: order.antisym)

lemma adjacent_equal_sort: "adjacent_equal (sort xs) \<longleftrightarrow> \<not> distinct xs"
  by (simp add: adjacent_sorted)

lemma normalize_remove: "normalize_remove_idx = normalize_idx"
  by (intro ext) (simp add: normalize_remove_idx_def normalize_idx_def)

lemma normalize_insert_bound: "normalize_insert_idx i len = Some j \<Longrightarrow> j \<le> len"
  by (auto simp: normalize_insert_idx_def Let_def split: if_splits)

lemma positions_shape:
  assumes "parse_exact_int_positions ex v len norm msg req = Inr (ps, multi)"
  shows "list_all (\<lambda>p. \<exists>i. norm i len = Some p) ps \<and> (\<not> multi \<longrightarrow> length ps = 1)"
proof -
  obtain s where s: "exact_int_seq v = Some s" "those (map (\<lambda>i. norm i len) (int_seq_vec s)) = Some ps"
      "multi \<longleftrightarrow> \<not> seq_is_atom s"
    using assms by (auto simp: parse_exact_int_positions_def split: option.splits)
  show ?thesis using those_map_nth [OF s(2)] s(3)
    by (cases s) (auto simp: list_all_length seq_is_atom_def int_seq_vec_def)
qed

lemma remove_positions:
  assumes "parse_remove_positions ex idx len = Inr (ps, multi)"
  shows "list_all (\<lambda>p. p < len) ps" "\<not> multi \<Longrightarrow> \<exists>p. ps = [p]"
  using positions_shape [OF assms [unfolded parse_remove_positions_def]]
  by (auto simp: normalize_remove normalize_idx_iff list_all_iff length_Suc_conv)

lemma insert_positions:
  assumes "parse_insert_positions ex dsts len = Inr (ps, multi)"
  shows "list_all (\<lambda>p. p \<le> len) ps" "\<not> multi \<Longrightarrow> \<exists>p. ps = [p]"
  using assms positions_shape [of ex _ len normalize_insert_idx _ _ ps multi]
  by (auto simp: parse_insert_positions_def list_all_iff length_Suc_conv
      split: option.splits dest!: positions_shape bspec dest: normalize_insert_bound)

section \<open>Removing positions\<close>

lemma nths_all: "(\<And>i. i < length xs \<Longrightarrow> i \<in> A) \<Longrightarrow> nths xs A = xs"
  by (simp add: nths_all)

lemma nths_split_at:
  assumes "q < length xs" "\<And>s. s \<in> S \<Longrightarrow> s < q"
  shows "nths xs (- insert q S) = nths (take q xs) (- S) @ drop (Suc q) xs"
    and "nths (remove_at xs q) (- S) = nths (take q xs) (- S) @ drop (Suc q) xs"
proof -
  have x: "xs = take q xs @ xs ! q # drop (Suc q) xs" using assms(1) by (rule id_take_nth_drop)
  have l: "length (take q xs) = q" using assms(1) by simp
  have rest: "nths ys {j. j + q \<in> - S} = ys" for ys :: "'a list"
    by (rule nths_all) (use assms(2) in force)
  have rest': "nths ys {j. Suc j + q \<in> - insert q S} = ys" for ys :: "'a list"
    by (rule nths_all) (use assms(2) in force)
  have low: "nths (take q xs) (- insert q S) = nths (take q xs) (- S)"
    unfolding nths_def by (intro arg_cong [where f = "map fst"] filter_cong) (auto simp: in_set_zip)
  show "nths xs (- insert q S) = nths (take q xs) (- S) @ drop (Suc q) xs"
    by (subst x) (simp only: nths_append l nths_Cons low, use rest' [of "drop (Suc q) xs"] in simp)
  show "nths (remove_at xs q) (- S) = nths (take q xs) (- S) @ drop (Suc q) xs"
    unfolding remove_at_def nths_append l rest ..
qed

lemma length_remove_at: "q < length xs \<Longrightarrow> length (remove_at xs q) = length xs - 1"
  by (simp add: remove_at_def)

lemma remove_down: "sorted_wrt (>) qs \<Longrightarrow> \<forall>q\<in>set qs. q < length xs \<Longrightarrow> foldl remove_at xs qs = nths xs (- set qs)"
proof (induction qs arbitrary: xs)
  case Nil
  then show ?case by (simp add: nths_all)
next
  case (Cons q qs)
  have "\<forall>p\<in>set qs. p < length (remove_at xs q)"
    using Cons.prems by (auto simp: length_remove_at)
  then have "foldl remove_at (remove_at xs q) qs = nths (remove_at xs q) (- set qs)"
    using Cons.IH Cons.prems(1) by simp
  then show ?case using nths_split_at [of q xs "set qs"] Cons.prems by auto
qed

lemma remove_descending_nths:
  "distinct ps \<Longrightarrow> list_all (\<lambda>p. p < length xs) ps \<Longrightarrow> remove_descending xs ps = nths xs (- set ps)"
proof -
  assume d: "distinct ps" "list_all (\<lambda>p. p < length xs) ps"
  have "sorted_wrt (>) (rev (sort ps))"
    using d(1) by (simp add: sorted_wrt_rev strict_sorted_iff [symmetric] del: strict_sorted_iff)
      (simp add: strict_sorted_iff)
  then show ?thesis using remove_down [of "rev (sort ps)" xs] d(2) by (simp add: remove_descending_def list_all_iff)
qed

lemma remove_at_nths: "p < length xs \<Longrightarrow> remove_at xs p = nths xs (- {p})"
  using nths_split_at(1) [of p xs "{}"] by (simp add: remove_at_def nths_all)

lemma map_remove: "map f (remove_at xs p) = remove_at (map f xs) p" "map f (nths xs S) = nths (map f xs) S"
  by (simp_all add: remove_at_def take_map drop_map nths_map)

section \<open>Merging insertions\<close>

lemma dropWhile_sorted:
  "sorted (map fst ops) \<Longrightarrow> \<forall>p\<in>set ops. i \<le> fst p \<Longrightarrow>
   takeWhile (\<lambda>p. fst p = i) ops = filter (\<lambda>p. fst p = i) ops \<and>
   dropWhile (\<lambda>p. fst p = i) ops = filter (\<lambda>p. i < fst p) ops"
proof (induction ops)
  case (Cons p ops)
  show ?case
  proof (cases "fst p = i")
    case True
    then show ?thesis using Cons by simp
  next
    case False
    then have "\<forall>q\<in>set (p # ops). i < fst q" using Cons.prems by fastforce
    then have "filter (\<lambda>q. fst q = i) (p # ops) = []" "filter (\<lambda>q. i < fst q) (p # ops) = p # ops"
      by (auto simp: filter_empty_conv intro!: filter_True)
    then show ?thesis using False by simp
  qed
qed simp

text \<open>The merge, gap by gap: before each element, the values for its position in the order they were
  given.\<close>

definition gaps :: "nat \<Rightarrow> 'a list \<Rightarrow> (nat \<times> 'a) list \<Rightarrow> 'a list" where
  "gaps i base ops = concat (map (\<lambda>j. map snd (filter (\<lambda>p. fst p = i + j) ops) @
     (if j < length base then [base ! j] else [])) [0..<Suc (length base)])"

lemma gaps_Cons: "gaps i (b # bs) ops = map snd (filter (\<lambda>p. fst p = i) ops) @ b # gaps (Suc i) bs ops"
proof -
  have "[0..<Suc (length (b # bs))] = 0 # map Suc [0..<Suc (length bs)]"
    by (simp only: map_Suc_upt length_Cons) (rule upt_conv_Cons, simp)
  then show ?thesis unfolding gaps_def by (simp only: list.map concat.simps map_map) (simp add: comp_def cong del: if_weak_cong)
qed

lemma gaps_cong:
  assumes "\<And>j. i \<le> j \<Longrightarrow> filter (\<lambda>p. fst p = j) ops = filter (\<lambda>p. fst p = j) ops'"
  shows "gaps i base ops = gaps i base ops'"
  unfolding gaps_def using assms by simp

lemma insert_loop_gaps:
  "sorted (map fst ops) \<Longrightarrow> \<forall>p\<in>set ops. i \<le> fst p \<Longrightarrow> insert_loop i base ops = gaps i base ops"
proof (induction base arbitrary: i ops)
  case Nil
  then show ?case using dropWhile_sorted [of ops i] by (simp add: gaps_def)
next
  case (Cons b bs)
  note split = dropWhile_sorted [OF Cons.prems]
  let ?rest = "filter (\<lambda>p. i < fst p) ops"
  have "insert_loop (Suc i) bs ?rest = gaps (Suc i) bs ?rest"
    by (rule Cons.IH) (auto simp: Cons.prems(1) sorted_filter)
  also have "\<dots> = gaps (Suc i) bs ops"
    by (rule gaps_cong) (auto simp: filter_filter intro!: filter_cong)
  finally show ?case using split by (simp add: gaps_Cons)
qed

lemma insert_many_gaps: "insert_many_owned base ops = gaps 0 base ops"
proof -
  have "insert_loop 0 base (sort_key fst ops) = gaps 0 base (sort_key fst ops)"
    by (rule insert_loop_gaps) simp_all
  also have "\<dots> = gaps 0 base ops"
    by (rule gaps_cong) (rule sort_key_stable)
  finally show ?thesis by (simp add: insert_many_owned_def)
qed

lemma map_gaps: "map f (gaps i base ops) = gaps i (map f base) (map (map_prod id f) ops)"
  unfolding gaps_def map_concat map_map comp_def
  by (intro arg_cong [where f = concat] map_cong refl) (auto simp: filter_map comp_def)

lemma map_insert_many: "map f (insert_many_owned base (zip ps vs)) = insert_many_owned (map f base) (zip ps (map f vs))"
  by (simp add: insert_many_gaps map_gaps zip_map2 map_prod_def)

lemma map_splice: "map f (splice_at xs i ys) = splice_at (map f xs) i (map f ys)"
  by (simp add: splice_at_def take_map drop_map)

section \<open>Every storage of a list\<close>

text \<open>Removal, popping and insertion over the elements.\<close>

definition removal :: "(wq_value \<Rightarrow> ustr) \<Rightarrow> wq_value \<Rightarrow> wq_value \<Rightarrow> (wq_error + wq_value) \<times> wq_value \<Rightarrow> bool" where
  "removal ex t idx r \<longleftrightarrow>
     (case parse_remove_positions ex idx (length (items t)) of
        Inl e \<Rightarrow> fst r = Inl e \<and> items (snd r) = items t
      | Inr (ps, multi) \<Rightarrow>
          if multi \<and> \<not> distinct ps
          then fst r = Inl (domain_error ''remove indices must be unique'') \<and> items (snd r) = items t
          else items (snd r) = nths (items t) (- set ps) \<and>
            (if multi then \<exists>w. fst r = Inr w \<and> items w = map ((!) (items t)) ps
             else fst r = Inr (items t ! hd ps)))"

definition popped :: "wq_value \<Rightarrow> nat \<Rightarrow> wq_value \<times> wq_value \<Rightarrow> bool" where
  "popped t n r \<longleftrightarrow>
     (let rest = length (items t) - n in
      items (snd r) = take rest (items t) \<and>
      (if n = 1 \<and> items t \<noteq> [] then fst r = last (items t) else items (fst r) = drop rest (items t)))"

definition inserted :: "(wq_value \<Rightarrow> ustr) \<Rightarrow> wq_value \<Rightarrow> wq_value \<Rightarrow> wq_value option \<Rightarrow> edit \<Rightarrow> bool" where
  "inserted ex t xs dsts r \<longleftrightarrow>
     (case parse_insert_positions ex dsts (length (items t)) of
        Inl e \<Rightarrow> r = refused e t
      | Inr (ps, multi) \<Rightarrow>
          if ps = [] then r = edited t
          else if multi then
            (case list_insert_pairwise xs (length ps) of
               Inl e \<Rightarrow> r = refused e t
             | Inr vals \<Rightarrow> \<exists>d. r = edited d \<and> items d = gaps 0 (items t) (zip ps vals))
          else \<exists>d. r = edited d \<and>
            items d = take (hd ps) (items t) @ list_insert_items xs @ drop (hd ps) (items t))"

locale list_storage =
  fixes pack :: "'a list \<Rightarrow> wq_value" and con :: "'a \<Rightarrow> wq_value"
  assumes items_pack: "items (pack xs) = map con xs"
    and stored_pack: "stored (pack xs)"
begin

lemma removal: "removal ex (pack xs) idx (remove_from_list ex pack con xs idx)"
proof (cases "parse_remove_positions ex idx (length xs)")
  case (Inr pm)
  obtain ps multi where pm: "pm = (ps, multi)" by (cases pm)
  note ok = remove_positions [OF Inr [unfolded pm]]
  have nth: "map con (map ((!) xs) ps) = map ((!) (map con xs)) ps" using ok(1) by (auto simp: list_all_iff)
  have one: "con (xs ! p) = map con xs ! p \<and> remove_at xs p = nths xs (- {p})" if "ps = [p]" for p
    using that ok(1) by (simp add: remove_at_nths)
  show ?thesis using ok one nth Inr pm
    by (cases multi)
      (auto simp: removal_def remove_from_list_def ensure_unique_positions_def adjacent_equal_sort items_pack
        remove_descending_nths remove_at_nths map_remove)
qed (simp add: removal_def remove_from_list_def items_pack)

lemma pop: "popped (pack xs) n (pop_packed pack con n xs)"
proof -
  have "con (xs ! (length xs - 1)) = last (map con xs)" if "xs \<noteq> []"
    using that by (simp add: last_map last_conv_nth)
  moreover have "drop (length xs - 1) xs = [last xs]" if "xs \<noteq> []"
    using that by (induction xs rule: rev_induct) simp_all
  ultimately show ?thesis
    by (auto simp: popped_def pop_packed_def popped_packed_def items_pack Let_def take_map drop_map
        last_map empty_list_value_def items_simps split: list.splits)
qed

end

interpretation general: list_storage VList id
  by unfold_locales (simp_all add: items_simps)

interpretation ints: list_storage VIntList VInt
  by unfold_locales (simp_all add: items_simps)

interpretation bools: list_storage VBoolList VBool
  by unfold_locales (simp_all add: items_simps)

interpretation floats: list_storage VFloatList VFloat
  by unfold_locales (simp_all add: items_simps)

interpretation chars: list_storage VString VChar
  by unfold_locales (simp_all add: items_simps)

text \<open>A packed list that also takes insertions, with the two conversions that keep it packed; \<open>good\<close> are
  the inserted values the conversions are exact for.\<close>

locale packed_storage = list_storage +
  fixes pairwise_of :: "wq_value \<Rightarrow> nat \<Rightarrow> 'a list option" and items_of :: "wq_value \<Rightarrow> 'a list option"
    and good :: "wq_value \<Rightarrow> bool"
  assumes items_of_exact: "good xs \<Longrightarrow> items_of xs = Some vs \<Longrightarrow> list_insert_items xs = map con vs"
    and pairwise_exact: "good xs \<Longrightarrow> pairwise_of xs len = Some vs \<Longrightarrow> list_insert_pairwise xs len = Inr (map con vs)"
begin

lemma insertion:
  assumes "good xs"
  shows "inserted ex (pack base) xs dsts (insert_into_packed ex pack con pairwise_of items_of base xs dsts)"
proof (cases "parse_insert_positions ex dsts (length base)")
  case (Inr pm)
  obtain ps multi where pm: "pm = (ps, multi)" by (cases pm)
  have many: "items (pack (insert_many_owned base (zip ps vs))) = gaps 0 (map con base) (zip ps (map con vs))" for vs
    by (simp add: items_pack map_insert_many) (simp add: insert_many_gaps)
  have one: "items (pack (splice_at base p vs)) = take p (map con base) @ map con vs @ drop p (map con base)" for p vs
    by (simp add: items_pack map_splice) (simp add: splice_at_def)
  show ?thesis using Inr pm many one items_of_exact [OF assms] pairwise_exact [OF assms]
    by (auto simp: inserted_def insert_into_packed_def items_pack items_simps insert_many_gaps splice_at_def
        split: option.splits sum.splits)
qed (simp add: inserted_def insert_into_packed_def items_pack)

end

text \<open>Arbitrary-precision integers that fit a machine integer are never kept as such by the program
  (\<open>Value::from_bigint\<close>).\<close>

definition normal_ints :: "wq_value \<Rightarrow> bool" where
  "normal_ints v \<longleftrightarrow> (\<forall>n. VBigInt n \<in> set (v # items v) \<longrightarrow> to_i64 n = None)"

lemma exact_atom_normal: "normal_ints v \<Longrightarrow> x \<in> set (v # items v) \<Longrightarrow> exact_int_atom x = Some i \<Longrightarrow> x = VInt i"
  by (cases x) (auto simp: exact_int_atom_def normal_ints_def)

lemma normal_bigint: "normal_ints (VBigInt n) \<Longrightarrow> to_i64 n = None"
  by (simp add: normal_ints_def)

lemma exact_general:
  assumes "normal_ints (VList vs)" "those (map exact_int_atom vs) = Some is"
  shows "vs = map VInt is"
  using those_map_nth [OF assms(2)] exact_atom_normal [OF assms(1)]
  by (auto simp: list_eq_iff_nth_eq items_simps)

lemmas insert_defs = list_insert_items_def list_insert_pairwise_def list_storage_from_value_def storage_values_def
  storage_len_def packed_int_seq_def int_seq_vec_def int_seq_len_def

lemma exact_items_ints:
  "normal_ints xs \<Longrightarrow> exact_int_insert_items xs = Some vs \<Longrightarrow> list_insert_items xs = map VInt vs"
  by (cases xs)
    (auto simp: exact_int_insert_items_def exact_int_seq_def insert_defs dest: exact_general normal_bigint)

lemma exact_pairwise_ints:
  "normal_ints xs \<Longrightarrow> exact_int_insert_pairwise xs len = Some vs \<Longrightarrow> list_insert_pairwise xs len = Inr (map VInt vs)"
  by (cases xs)
    (auto simp: exact_int_insert_pairwise_def exact_int_seq_def insert_defs seq_is_atom_def split: if_splits option.splits
      dest: exact_general normal_bigint)

interpretation packed_ints: packed_storage VIntList VInt exact_int_insert_pairwise exact_int_insert_items normal_ints
  by unfold_locales (rule exact_items_ints exact_pairwise_ints; assumption)+

interpretation packed_bools: packed_storage VBoolList VBool bool_insert_pairwise bool_insert_items "\<lambda>_. True"
proof (unfold_locales, goal_cases)
  case (1 xs vs)
  then show ?case by (cases xs) (auto simp: bool_insert_items_def insert_defs dest: collect_facts)
next
  case (2 xs len vs)
  then show ?case by (cases xs) (auto simp: bool_insert_pairwise_def insert_defs split: if_splits dest: collect_facts)
qed

interpretation packed_floats: packed_storage VFloatList VFloat float_insert_pairwise float_insert_items "\<lambda>_. True"
proof (unfold_locales, goal_cases)
  case (1 xs vs)
  then show ?case by (cases xs) (auto simp: float_insert_items_def insert_defs dest: collect_facts)
next
  case (2 xs len vs)
  then show ?case by (cases xs) (auto simp: float_insert_pairwise_def insert_defs split: if_splits dest: collect_facts)
qed

lemma insertion_general: "inserted ex (VList base) xs dsts (insert_into_list ex base xs dsts)"
  by (auto simp: inserted_def insert_into_list_def items_simps insert_many_gaps splice_at_def split: sum.splits)

section \<open>Dictionaries\<close>

lemma collect_results_all: "collect_results (map Inr xs) = Inr xs"
  by (induction xs) simp_all

lemma collect_results_Inr: "collect_results rs = Inr xs \<longleftrightarrow> rs = map Inr xs"
proof
  show "collect_results rs = Inr xs \<Longrightarrow> rs = map Inr xs"
    by (induction rs arbitrary: xs) (auto split: sum.splits)
qed (simp add: collect_results_all)

lemma map_without_many: "foldl (\<lambda>m k. map_without k m) m keys = filter (\<lambda>e. fst e \<notin> set keys) m"
proof (induction keys arbitrary: m)
  case (Cons k keys)
  then show ?case by (auto simp: map_without_def intro: filter_cong)
qed simp

lemma dict_remove_loop_exact:
  "distinct keys \<Longrightarrow> set keys \<subseteq> fst ` set m \<Longrightarrow>
   dict_remove_loop ex idx keys m removed =
     (Inr (removed @ map (\<lambda>k. the (map_of m k)) keys), filter (\<lambda>e. fst e \<notin> set keys) m)"
proof (induction keys arbitrary: m removed)
  case (Cons k keys)
  obtain v where v: "map_of m k = Some v" using Cons.prems(2) by (cases "map_of m k") (auto simp: map_of_eq_None_iff)
  have sub: "set keys \<subseteq> fst ` set (map_without k m)"
  proof
    fix k' assume k': "k' \<in> set keys"
    then have "k' \<noteq> k" "k' \<in> fst ` set m" using Cons.prems by auto
    then show "k' \<in> fst ` set (map_without k m)" by (force simp: map_without_def)
  qed
  have other: "the (map_of (map_without k m) k') = the (map_of m k')" if "k' \<in> set keys" for k'
    using that Cons.prems(1) by (auto simp: map_of_without)
  have "filter (\<lambda>e. fst e \<notin> set keys) (map_without k m) = filter (\<lambda>e. fst e \<notin> set (k # keys)) m"
    by (auto simp: map_without_def intro: filter_cong)
  then show ?case using Cons.IH [OF _ sub, of "removed @ [v]"] Cons.prems(1) v other
    by (simp add: map_shift_remove_def cong: map_cong)
qed simp

lemma dict_key_present: "dict_key_at ex reported i m = Inr k \<Longrightarrow> k \<in> fst ` set m"
  by (auto simp: dict_key_at_def nth_opt_def Option.bind_eq_Some_conv split: option.splits if_splits)
    (metis fst_conv image_eqI nth_mem)

lemma dict_item_present: "dict_remove_item ex m item = Inr k \<Longrightarrow> k \<in> fst ` set m"
  by (cases item) (auto simp: dict_remove_item_def map_of_eq_None_iff split: if_splits dest: dict_key_present)

lemma collect_members:
  assumes "collect_results (map f xs) = Inr ks" "\<And>x k. f x = Inr k \<Longrightarrow> k \<in> A"
  shows "set ks \<subseteq> A"
proof
  fix k assume "k \<in> set ks"
  then have "Inr k \<in> set (map f xs)" using assms(1) by (simp only: collect_results_Inr) simp
  then obtain x where "f x = Inr k" by auto
  then show "k \<in> A" by (rule assms(2))
qed

lemma dict_keys_present:
  assumes "dict_remove_keys ex idx m = Inr (keys, multi)"
  shows "set keys \<subseteq> fst ` set m" "\<not> multi \<Longrightarrow> \<exists>k. keys = [k]"
proof -
  have ats: "collect_results (map (\<lambda>i. dict_key_at ex (VInt i) (Some i) m) is) = Inr ks \<Longrightarrow> set ks \<subseteq> fst ` set m" for "is" ks
    by (erule collect_members) (rule dict_key_present)
  have each: "collect_results (map (dict_remove_item ex m) vs) = Inr ks \<Longrightarrow> set ks \<subseteq> fst ` set m" for vs ks
    by (erule collect_members) (rule dict_item_present)
  show "set keys \<subseteq> fst ` set m" using assms
    by (cases idx) (auto simp: dict_remove_keys_def split: sum.splits dest: dict_item_present dest!: ats each)
  show "\<not> multi \<Longrightarrow> \<exists>k. keys = [k]" using assms
    by (cases idx) (auto simp: dict_remove_keys_def split: sum.splits)
qed

section \<open>What the edits promise\<close>

lemma pop_string_popped:
  assumes "\<not> (n = 1 \<and> length s = 1)" "0 < n"
  shows "popped (VString s) n (pop_string n s)"
proof (cases "length s \<le> n")
  case True
  then show ?thesis using assms by (cases s) (auto simp: pop_string_def popped_def items_simps Let_def)
next
  case False
  then have "drop (length s - 1) s = [last s]" by (induction s rule: rev_induct) simp_all
  then show ?thesis using False
    by (auto simp: pop_string_def popped_def items_simps Let_def take_map drop_map last_map)
qed

lemma pop_general:
  "popped (VList vs) n (popped_packed from_items id n (drop (length vs - n) vs), VList (take (length vs - n) vs))"
proof -
  have "drop (length vs - 1) vs = [last vs]" if "vs \<noteq> []"
    using that by (induction vs rule: rev_induct) simp_all
  then show ?thesis
    by (auto simp: popped_def popped_packed_def items_simps Let_def empty_list_value_def split: list.splits)
qed

lemma removal_spec:
  assumes "is_list t"
  shows "removal ex t idx (remove_in_place ex t idx)"
proof -
  have "removal ex t idx r = removal ex (materialize_int_range t) idx r" for r
    using materialize_list [OF assms] by (simp only: removal_def)
  moreover have "removal ex (materialize_int_range t) idx (remove_in_place ex t idx)"
    using assms
    by (cases t) (simp_all add: is_list_def remove_in_place_def Let_def general.removal ints.removal
        bools.removal floats.removal chars.removal)
  ultimately show ?thesis by simp
qed

text \<open>C36: removal from a list, on every branch and for every storage: an index out of range or a repeated
  one is refused, otherwise exactly the named elements leave, the others stay in order, and the result
  is the named elements in the order of the indices.\<close>

theorem removal_exact:
  assumes "is_list t"
  shows "removal ex t idx (remove_in_place ex t idx)"
  using assms by (rule removal_spec)

lemma pop_spec:
  assumes "is_list t" "\<And>c. t \<noteq> VString [c]"
  shows "popped t n (pop_in_place t n)"
proof (cases "n = 0")
  case True
  then show ?thesis using materialize_list [OF assms(1)]
    by (simp add: pop_in_place_def popped_def empty_list_value_def items_simps)
next
  case False
  have "popped t n r = popped (materialize_int_range t) n r" for r
    using materialize_list [OF assms(1)] by (simp only: popped_def)
  moreover have "popped (materialize_int_range t) n (pop_in_place t n)"
  proof (cases "\<exists>s. t = VString s")
    case True
    then obtain s where s: "t = VString s" ..
    then have "length s \<noteq> 1" using assms(2) by (auto simp: length_Suc_conv)
    then show ?thesis using pop_string_popped [of n s] False s by (simp add: pop_in_place_def)
  next
    case notstring: False
    then show ?thesis using assms(1) False pop_general
      by (cases t) (simp_all add: is_list_def pop_in_place_def Let_def ints.pop bools.pop floats.pop)
  qed
  ultimately show ?thesis by simp
qed

text \<open>Popping takes the last elements of a list, for every storage: the first of them stay behind,
  one popped element is returned as itself, several as a list, and popping more than there are empties
  the list.\<close>

theorem pop_exact:
  assumes "is_list t" "\<And>c. t \<noteq> VString [c]"
  shows "popped t n (pop_in_place t n)"
  using assms by (rule pop_spec)

text \<open>Popping the only character of a string returns a string, where popping the last character of a
  longer string, or the only element of any other list, returns the element.\<close>

theorem pop_last_char:
  "pop_in_place (VString [c]) 1 = (VString [c], VString []) \<and>
   pop_in_place (VString [b, c]) 1 = (VChar c, VString [b]) \<and>
   pop_in_place (VList [VChar c]) 1 = (VChar c, VList [])"
  by (simp add: pop_in_place_def pop_string_def popped_packed_def)

lemma insertion_spec:
  assumes "is_list t" "\<not> is_string (materialize_int_range t)" "normal_ints xs"
  shows "inserted ex (materialize_int_range t) xs dsts (insert_in_place ex t xs dsts)"
  using assms insertion_general packed_bools.insertion packed_floats.insertion packed_ints.insertion [OF assms(3)]
  by (cases t) (simp_all add: is_list_def insert_in_place_def Let_def is_string_def)

text \<open>C37: insertion into a list that is not a string, for every storage, without or with destinations:
  the result has the elements of the general list insertion, the values for a gap in the order they were
  given (\<open>gaps\<close>), and is refused exactly when the general one is.\<close>

theorem insertion_exact:
  assumes "is_list t" "\<not> is_string (materialize_int_range t)" "normal_ints xs"
  shows "inserted ex (materialize_int_range t) xs dsts (insert_in_place ex t xs dsts)"
  using assms by (rule insertion_spec)

lemma nonempty_items: "is_list t \<Longrightarrow> \<not> is_string (materialize_int_range t) \<Longrightarrow> items t \<noteq> []"
  using materialize_list [of t] value_len_items [of "materialize_int_range t"]
  by (auto simp: is_string_def is_unit_value_def is_empty_def stored_def)


section \<open>Refused edits\<close>


lemma refused_list:
  "insert_into_list ex base xs dsts = Some (Inl e, d) \<Longrightarrow> d = VList base"
  "insert_into_packed ex pack con pw it b xs dsts = Some (Inl e, d) \<Longrightarrow> d = pack b"
  by (auto simp: insert_into_list_def insert_into_packed_def refused_def edited_def
      split: sum.splits if_splits option.splits)

lemma refused_simps:
  "edit_dict r = Some (Inl e, d) \<longleftrightarrow> False" "refused e' v = Some (Inl e, d) \<longleftrightarrow> e' = e \<and> v = d"
  "edited v = Some (Inl e, d) \<longleftrightarrow> False"
  by (auto simp: edit_dict_def refused_def edited_def split: option.splits)

lemma insert_into_dict_positions:
  assumes "\<And>dd. dsts \<noteq> Some (VDict dd)"
  shows "insert_into_dict ex m xs dsts =
    (case parse_insert_positions ex dsts (length m) of
       Inl e \<Rightarrow> refused e (VDict m)
     | Inr (positions, multi) \<Rightarrow>
         if positions = [] then edited (VDict m)
         else if multi then
           (case dict_insert_entries xs (length positions) of
              Inl e \<Rightarrow> refused e (VDict m)
            | Inr kvs \<Rightarrow>
                edit_dict (dict_shift_insert_many m (map (\<lambda>(idx, key, v). (idx, key, v)) (zip positions kvs))))
         else
           (case xs of
              VDict kvs \<Rightarrow> edit_dict (dict_shift_insert_many m (map (\<lambda>(key, v). (hd positions, key, v)) kvs))
            | _ \<Rightarrow> refused (got1 ex xs (expected (R_Type TN_Dict) (new_error W_Domain))) (VDict m)))"
proof (cases dsts)
  case (Some v)
  then show ?thesis using assms by (cases v) (simp_all add: insert_into_dict_def)
qed (simp add: insert_into_dict_def)

lemma refused_dict: "insert_into_dict ex m xs dsts = Some (Inl e, d) \<Longrightarrow> d = VDict m"
proof (cases "\<exists>dd. dsts = Some (VDict dd)")
  case True
  assume r: "insert_into_dict ex m xs dsts = Some (Inl e, d)"
  then show ?thesis using True
    by (auto simp: insert_into_dict_def refused_simps split: sum.splits if_splits)
next
  case False
  assume r: "insert_into_dict ex m xs dsts = Some (Inl e, d)"
  from False have f: "\<And>dd. dsts \<noteq> Some (VDict dd)" by blast
  show ?thesis using r unfolding insert_into_dict_positions [OF f]
    by (cases xs) (auto simp: refused_simps split: sum.splits if_splits)
qed

lemma refused_removal: "remove_from_list ex pack con xs idx = (Inl e, d) \<Longrightarrow> d = pack xs"
  by (auto simp: remove_from_list_def split: sum.splits if_splits option.splits)

lemma refused_atom: "remove_from_atom ex a idx = (Inl e, d) \<Longrightarrow> d = a"
  by (auto simp: remove_from_atom_def split: sum.splits if_splits option.splits)

lemma remove_dict:
  "remove_from_dict ex m idx =
    (case dict_remove_keys ex idx m of
       Inl e \<Rightarrow> (Inl e, VDict m)
     | Inr (keys, multi) \<Rightarrow>
         if \<not> distinct keys then (Inl (domain_error ''dict remove keys must be unique''), VDict m)
         else (Inr (if multi then from_items (map (\<lambda>k. the (map_of m k)) keys) else the (map_of m (hd keys))),
           VDict (filter (\<lambda>e. fst e \<notin> set keys) m)))"
proof (cases "dict_remove_keys ex idx m")
  case (Inr km)
  obtain keys multi where km: "km = (keys, multi)" by (cases km)
  note ok = dict_keys_present [OF Inr [unfolded km]]
  show ?thesis using ok dict_remove_loop_exact [OF _ ok(1), of ex idx "[]"] Inr km
    by (cases multi; cases "distinct keys") (auto simp: remove_from_dict_def adjacent_equal_sort)
qed (simp add: remove_from_dict_def)

text \<open>C39: an insertion or removal that is refused leaves its target as it was, for every value and every
  index, dictionaries included; only a virtual range may have become an int list.\<close>

theorem refused_edit_atomic:
  "(insert_in_place ex t xs dsts = Some (Inl e, d) \<longrightarrow> d = materialize_int_range t) \<and>
   (remove_in_place ex t idx = (Inl e, d) \<longrightarrow> d = materialize_int_range t)"
proof (intro conjI impI)
  assume i: "insert_in_place ex t xs dsts = Some (Inl e, d)"
  let ?t = "materialize_int_range t"
  show "d = ?t"
  proof (cases "is_string ?t")
    case True
    then show ?thesis using i by (auto simp: insert_in_place_def Let_def refused_simps split: sum.splits)
  next
    case False
    then show ?thesis using i unfolding insert_in_place_def Let_def
      by (cases ?t) (auto simp: refused_simps dest: refused_list refused_dict)
  qed
next
  assume r: "remove_in_place ex t idx = (Inl e, d)"
  have dict: "remove_from_dict ex m idx = (Inl e, d) \<Longrightarrow> d = VDict m" for m
    by (auto simp: remove_dict split: sum.splits if_splits)
  show "d = materialize_int_range t" using r unfolding remove_in_place_def Let_def
    by (cases "materialize_int_range t") (auto dest: refused_removal refused_atom dict)
qed

section \<open>Insertion into dictionaries\<close>

lemma sort_const: "sort_key fst (map (Pair p) kvs) = map (Pair (p :: nat)) kvs"
  by (rule sort_key_id_if_sorted) (simp add: comp_def sorted_map)

lemma shift_insert_new:
  assumes "k \<notin> fst ` set m" "i \<le> length m"
  shows "map_shift_insert i k v m = Some (take i m @ (k, v) # drop i m)"
  using assms by (simp add: map_shift_insert_def Let_def without_absent map_of_eq_None_iff [THEN iffD2])

lemma shift_loop_new:
  "keys_distinct (m @ kvs) \<Longrightarrow> p + off \<le> length m \<Longrightarrow>
   shift_insert_loop off (map (Pair p) kvs) m = Some (take (p + off) m @ kvs @ drop (p + off) m)"
proof (induction kvs arbitrary: off m)
  case (Cons kv kvs)
  obtain k v where kv: "kv = (k, v)" by (cases kv)
  let ?i = "p + off"
  let ?m = "take ?i m @ (k, v) # drop ?i m"
  have new: "k \<notin> fst ` set m" using Cons.prems(1) by (auto simp: keys_distinct_def kv)
  have keys: "map fst ?m = take ?i (map fst m) @ k # drop ?i (map fst m)" by (simp add: take_map drop_map)
  have "distinct (map fst ?m)" unfolding keys
    by (rule distinct_splice) (use Cons.prems(1) new in \<open>simp_all add: keys_distinct_def\<close>)
  moreover have "set ?m = insert (k, v) (set m)"
  proof -
    have "set (take ?i m) \<union> set (drop ?i m) = set m" by (metis append_take_drop_id set_append)
    then show ?thesis by auto
  qed
  ultimately have "keys_distinct (m' @ kvs)" if "m' = ?m" for m'
    using Cons.prems(1) that [symmetric] by (auto simp: keys_distinct_def kv)
  moreover have "p + Suc off \<le> length ?m" using Cons.prems(2) by simp
  ultimately have "shift_insert_loop (Suc off) (map (Pair p) kvs) ?m =
      Some (take (p + Suc off) ?m @ kvs @ drop (p + Suc off) ?m)"
    by (intro Cons.IH) simp_all
  then show ?case using Cons.prems(2) by (simp add: kv shift_insert_new [OF new])
qed simp

lemma insert_dict_at:
  assumes "parse_insert_positions ex (Some key) (length m) = Inr ([p], False)"
  shows "insert_in_place ex (VDict m) (VDict kvs) (Some key) =
    edit_dict (shift_insert_loop 0 (map (Pair p) kvs) m)"
proof -
  have "key \<noteq> VDict dd" for dd
    using assms by (auto simp: parse_insert_positions_def parse_exact_int_positions_def exact_int_seq_def)
  then have "insert_into_dict ex m (VDict kvs) (Some key) = edit_dict (shift_insert_loop 0 (map (Pair p) kvs) m)"
    using assms by (subst insert_into_dict_positions) (auto simp: dict_shift_insert_many_def sort_const)
  then show ?thesis by (simp add: insert_in_place_def is_string_def is_unit_value_def is_list_def)
qed

text \<open>Inserting new entries into a dictionary at a position puts them there, in their order, between the
  entries before and after that position.\<close>

theorem dict_insertion:
  assumes "parse_insert_positions ex (Some key) (length m) = Inr ([p], False)" "keys_distinct (m @ kvs)"
  shows "insert_in_place ex (VDict m) (VDict kvs) (Some key) = edited (VDict (take p m @ kvs @ drop p m))"
  using shift_loop_new [OF assms(2), of p 0] insert_positions(1) [OF assms(1)]
  by (simp add: insert_dict_at [OF assms(1)] edit_dict_def)


text \<open>Removal from a dictionary: missing keys and keys named twice are refused, otherwise exactly the
  named entries leave, the others keep their order, and the values come back in the order of the keys.\<close>

theorem dict_removal:
  "remove_in_place ex (VDict m) idx =
    (case dict_remove_keys ex idx m of
       Inl e \<Rightarrow> (Inl e, VDict m)
     | Inr (keys, multi) \<Rightarrow>
         if \<not> distinct keys then (Inl (domain_error ''dict remove keys must be unique''), VDict m)
         else (Inr (if multi then from_items (map (\<lambda>k. the (map_of m k)) keys) else the (map_of m (hd keys))),
           VDict (filter (\<lambda>e. fst e \<notin> set keys) m)))"
  by (simp add: remove_in_place_def remove_dict Let_def)

text \<open>Removing no positions from an atom replaces it by the empty list, and an empty list takes only
  strings.\<close>

lemma remove_nothing_from_atom: "remove_in_place ex (VInt i) (VIntList []) = (Inr (VList []), VList [])"
  by (simp add: remove_in_place_def remove_from_atom_def parse_remove_positions_def parse_exact_int_positions_def
      exact_int_seq_def packed_int_seq_def int_seq_vec_def seq_is_atom_def ensure_unique_positions_def
      from_items_def builder_finish_def empty_list_value_def materialize_int_range_def)

lemma insert_into_empty: "insert_in_place ex (VList []) (VInt i) (Some (VInt 0)) = refused (expected_string1 ex (VInt i)) (VList [])"
  by (simp add: insert_in_place_def is_string_def is_unit_value_def is_list_def insert_string_in_place_def
      string_or_error_def try_rust_string_def parse_insert_positions_def parse_exact_int_positions_def
      exact_int_seq_def int_seq_vec_def seq_is_atom_def normalize_insert_idx_def)

text \<open>Popping a dictionary takes the values of its last entries, in order.\<close>

lemma pop_dict_loop_exact:
  "k \<le> length m \<Longrightarrow> pop_dict_loop k m removed =
     (map snd (drop (length m - k) m) @ rev removed, take (length m - k) m)"
proof (induction k arbitrary: m removed)
  case (Suc k)
  then obtain m' e where m: "m = m' @ [e]" by (cases m rule: rev_cases) auto
  have "Suc (length m') - Suc k = length m' - k" by simp
  then show ?case using Suc.IH [of m'] Suc.prems by (simp add: m)
qed simp

lemma pop_dict:
  "0 < n \<Longrightarrow> snd (pop_in_place (VDict m) n) = VDict (take (length m - n) m) \<and>
    (n = 1 \<and> m \<noteq> [] \<longrightarrow> fst (pop_in_place (VDict m) n) = snd (last m)) \<and>
    (n \<noteq> 1 \<longrightarrow> fst (pop_in_place (VDict m) n) = from_items (map snd (drop (length m - n) m)))"
  using pop_dict_loop_exact [of "min n (length m)" m "[]"]
  by (cases m rule: rev_cases) (auto simp: pop_in_place_def Let_def popped_packed_def min_def)

text \<open>Insertion into a string is the merge of one-character pieces with the inserted ones.\<close>

lemma chunk_loop_pieces: "chunk_loop i cs ops = concat (insert_loop i (map (\<lambda>c. [c]) cs) ops)"
  by (induction i cs ops rule: chunk_loop.induct) simp_all

lemma string_insertion: "insert_string_chunks base ops = concat (gaps 0 (map (\<lambda>c. [c]) base) ops)"
  by (simp add: insert_string_chunks_def chunk_loop_pieces insert_many_gaps [symmetric] insert_many_owned_def)

section \<open>Witnesses\<close>

lemma position_atoms:
  "parse_insert_positions ex (Some (VInt 1)) 2 = Inr ([1], False)" "parse_remove_positions ex (VInt 1) 3 = Inr ([1], False)"
  "parse_insert_positions ex (Some (VInt 1)) (Suc 0) = Inr ([1], False)"
  by (simp_all add: parse_insert_positions_def parse_remove_positions_def parse_exact_int_positions_def
      exact_int_seq_def int_seq_vec_def seq_is_atom_def normalize_insert_idx_def normalize_remove_idx_def)

theorem removal_exact_witness:
  "removal (\<lambda>_. []) (VBoolList [True, False, True]) (VInt 1)
     (remove_in_place (\<lambda>_. []) (VBoolList [True, False, True]) (VInt 1))"
  by (rule removal_exact) (simp add: is_list_def)

theorem pop_exact_witness: "popped (VString [97, 98]) 1 (pop_in_place (VString [97, 98]) 1)"
  by (rule pop_exact) (simp_all add: is_list_def)

theorem insertion_exact_witness:
  "inserted (\<lambda>_. []) (VIntList [1, 2]) (VFloatList [7]) None (insert_in_place (\<lambda>_. []) (VIntList [1, 2]) (VFloatList [7]) None)"
  using insertion_exact [of "VIntList [1, 2]" "VFloatList [7]" "\<lambda>_. []" None]
  by (simp add: is_list_def is_string_def is_unit_value_def is_empty_def value_len_def seq_from_value_def seq_len_def
      normal_ints_def items_simps)


theorem refused_edit_atomic_witness:
  "snd (remove_in_place (\<lambda>_. []) (VIntRange (new_int_range 5 2 3)) (VTag [97])) =
     materialize_int_range (VIntRange (new_int_range 5 2 3))"
proof -
  obtain e d where ed: "remove_in_place (\<lambda>_. []) (VIntRange (new_int_range 5 2 3)) (VTag [97]) = (Inl e, d)"
    by (simp add: remove_in_place_def remove_from_list_def parse_remove_positions_def parse_exact_int_positions_def
        exact_int_seq_def)
  then show ?thesis
    using refused_edit_atomic [of "\<lambda>_. []" "VIntRange (new_int_range 5 2 3)" "VInt 0" None e d "VTag [97]"] by simp
qed

theorem dict_insertion_witness:
  "insert_in_place (\<lambda>_. []) (VDict [([97], VInt 1), ([100], VInt 4)]) (VDict [([98], VInt 2), ([99], VInt 3)]) (Some (VInt 1)) =
     edited (VDict [([97], VInt 1), ([98], VInt 2), ([99], VInt 3), ([100], VInt 4)])"
  using dict_insertion [of "\<lambda>_. []" "VInt 1" "[([97], VInt 1), ([100], VInt 4)]" 1 "[([98], VInt 2), ([99], VInt 3)]"]
  by (simp add: position_atoms keys_distinct_def numeral_2_eq_2 [symmetric])


end
