(* ===== verification/Spec2Isabelle.thy ===== *)
theory Spec2Isabelle
  imports Literal_Roundtrip Flat_Cst Red_Facts Tce Fuse_Sim Vm_Int
    Value_Tree Value_Set Value_Cat Range_Facts Rng Edit_Facts
begin

text \<open>
  A verification development for the implementation of the array language wq (\<open>wqpl/src\<close>, Rust).

  \<^bold>\<open>The program.\<close> Source text is read by the lexer (\<open>lex.rs\<close>) and either parsed or, for tools, turned into
  a lossless tree (\<open>cst/\<close>). The compiler emits bytecode (\<open>vm/inst.rs\<close>) and runs two passes over it, the
  tail-call pass (\<open>compile/tce.rs\<close>) and the peephole pass (\<open>compile/fuse.rs\<close>). The interpreter
  (\<open>interpret/vanilla.rs\<close>) executes it on a stack machine; the instructions work on values (\<open>value/\<close>)
  through operators, broadcasting and the builtins (\<open>builtins/\<close>).

  \<^bold>\<open>Theories, in the order of the pipeline.\<close>
  \<^item> \<open>Prelude\<close>: characters as scalar values, strings with byte offsets, checked parsing and printing of
    integers, the collections of facts used by \<open>simp\<close>. \<open>WqError\<close> and \<open>Requirement\<close>: error values
    (\<open>wqerror.rs\<close>), requirements and their prose (\<open>wqerror/requirement.rs\<close>). \<open>Float64\<close>: the
    operations of \<open>f64\<close> on bit patterns, rounding to nearest even.
  \<^item> \<open>Escape\<close> (\<open>escape.rs\<close>, \<open>unicode.rs\<close>), \<open>Token\<close> (\<open>token.rs\<close>, \<open>identifier.rs\<close>), \<open>Scanner\<close>, \<open>Literals\<close>,
    \<open>Lexer\<close> (\<open>lex.rs\<close>): the state of the lexer as a record, one function per reader. \<open>Literal_Facts\<close>,
    \<open>Lexer_Facts\<close>, \<open>Token_Stream\<close>, \<open>Lexer_Correct\<close>, \<open>Literal_Roundtrip\<close>: progress, safety, tiling of
    the source, positions, and literals that lex back to the text they were printed from.
  \<^item> \<open>Syntax_Kind\<close>, \<open>Green\<close>, \<open>Cst_Builder\<close>, \<open>Flat_Cst\<close>, \<open>Red\<close> (\<open>cst/\<close>): kinds, immutable trees, the builder
    with checkpoints and interning, the token adapter, positioned nodes and their iterators.
    \<open>Red_Facts\<close>: ranges, traversal orders, offset lookup.
  \<^item> \<open>Operators\<close>, \<open>Inst\<close> (\<open>ast/operator.rs\<close>, \<open>vm/inst.rs\<close>, \<open>value/func.rs\<close>): bytecode, nested functions
    included. \<open>Tce\<close>: the tail-call pass. \<open>Fuse\<close>, \<open>Fuse_Facts\<close>, \<open>Fuse_Correct\<close>, \<open>Fuse_Loop\<close>: the
    peephole pass, its index maps, totality and termination. \<open>Vm\<close>: one activation of the interpreter,
    an instruction at a time. \<open>Vm_Cache\<close>: inline caches are transparent, by a relation of two runs.
    \<open>Fuse_Sim\<close>: the passes preserve results, by a simulation, and where they do not. \<open>Vm_Int\<close>: the integer
    fast path against exact integers.
  \<^item> \<open>Cas_Data\<close>, \<open>Value\<close> (\<open>value.rs\<close>, \<open>value/cas.rs\<close>): values, their categories and predicates.
    \<open>Int_Range\<close>, \<open>Value_Seq\<close> (\<open>value/seq.rs\<close>, \<open>value/convert.rs\<close>): virtual ranges with their double-ended
    iterator, packed sequences, the packing builder, fractions. \<open>Value_Bc\<close>, \<open>Value_Tree\<close>
    (\<open>value/bc.rs\<close>): broadcasting over every pair of containers, refining broadcasting on plain trees.
    \<open>Value_Eq\<close>, \<open>Value_Norm\<close> (\<open>value/hash.rs\<close>): equality and hashing, through one normal form.
    \<open>Value_Cat\<close> (\<open>value/op/container.rs\<close>): concatenation and flattening. \<open>Range\<close>, \<open>Range_Facts\<close>
    (\<open>range.rs\<close>): construction of integer, character and float ranges. \<open>Rng\<close> (\<open>value/rng.rs\<close>): the
    random number generator. \<open>Value_Set\<close> (\<open>builtins/set.rs\<close>): the set builtins as set algebra, through
    the locale \<open>key_set\<close>, the contract of a hash set, interpreted for machine integers and for values.
  \<^item> \<open>Index_Map\<close>: insertion-ordered dictionaries, as the locale \<open>index_map\<close> and its instance on entry lists.
    \<open>Value_Access\<close>, \<open>Access_Facts\<close> (\<open>value/access.rs\<close>): indexing and indexed assignment, one key or many,
    what they leave behind and that a failed one changes nothing. \<open>Value_Edit\<close>, \<open>Edit_Facts\<close> (same file):
    insertion, popping and removal in place, proved once for every storage of a list through the locales
    \<open>list_storage\<close> and \<open>packed_storage\<close>.

  \<^bold>\<open>Conventions.\<close> A character is its scalar value and a string a list of them; byte offsets are sums of
  UTF-8 lengths. An \<open>i64\<close> or \<open>u64\<close> is a 64-bit word, read with \<open>sint\<close> where it is signed; \<open>BigInt\<close> is
  \<open>int\<close>; a \<open>usize\<close> is a natural number, as lengths are bounded by memory (64-bit targets); a double is
  its bit pattern. \<open>Result\<close> is a sum with the error on the left; a panic, a non-terminating loop and an
  instruction outside the model are outcomes of their own, so that a theorem about results says which
  of them cannot occur. \<open>debug_assert!\<close> does nothing. \<open>Arc\<close> is sharing of immutable data; the identity of
  functions, generators and streams inside values is an address. What comes from other crates (Unicode
  tables, float parsing, \<open>OrderedFloat\<close>, \<open>IndexSet\<close>) is a record or argument of the definitions, with its
  documented laws as hypotheses and a concrete instance in the witness of each theorem that uses them.

  \<^bold>\<open>Bounds and fuel.\<close> Trees carry 32-bit lengths, so the theorems about them assume sources below four
  gibibytes. \<open>vm_run\<close> takes fuel, one unit per instruction; theorems about it relate runs for all
  amounts of fuel. The loops of the lexer stop with a special outcome when they make no progress, and
  \<open>tokenize_safe\<close> shows that this never happens. The rejection loop of the random number generator is a
  partial function; \<open>below_first_accepted\<close> says exactly when it returns.

  \<^bold>\<open>Two views of values.\<close> The interpreter model (\<open>Inst\<close>) has values with the code of functions and leaves
  operators on them to a parameter; the value model (\<open>Value\<close>) has every variant of \<open>Value\<close> and keeps the
  address of a function. The two meet in the machine integers, which both treat exactly.

  \<^bold>\<open>Not modelled.\<close> The parser, its constant folding and the compiler from syntax trees to bytecode
  (\<open>parse/\<close>, \<open>ast/\<close>, \<open>compile.rs\<close>, \<open>compile/cp.rs\<close>): their output, bytecode, is modelled, their some twelve
  thousand lines are not. Calls, closures, modules and error frames of the interpreter; the arithmetic
  of values beyond integers and ranges; the other builtins; computer algebra (\<open>cas/\<close>), special
  functions (\<open>cephes/\<close>) and matrices, which rest on real analysis; formatting, display, documentation,
  completion and highlighting, which print; sessions, scripts, the debugger and the executables
  \<open>wq-cli\<close>, \<open>wq-dap\<close>, \<open>wq-rl\<close>, \<open>wqls\<close>, \<open>wq-wasm\<close>, which are input and output around the core.
\<close>

section \<open>From source text to positioned leaves\<close>

text \<open>C1: The front end composes: for every source below four gibibytes, valid or not, the
  error-tolerant pipeline (lexer, tree builder, positioned view) yields a tree whose leaves, read
  from left to right, spell the source, and each leaf's range is the byte range of its text.\<close>

theorem source_to_leaves:
  assumes "xid_closed L" "blen source < 2 ^ 32"
  shows "\<exists>g. build_flat_cst_recovery L source = Inr (Some g) \<and>
    concat (map red_token_text (leaf_tokens (new_root g))) = source \<and>
    (\<forall>t \<in> set (leaf_tokens (new_root g)).
       str_slice source (unat (tr_start (token_range t))) (unat (tr_end (token_range t)))
         = Some (red_token_text t))"
proof -
  obtain g where g: "build_flat_cst_recovery L source = Inr (Some g)" "green_text g = source"
    "green_kind g = K_Root" "green_ok g" "as_node g \<noteq> None"
    using recovery_tree [OF assms] by blast
  have "str_slice source (unat (tr_start (token_range t))) (unat (tr_end (token_range t)))
      = Some (red_token_text t)" if "t \<in> set (leaf_tokens (new_root g))" for t
  proof -
    have "EToken t \<in> set (descendants_with_tokens (new_root g))"
      using that by (auto simp: leaf_tokens_def only_tokens_def)
    from element_range [OF g(4,5) this] g(2) show ?thesis by (simp add: red_token_text_def)
  qed
  with g root_leaf_texts [OF g(5)] show ?thesis by blast
qed

theorem source_to_leaves_witness:
  "\<exists>g. build_flat_cst_recovery ascii_lex_env (lit ''a @ `9'') = Inr (Some g) \<and>
    concat (map red_token_text (leaf_tokens (new_root g))) = lit ''a @ `9''"
  using source_to_leaves [OF ascii_xid_closed, of "lit ''a @ `9''"]
  by (auto simp: lit_def len_utf8_def)

end
